(* ===== verification/Agent_Prelude.thy ===== *)
theory Agent_Prelude
  imports "HOL-Library.Word" "HOL-Library.Signed_Division" "HOL-Library.Sublist"
begin

text \<open>
  Shared vocabulary of the development: Go's 64-bit signed integers, the string helpers of
  package \<open>strings\<close> that the agent calls, fallible results, and generic lemmas on lists and
  maps.  The collections \<open>str_simps\<close> and \<open>list_simps\<close> carry the string and list facts that the
  component theories rewrite with.

  Go strings are byte strings and are modelled by \<^typ>\<open>string\<close>.  Trimming and case folding are
  modelled on the ASCII range; the agent applies them to identifiers and header values only.
\<close>

named_theorems str_simps "facts on the string helpers"
named_theorems list_simps "facts on list updates and lookups"

type_synonym duration = int \<comment> \<open>\<open>time.Duration\<close>: nanoseconds in an \<open>int64\<close>\<close>
type_synonym time = int \<comment> \<open>\<open>time.Time\<close>: nanoseconds since the zero time, which is 0\<close>

section \<open>64-bit signed integers\<close>

definition wrap64 :: "int \<Rightarrow> int" where
  "wrap64 x = sint (word_of_int x :: 64 word)"

definition int64 :: "int \<Rightarrow> bool" where
  "int64 x \<longleftrightarrow> - (2 ^ 63) \<le> x \<and> x < 2 ^ 63"

lemma wrap64_eq: "wrap64 x = (x + 2 ^ 63) mod 2 ^ 64 - 2 ^ 63"
  by (simp add: wrap64_def signed_of_int signed_take_bit_eq_take_bit_shift take_bit_eq_mod)

lemma wrap64_id [simp]: "int64 x \<Longrightarrow> wrap64 x = x"
  by (simp add: wrap64_eq int64_def)

lemma int64_wrap64 [simp, intro]: "int64 (wrap64 x)"
  by (simp add: wrap64_eq int64_def)

abbreviation ns_per_ms :: int where "ns_per_ms \<equiv> 1000000"
abbreviation ns_per_s :: int where "ns_per_s \<equiv> 1000000000"
abbreviation ns_per_min :: int where "ns_per_min \<equiv> 60000000000"

section \<open>Strings\<close>

text \<open>\<open>strings.TrimSpace\<close>, \<open>strings.TrimRight(s, "/")\<close>, \<open>strings.HasPrefix\<close> and
  \<open>strings.HasSuffix\<close> (the library's \<^const>\<open>prefix\<close> and \<^const>\<open>suffix\<close>), \<open>strings.Contains\<close>
  (\<^const>\<open>sublist\<close>) and \<open>strings.ToLower\<close>.\<close>

definition is_space :: "char \<Rightarrow> bool" where
  "is_space c \<longleftrightarrow> of_char c \<in> {9 :: nat, 10, 11, 12, 13, 32}"

definition trim_right :: "(char \<Rightarrow> bool) \<Rightarrow> string \<Rightarrow> string" where
  "trim_right p s = rev (dropWhile p (rev s))"

definition trim_space :: "string \<Rightarrow> string" where
  "trim_space s = trim_right is_space (dropWhile is_space s)"

definition is_lower :: "char \<Rightarrow> bool" where
  "is_lower c \<longleftrightarrow> 97 \<le> (of_char c :: nat) \<and> (of_char c :: nat) \<le> 122"

definition is_upper :: "char \<Rightarrow> bool" where
  "is_upper c \<longleftrightarrow> 65 \<le> (of_char c :: nat) \<and> (of_char c :: nat) \<le> 90"

definition is_digit :: "char \<Rightarrow> bool" where
  "is_digit c \<longleftrightarrow> 48 \<le> (of_char c :: nat) \<and> (of_char c :: nat) \<le> 57"

definition lower_char :: "char \<Rightarrow> char" where
  "lower_char c = (if is_upper c then char_of ((of_char c :: nat) + 32) else c)"

definition to_lower :: "string \<Rightarrow> string" where
  "to_lower s = map lower_char s"

definition upper_char :: "char \<Rightarrow> char" where
  "upper_char c = (if is_lower c then char_of ((of_char c :: nat) - 32) else c)"

definition to_upper :: "string \<Rightarrow> string" where
  "to_upper s = map upper_char s"

lemma trim_right_append_stop [str_simps]:
  "s \<noteq> [] \<Longrightarrow> \<not> p (last s) \<Longrightarrow> trim_right p s = s"
  by (cases s rule: rev_cases) (simp_all add: trim_right_def)

lemma trim_right_last: "trim_right p s \<noteq> [] \<Longrightarrow> \<not> p (last (trim_right p s))"
  using hd_dropWhile [of p "rev s"] by (simp add: trim_right_def last_rev)

lemma trim_right_prefix: "prefix (trim_right p s) s"
proof -
  have "s = trim_right p s @ rev (takeWhile p (rev s))"
    unfolding trim_right_def by (metis rev_append rev_rev_ident takeWhile_dropWhile_id)
  then show ?thesis by (metis prefixI)
qed

lemma trim_space_no_space [str_simps]:
  "(\<And>c. c \<in> set s \<Longrightarrow> \<not> is_space c) \<Longrightarrow> trim_space s = s"
proof -
  assume ns: "\<And>c. c \<in> set s \<Longrightarrow> \<not> is_space c"
  then have "dropWhile is_space s = s" by (cases s) auto
  moreover from ns have "dropWhile is_space (rev s) = rev s"
    by (cases "rev s") (auto dest: arg_cong [where f = set])
  ultimately show ?thesis by (simp add: trim_space_def trim_right_def)
qed

lemma trim_space_idem [simp]: "trim_space (trim_space s) = trim_space s"
proof (cases "trim_space s = []")
  case True
  then show ?thesis unfolding True by (simp add: trim_space_def trim_right_def)
next
  case False
  let ?d = "dropWhile is_space s" and ?t = "trim_space s"
  have pre: "prefix ?t ?d" by (simp add: trim_space_def trim_right_prefix)
  then obtain zs where d: "?d = ?t @ zs" by (auto simp: prefix_def)
  with False have "hd ?t = hd ?d" and "?d \<noteq> []" by (metis hd_append2, metis append_is_Nil_conv)
  then have "\<not> is_space (hd ?t)" using hd_dropWhile by metis
  with False have "dropWhile is_space ?t = ?t" by (cases ?t) auto
  moreover have "\<not> is_space (last ?t)"
    using False trim_right_last unfolding trim_space_def by blast
  ultimately show ?thesis using False
    by (metis trim_right_append_stop trim_space_def)
qed

section \<open>Decimal numbers\<close>

text \<open>\<open>strconv.ParseInt(s, 10, 64)\<close>: an optional sign, at least one digit and nothing else; values
  outside \<open>int64\<close> are errors.  \<open>show_nat\<close> is the decimal rendering.\<close>

definition digit_val :: "char \<Rightarrow> nat" where
  "digit_val c = of_char c - 48"

definition dec_val :: "string \<Rightarrow> nat" where
  "dec_val s = foldl (\<lambda>a c. a * 10 + digit_val c) 0 s"

fun show_nat :: "nat \<Rightarrow> string" where
  "show_nat n =
     (if n < 10 then [char_of (n + 48)] else show_nat (n div 10) @ [char_of (n mod 10 + 48)])"

declare show_nat.simps [simp del]

definition parse_int64 :: "string \<Rightarrow> int option" where
  "parse_int64 s =
     (let (neg, ds) = (case s of c # cs \<Rightarrow>
             if c = CHR ''-'' then (True, cs) else if c = CHR ''+'' then (False, cs) else (False, s)
           | [] \<Rightarrow> (False, []));
          v = (if neg then - int (dec_val ds) else int (dec_val ds))
      in if ds \<noteq> [] \<and> list_all is_digit ds \<and> int64 v then Some v else None)"

lemma digit_char: "n < 10 \<Longrightarrow> is_digit (char_of (n + 48)) \<and> digit_val (char_of (n + 48)) = n"
  by (simp add: is_digit_def digit_val_def)

lemma show_nat_digits: "show_nat n \<noteq> [] \<and> list_all is_digit (show_nat n) \<and> dec_val (show_nat n) = n"
proof (induction n rule: show_nat.induct)
  case (1 n)
  show ?case
  proof (cases "n < 10")
    case True
    then show ?thesis
      by (subst (1 2 3) show_nat.simps) (simp add: digit_char dec_val_def)
  next
    case False
    then have IH: "list_all is_digit (show_nat (n div 10))" "dec_val (show_nat (n div 10)) = n div 10"
      using 1 by auto
    have "n mod 10 < 10" by simp
    note d = digit_char [OF this]
    have eq: "show_nat n = show_nat (n div 10) @ [char_of (n mod 10 + 48)]"
      using False by (subst show_nat.simps) simp
    show ?thesis unfolding eq using IH d by (auto simp: dec_val_def)
  qed
qed

lemma parse_show_nat [str_simps]:
  assumes "int n < 2 ^ 63"
  shows "parse_int64 (show_nat n) = Some (int n)"
proof -
  obtain c cs where s: "show_nat n = c # cs" using show_nat_digits [of n] by (cases "show_nat n") auto
  then have "is_digit c" using show_nat_digits [of n] by simp
  then have "c \<noteq> CHR ''-''" "c \<noteq> CHR ''+''" by (auto simp: is_digit_def)
  then show ?thesis
    using show_nat_digits [of n] s assms by (simp add: parse_int64_def int64_def)
qed

lemma is_digit_not_space: "is_digit c \<Longrightarrow> \<not> is_space c"
  by (auto simp: is_digit_def is_space_def)

lemma trim_show_nat [str_simps]: "trim_space (show_nat n) = show_nat n"
  using show_nat_digits [of n] by (intro trim_space_no_space) (auto simp: list_all_iff is_digit_not_space)

end
