(* ===== verification/Backoff.thy ===== *)
theory Backoff
  imports Agent_Prelude
begin

text \<open>
  Packages \<open>internal/backoff\<close> and \<open>internal/dcm/backoff.go\<close>: exponential backoff with full jitter, and the
  \<open>Retry-After\<close> header.  Durations are \<open>int64\<close> nanosecond counts, so the doubling and the product
  with \<open>time.Second\<close> are written with \<^const>\<open>wrap64\<close>; the jitter is computed in \<open>float64\<close>, modelled
  on integers by rounding to 53 significant bits.
\<close>

section \<open>Exponential backoff\<close>

function backoff_loop :: "duration \<Rightarrow> int \<Rightarrow> int \<Rightarrow> duration \<Rightarrow> duration" where
  "backoff_loop mx attempt i d =
     (if i < attempt \<and> d < mx
      then if d > mx sdiv 2 then mx else backoff_loop mx attempt (i + 1) (wrap64 (d * 2))
      else if d > mx then mx else d)"
  by pat_completeness auto
termination
  by (relation "measure (\<lambda>(mx, attempt, i, d). nat (attempt - i))") auto

declare backoff_loop.simps [simp del]

definition CalculateBackoff :: "duration \<Rightarrow> duration \<Rightarrow> int \<Rightarrow> duration" where
  "CalculateBackoff initial mx attempt = (if initial \<le> 0 then mx else backoff_loop mx attempt 0 initial)"

lemma sdiv_two: "0 \<le> (m :: int) \<Longrightarrow> m sdiv 2 = m div 2"
  by (simp add: signed_divide_int_def sgn_if)

lemma backoff_loop_eq:
  "mx < 2 ^ 63 \<Longrightarrow> 0 < d \<Longrightarrow> backoff_loop mx attempt i d = min (d * 2 ^ nat (attempt - i)) mx"
proof (induction mx attempt i d rule: backoff_loop.induct)
  case (1 mx attempt i d)
  show ?case
  proof (cases "i < attempt \<and> d < mx")
    case True
    define k where "k = nat (attempt - (i + 1))"
    have k: "nat (attempt - i) = Suc k" using True unfolding k_def by arith
    have pow: "(1 :: int) \<le> 2 ^ k" by simp
    have half: "mx sdiv 2 = mx div 2" using True 1 by (intro sdiv_two) simp
    show ?thesis
    proof (cases "d > mx sdiv 2")
      case big: True
      then have "mx \<le> d * 2" using half by linarith
      also have "d * 2 \<le> d * 2 ^ Suc k" using pow 1(3) by simp
      finally show ?thesis using True big k by (subst backoff_loop.simps) (simp add: min_def)
    next
      case small: False
      then have "d * 2 \<le> mx" using half by linarith
      then have w: "wrap64 (d * 2) = d * 2" using 1(2,3) by (intro wrap64_id) (simp add: int64_def)
      have "backoff_loop mx attempt (i + 1) (wrap64 (d * 2)) = min (d * 2 * 2 ^ k) mx"
        using 1(1) [OF True small] 1(2,3) unfolding w k_def by simp
      then show ?thesis using True small k by (subst backoff_loop.simps) (simp add: mult.assoc)
    qed
  next
    case False
    then have stop: "backoff_loop mx attempt i d = (if d > mx then mx else d)"
      by (subst backoff_loop.simps) (simp only: if_False)
    show ?thesis
    proof (cases "d < mx")
      case True
      with False have "nat (attempt - i) = 0" by simp
      then show ?thesis using stop True by simp
    next
      case ge: False
      moreover have "d \<le> d * 2 ^ nat (attempt - i)" using 1(3) by simp
      ultimately show ?thesis using stop by (simp add: min_def)
    qed
  qed
qed

section \<open>Full jitter\<close>

fun bit_len :: "nat \<Rightarrow> nat" where
  "bit_len n = (if n = 0 then 0 else Suc (bit_len (n div 2)))"

declare bit_len.simps [simp del]

text \<open>Round to the nearest number with 53 significant bits, ties to even.\<close>

definition f64_round :: "nat \<Rightarrow> nat" where
  "f64_round n =
     (let e = bit_len n - 53; q = n div 2 ^ e; r = 2 * (n mod 2 ^ e)
      in if r > 2 ^ e \<or> r = 2 ^ e \<and> odd q then (q + 1) * 2 ^ e else q * 2 ^ e)"

text \<open>\<open>rand.Float64\<close> draws \<open>k / 2^53\<close> with \<open>k < 2^53\<close>; \<open>k\<close> is the argument here.\<close>

definition ApplyJitter :: "duration \<Rightarrow> nat \<Rightarrow> duration" where
  "ApplyJitter calculated k =
     sgn calculated * int (f64_round (f64_round (nat \<bar>calculated\<bar>) * k) div 2 ^ 53)"

lemma bit_len_bounds: "0 < n \<Longrightarrow> 2 ^ (bit_len n - 1) \<le> n \<and> n < 2 ^ bit_len n"
proof (induction n rule: bit_len.induct)
  case (1 n)
  show ?case
  proof (cases "n = 1")
    case True
    then show ?thesis by (simp add: bit_len.simps)
  next
    case False
    then have pos: "0 < n div 2" using 1(2) by simp
    then have l: "0 < bit_len (n div 2)" by (subst bit_len.simps) simp
    have "2 ^ (bit_len (n div 2) - 1) \<le> n div 2 \<and> n div 2 < 2 ^ bit_len (n div 2)"
      using 1(1) 1(2) pos by simp
    then have "2 * 2 ^ (bit_len (n div 2) - 1) \<le> n \<and> n < 2 * 2 ^ bit_len (n div 2)" by linarith
    moreover have "bit_len n = Suc (bit_len (n div 2))" using 1(2) by (subst bit_len.simps) simp
    moreover obtain m where "bit_len (n div 2) = Suc m" using l by (auto dest: gr0_implies_Suc)
    ultimately show ?thesis by simp
  qed
qed

text \<open>Rounding never passes a representable bound.\<close>

lemma f64_round_le:
  assumes nm: "n \<le> a * 2 ^ e'" and a: "a \<le> 2 ^ 53"
  shows "f64_round n \<le> a * 2 ^ e'"
proof (cases "bit_len n - 53")
  case 0
  then show ?thesis using nm by (simp add: f64_round_def)
next
  case (Suc e0)
  define e where "e = bit_len n - 53"
  have len: "bit_len n = e + 53" and e: "0 < e" using Suc by (simp_all add: e_def)
  have "0 < n" using len by (cases "n = 0") (simp_all add: bit_len.simps)
  then have low: "2 ^ (e + 52) \<le> n" using bit_len_bounds [of n] len by (simp add: add.commute)
  have dvd: "2 ^ e dvd a * 2 ^ e'"
  proof (cases "e \<le> e'")
    case True
    then show ?thesis by (simp add: le_imp_power_dvd)
  next
    case False
    then have "a * 2 ^ e' \<le> 2 ^ 53 * 2 ^ e'" using a by simp
    also have "\<dots> = 2 ^ (e' + 53)" by (simp add: power_add mult.commute)
    also have "\<dots> \<le> 2 ^ (e + 52)" using False by (intro power_increasing) auto
    finally have "a * 2 ^ e' = 2 ^ (e + 52)" using nm low by linarith
    then show ?thesis by (simp add: le_imp_power_dvd)
  qed
  then obtain m where m: "a * 2 ^ e' = m * 2 ^ e" by (auto elim: dvdE simp: mult.commute)
  define q where "q = n div 2 ^ e"
  have n: "n = q * 2 ^ e + n mod 2 ^ e" by (simp add: q_def div_mult_mod_eq)
  have "q \<le> m" using nm m by (metis q_def div_le_mono nonzero_mult_div_cancel_right power_not_zero zero_neq_numeral)
  moreover have "q < m" if "0 < n mod 2 ^ e"
  proof (rule ccontr)
    assume "\<not> q < m"
    then have "m * 2 ^ e \<le> q * 2 ^ e" by simp
    then show False using that n nm m by linarith
  qed
  ultimately have "q * 2 ^ e \<le> m * 2 ^ e" "0 < n mod 2 ^ e \<Longrightarrow> (q + 1) * 2 ^ e \<le> m * 2 ^ e"
    by (simp, intro mult_le_mono1, simp)
  then have "f64_round n \<le> m * 2 ^ e"
    unfolding f64_round_def Let_def e_def [symmetric] q_def [symmetric]
    by (cases "n mod 2 ^ e = 0") (simp_all split: if_splits)
  then show ?thesis using m by simp
qed

lemma ApplyJitter_bounds:
  assumes "0 \<le> c" "c \<le> 2 ^ 53" "k < 2 ^ 53"
  shows "0 \<le> ApplyJitter c k \<and> ApplyJitter c k \<le> c"
proof -
  have "f64_round (nat c) \<le> nat c * 2 ^ 0" using assms by (intro f64_round_le) auto
  then have "f64_round (nat c) * k \<le> nat c * 2 ^ 53" using assms(3) by (intro mult_le_mono) auto
  then have "f64_round (f64_round (nat c) * k) \<le> nat c * 2 ^ 53" using assms by (intro f64_round_le) auto
  then have "f64_round (f64_round (nat c) * k) div 2 ^ 53 \<le> nat c"
    by (metis div_le_mono nonzero_mult_div_cancel_right power_not_zero zero_neq_numeral)
  then show ?thesis using assms by (auto simp: ApplyJitter_def sgn_if)
qed

section \<open>The Retry-After header\<close>

text \<open>\<open>http.ParseTime\<close> is the argument \<open>parse_time\<close>; \<open>time.Time.Sub\<close> saturates at the \<open>int64\<close> range.\<close>

definition time_sub :: "time \<Rightarrow> time \<Rightarrow> duration" where
  "time_sub t u = max (- (2 ^ 63)) (min (2 ^ 63 - 1) (t - u))"

definition ParseRetryAfter :: "(string \<Rightarrow> time option) \<Rightarrow> string \<Rightarrow> time \<Rightarrow> duration option" where
  "ParseRetryAfter parse_time value now =
     (let value = trim_space value
      in if value = [] then None
         else case parse_int64 value of
           Some secs \<Rightarrow> if secs < 0 then None else Some (wrap64 (secs * ns_per_s))
         | None \<Rightarrow>
             (case parse_time value of
                Some t \<Rightarrow> (let d = time_sub t now in if d > 0 then Some d else None)
              | None \<Rightarrow> None))"

lemma jittered_range:
  assumes "0 < initial" "0 \<le> mx" "mx \<le> 2 ^ 53" "k < 2 ^ 53"
  shows "0 \<le> ApplyJitter (CalculateBackoff initial mx attempt) k"
    "ApplyJitter (CalculateBackoff initial mx attempt) k \<le> min (initial * 2 ^ nat attempt) mx"
proof -
  have c: "CalculateBackoff initial mx attempt = min (initial * 2 ^ nat attempt) mx"
    using assms backoff_loop_eq [of mx initial attempt 0] by (simp add: CalculateBackoff_def)
  have "0 \<le> initial * 2 ^ nat attempt" using assms(1) by simp
  then have "0 \<le> ApplyJitter (CalculateBackoff initial mx attempt) k \<and>
      ApplyJitter (CalculateBackoff initial mx attempt) k \<le> min (initial * 2 ^ nat attempt) mx"
    unfolding c using assms by (intro ApplyJitter_bounds) auto
  then show "0 \<le> ApplyJitter (CalculateBackoff initial mx attempt) k"
    "ApplyJitter (CalculateBackoff initial mx attempt) k \<le> min (initial * 2 ^ nat attempt) mx" by simp_all
qed

text \<open>The backoff of an attempt is exactly the initial delay doubled once per attempt and capped at
  the maximum, and the integer doubling never overflows, whatever the attempt number.\<close>

theorem CalculateBackoff_spec:
  assumes "int64 mx" and "0 < initial"
  shows "CalculateBackoff initial mx attempt = min (initial * 2 ^ nat attempt) mx"
  using assms backoff_loop_eq [of mx initial attempt 0]
  by (simp add: CalculateBackoff_def int64_def)

theorem CalculateBackoff_spec_witness:
  "CalculateBackoff ns_per_s (300 * ns_per_s) 9 = 300 * ns_per_s
   \<and> CalculateBackoff ns_per_s (300 * ns_per_s) 4 = 16 * ns_per_s"
  using CalculateBackoff_spec [of "300 * ns_per_s" ns_per_s 9]
    CalculateBackoff_spec [of "300 * ns_per_s" ns_per_s 4]
  by (simp add: int64_def)

text \<open>Full jitter draws a delay between zero and the calculated backoff, the floating-point rounding
  included, for every backoff up to \<open>2^53\<close> nanoseconds (104 days).\<close>

theorem jittered_backoff_bounds:
  assumes "0 < initial" and "0 \<le> mx" and "mx \<le> 2 ^ 53" and "k < 2 ^ 53"
  shows "0 \<le> ApplyJitter (CalculateBackoff initial mx attempt) k
    \<and> ApplyJitter (CalculateBackoff initial mx attempt) k \<le> min (initial * 2 ^ nat attempt) mx"
  using jittered_range [OF assms] by simp

theorem jittered_backoff_bounds_witness:
  "0 \<le> ApplyJitter (CalculateBackoff (2 * ns_per_s) (30 * ns_per_s) 2) 4503599627370496
   \<and> ApplyJitter (CalculateBackoff (2 * ns_per_s) (30 * ns_per_s) 2) 4503599627370496 \<le> 8 * ns_per_s"
  using jittered_backoff_bounds [of "2 * ns_per_s" "30 * ns_per_s" 4503599627370496 2] by simp

text \<open>A \<open>Retry-After\<close> header holding a decimal number of seconds whose nanosecond count fits
  \<open>int64\<close> is read back as exactly that delay, and no such header is ever taken for a date.\<close>

theorem ParseRetryAfter_seconds:
  assumes "int n * ns_per_s < 2 ^ 63"
  shows "ParseRetryAfter parse_time (show_nat n) now = Some (int n * ns_per_s)"
proof -
  have "show_nat n \<noteq> []" using show_nat_digits [of n] by simp
  moreover have "int n < 2 ^ 63" using assms by simp
  ultimately show ?thesis
    using assms by (simp add: ParseRetryAfter_def str_simps int64_def)
qed

theorem ParseRetryAfter_seconds_witness:
  "ParseRetryAfter (\<lambda>_. None) (show_nat 120) 0 = Some (120 * ns_per_s)"
  using ParseRetryAfter_seconds [of 120 "\<lambda>_. None" 0] by simp

text \<open>The product with \<open>time.Second\<close> is not checked: a header of 18446744074 seconds (584 years) is
  read as a delay of 0.29 seconds, and one of 9223372037 seconds as a negative delay.\<close>

theorem ParseRetryAfter_overflow:
  "ParseRetryAfter parse_time ''18446744074'' now = Some 290448384
   \<and> ParseRetryAfter parse_time ''9223372037'' now = Some (- 9223372036709551616)"
  by (simp add: ParseRetryAfter_def trim_space_def trim_right_def is_space_def parse_int64_def
      dec_val_def digit_val_def is_digit_def int64_def wrap64_eq)

end
