(* ===== verification/Resource_Sets.thy ===== *)
theory Resource_Sets
  imports Agent_Prelude "HOL-Library.AList"
begin

text \<open>
  \<open>internal/routing/resourceset.go\<close> and \<open>internal/routing/keylock.go\<close>.  A \<open>ResourceSet\<close> is a map from ids to
  elements of a doubly linked list: the model keeps the element pointers (numbers), the map as an
  association list and the list with the front first, so that moving and removing go through the
  pointer as in the code.  \<open>lru\<close> is what a \<open>ResourceSet\<close> promises: a bounded list of ids, most
  recently used first.  A \<open>KeyLock\<close> is a plain set used for mutual exclusion.
\<close>

section \<open>ResourceSet\<close>

record resource_set =
  rs_maxSize :: int
  rs_items :: "(string \<times> nat) list"
  rs_order :: "(nat \<times> string) list"
  rs_next :: nat

text \<open>The operations of \<open>container/list\<close> that the code uses.\<close>

definition list_remove :: "nat \<Rightarrow> (nat \<times> string) list \<Rightarrow> (nat \<times> string) list" where
  "list_remove e l = filter (\<lambda>x. fst x \<noteq> e) l"

definition list_move_to_front :: "nat \<Rightarrow> (nat \<times> string) list \<Rightarrow> (nat \<times> string) list" where
  "list_move_to_front e l = filter (\<lambda>x. fst x = e) l @ list_remove e l"

definition list_back :: "(nat \<times> string) list \<Rightarrow> (nat \<times> string) option" where
  "list_back l = (if l = [] then None else Some (last l))"

definition NewResourceSet :: "int \<Rightarrow> resource_set" where
  "NewResourceSet maxSize =
     \<lparr>rs_maxSize = (if maxSize \<le> 0 then 1 else maxSize), rs_items = [], rs_order = [], rs_next = 0\<rparr>"

text \<open>\<open>insert\<close> would panic on a nil back element: the result is then \<^const>\<open>None\<close>.\<close>

definition rs_evict :: "resource_set \<Rightarrow> resource_set option" where
  "rs_evict d =
     (if int (length (rs_items d)) \<ge> rs_maxSize d then
        case list_back (rs_order d) of
          None \<Rightarrow> None
        | Some (e, v) \<Rightarrow> Some (d\<lparr>rs_order := list_remove e (rs_order d), rs_items := AList.delete v (rs_items d)\<rparr>)
      else Some d)"

definition rs_insert :: "resource_set \<Rightarrow> string \<Rightarrow> (resource_set \<times> bool) option" where
  "rs_insert d resourceID =
     (case map_of (rs_items d) resourceID of
        Some elem \<Rightarrow> Some (d\<lparr>rs_order := list_move_to_front elem (rs_order d)\<rparr>, False)
      | None \<Rightarrow>
          (case rs_evict d of
             None \<Rightarrow> None
           | Some d \<Rightarrow>
               Some (d\<lparr>rs_order := (rs_next d, resourceID) # rs_order d,
                       rs_items := AList.update resourceID (rs_next d) (rs_items d),
                       rs_next := Suc (rs_next d)\<rparr>, True)))"

definition rs_Add :: "resource_set \<Rightarrow> string \<Rightarrow> resource_set option" where
  "rs_Add d resourceID = map_option fst (rs_insert d resourceID)"

definition rs_AddIfAbsent :: "resource_set \<Rightarrow> string \<Rightarrow> (resource_set \<times> bool) option" where
  "rs_AddIfAbsent d resourceID = rs_insert d resourceID"

definition rs_Contains :: "resource_set \<Rightarrow> string \<Rightarrow> resource_set \<times> bool" where
  "rs_Contains d resourceID =
     (case map_of (rs_items d) resourceID of
        None \<Rightarrow> (d, False)
      | Some elem \<Rightarrow> (d\<lparr>rs_order := list_move_to_front elem (rs_order d)\<rparr>, True))"

definition rs_Consume :: "resource_set \<Rightarrow> string \<Rightarrow> resource_set \<times> bool" where
  "rs_Consume d resourceID =
     (case map_of (rs_items d) resourceID of
        None \<Rightarrow> (d, False)
      | Some elem \<Rightarrow>
          (d\<lparr>rs_order := list_remove elem (rs_order d), rs_items := AList.delete resourceID (rs_items d)\<rparr>, True))"

definition rs_Remove :: "resource_set \<Rightarrow> string \<Rightarrow> resource_set" where
  "rs_Remove d resourceID =
     (case map_of (rs_items d) resourceID of
        None \<Rightarrow> d
      | Some elem \<Rightarrow>
          d\<lparr>rs_order := list_remove elem (rs_order d), rs_items := AList.delete resourceID (rs_items d)\<rparr>)"


section \<open>The contract: a bounded list of ids, most recently used first\<close>

record lru =
  lru_max :: nat
  lru_ids :: "string list"

definition lru_new :: "int \<Rightarrow> lru" where
  "lru_new maxSize = \<lparr>lru_max = (if maxSize \<le> 0 then 1 else nat maxSize), lru_ids = []\<rparr>"

definition lru_mem :: "lru \<Rightarrow> string \<Rightarrow> bool" where
  "lru_mem l x \<longleftrightarrow> x \<in> set (lru_ids l)"

definition lru_touch :: "lru \<Rightarrow> string \<Rightarrow> lru" where
  "lru_touch l x = l\<lparr>lru_ids := x # removeAll x (lru_ids l)\<rparr>"

definition lru_remove :: "lru \<Rightarrow> string \<Rightarrow> lru" where
  "lru_remove l x = l\<lparr>lru_ids := removeAll x (lru_ids l)\<rparr>"

definition lru_insert :: "lru \<Rightarrow> string \<Rightarrow> lru \<times> bool" where
  "lru_insert l x =
     (if lru_mem l x then (lru_touch l x, False)
      else if length (lru_ids l) \<ge> lru_max l then (l\<lparr>lru_ids := x # butlast (lru_ids l)\<rparr>, True)
      else (l\<lparr>lru_ids := x # lru_ids l\<rparr>, True))"

definition lru_contains :: "lru \<Rightarrow> string \<Rightarrow> lru \<times> bool" where
  "lru_contains l x = (if lru_mem l x then (lru_touch l x, True) else (l, False))"

definition lru_consume :: "lru \<Rightarrow> string \<Rightarrow> lru \<times> bool" where
  "lru_consume l x = (if lru_mem l x then (lru_remove l x, True) else (l, False))"

definition lru_inv :: "lru \<Rightarrow> bool" where
  "lru_inv l \<longleftrightarrow> 0 < lru_max l \<and> distinct (lru_ids l) \<and> length (lru_ids l) \<le> lru_max l"

section \<open>KeyLock\<close>

record key_lock =
  kl_items :: "string set"

definition NewKeyLock :: key_lock where
  "NewKeyLock = \<lparr>kl_items = {}\<rparr>"

definition kl_AddIfAbsent :: "key_lock \<Rightarrow> string \<Rightarrow> key_lock \<times> bool" where
  "kl_AddIfAbsent k resourceID =
     (if resourceID \<in> kl_items k then (k, False)
      else (k\<lparr>kl_items := insert resourceID (kl_items k)\<rparr>, True))"

definition kl_Remove :: "key_lock \<Rightarrow> string \<Rightarrow> key_lock" where
  "kl_Remove k resourceID = k\<lparr>kl_items := kl_items k - {resourceID}\<rparr>"

definition kl_Len :: "key_lock \<Rightarrow> nat" where
  "kl_Len k = card (kl_items k)"

section \<open>ResourceSet implements the contract\<close>

definition rs_abs :: "resource_set \<Rightarrow> lru" where
  "rs_abs d = \<lparr>lru_max = nat (rs_maxSize d), lru_ids = map snd (rs_order d)\<rparr>"

text \<open>The map and the list hold the same elements, no id and no pointer twice, at most \<open>maxSize\<close> of them.\<close>

definition rs_inv :: "resource_set \<Rightarrow> bool" where
  "rs_inv d \<longleftrightarrow>
     0 < rs_maxSize d \<and> distinct (map fst (rs_order d)) \<and> distinct (map snd (rs_order d)) \<and>
     distinct (map fst (rs_items d)) \<and> set (rs_items d) = prod.swap ` set (rs_order d) \<and>
     (\<forall>x \<in> set (rs_order d). fst x < rs_next d) \<and> int (length (rs_order d)) \<le> rs_maxSize d"

lemma list_remove_snd:
  "distinct (map fst l) \<Longrightarrow> distinct (map snd l) \<Longrightarrow> (e, r) \<in> set l \<Longrightarrow>
   map snd (list_remove e l) = removeAll r (map snd l)"
proof (induction l)
  case (Cons x l)
  show ?case
  proof (cases "fst x = e")
    case True
    then have "\<forall>y \<in> set l. fst y \<noteq> e" using Cons.prems by (auto simp: image_iff)
    moreover from this have "snd x = r" using Cons.prems by force
    ultimately show ?thesis using True Cons.prems by (auto simp: list_remove_def filter_id_conv)
  next
    case False
    then show ?thesis using Cons by (auto simp: list_remove_def rev_image_eqI)
  qed
qed simp

lemma list_front_single:
  "distinct (map fst l) \<Longrightarrow> (e, r) \<in> set l \<Longrightarrow> filter (\<lambda>x. fst x = e) l = [(e, r)]"
  by (induction l) (auto simp: filter_empty_conv rev_image_eqI)

lemma list_remove_sub: "set (list_remove e l) = {x \<in> set l. fst x \<noteq> e}"
  by (auto simp: list_remove_def)

lemma distinct_list_remove: "distinct (map f l) \<Longrightarrow> distinct (map f (list_remove e l))"
  by (simp add: list_remove_def distinct_map_filter)

lemma swap_mem [simp]: "(a, b) \<in> prod.swap ` S \<longleftrightarrow> (b, a) \<in> S"
  by force

lemma rs_lookup: "rs_inv d \<Longrightarrow> map_of (rs_items d) r = Some e \<longleftrightarrow> (e, r) \<in> set (rs_order d)"
  by (auto simp: rs_inv_def map_of_eq_Some_iff)

lemma rs_lookup_None: "rs_inv d \<Longrightarrow> map_of (rs_items d) r = None \<longleftrightarrow> \<not> lru_mem (rs_abs d) r"
  using rs_lookup [of d r] by (cases "map_of (rs_items d) r") (force simp: lru_mem_def rs_abs_def)+

lemma rs_length: "rs_inv d \<Longrightarrow> length (rs_items d) = length (rs_order d)"
proof -
  assume inv: "rs_inv d"
  then have "length (rs_items d) = card (set (rs_items d))" "length (rs_order d) = card (set (rs_order d))"
    by (metis rs_inv_def distinct_card distinct_map)+
  moreover have "inj_on prod.swap (set (rs_order d))" by (auto simp: inj_on_def)
  ultimately show ?thesis using inv by (simp add: rs_inv_def card_image)
qed

lemma rs_move:
  assumes "rs_inv d" "(e, r) \<in> set (rs_order d)"
  shows "rs_inv (d\<lparr>rs_order := list_move_to_front e (rs_order d)\<rparr>)"
    "rs_abs (d\<lparr>rs_order := list_move_to_front e (rs_order d)\<rparr>) = lru_touch (rs_abs d) r"
proof -
  have f: "list_move_to_front e (rs_order d) = (e, r) # list_remove e (rs_order d)"
    using assms by (simp add: list_move_to_front_def list_front_single rs_inv_def)
  have snds: "map snd (list_remove e (rs_order d)) = removeAll r (map snd (rs_order d))"
    using assms by (simp add: list_remove_snd rs_inv_def)
  have sets: "set ((e, r) # list_remove e (rs_order d)) = set (rs_order d)"
    using assms by (auto simp: list_remove_sub rs_inv_def dest: map_of_eq_Some_iff [THEN iffD2] split: if_splits)
       (metis fst_conv inj_on_eq_iff distinct_map prod.inject)
  have len: "length ((e, r) # list_remove e (rs_order d)) = length (rs_order d)"
    using assms list_front_single [of "rs_order d" e r] sum_length_filter_compl [of "\<lambda>x. fst x = e" "rs_order d"]
    by (simp add: list_remove_def rs_inv_def)
  show "rs_abs (d\<lparr>rs_order := list_move_to_front e (rs_order d)\<rparr>) = lru_touch (rs_abs d) r"
    using snds by (simp add: f rs_abs_def lru_touch_def)
  show "rs_inv (d\<lparr>rs_order := list_move_to_front e (rs_order d)\<rparr>)"
    using assms(1) sets len snds distinct_list_remove [of fst "rs_order d" e]
    unfolding rs_inv_def f by (auto simp: list_remove_sub distinct_removeAll)
qed

lemma rs_drop:
  assumes "rs_inv d" "(e, r) \<in> set (rs_order d)"
  shows "rs_inv (d\<lparr>rs_order := list_remove e (rs_order d), rs_items := AList.delete r (rs_items d)\<rparr>)"
    "rs_abs (d\<lparr>rs_order := list_remove e (rs_order d), rs_items := AList.delete r (rs_items d)\<rparr>)
     = lru_remove (rs_abs d) r"
proof -
  have snds: "map snd (list_remove e (rs_order d)) = removeAll r (map snd (rs_order d))"
    using assms by (simp add: list_remove_snd rs_inv_def)
  show "rs_abs (d\<lparr>rs_order := list_remove e (rs_order d), rs_items := AList.delete r (rs_items d)\<rparr>)
     = lru_remove (rs_abs d) r"
    using snds by (simp add: rs_abs_def lru_remove_def)
  have ptr: "fst x = e \<longleftrightarrow> snd x = r" if "x \<in> set (rs_order d)" for x
    using that assms by (metis rs_inv_def distinct_map inj_on_eq_iff fst_conv snd_conv)
  have "set (AList.delete r (rs_items d)) = prod.swap ` set (list_remove e (rs_order d))"
    using assms(1) ptr by (auto simp: rs_inv_def AList.delete_eq list_remove_sub image_iff)
  moreover have "int (length (list_remove e (rs_order d))) \<le> int (length (rs_order d))"
    by (simp add: list_remove_def)
  ultimately show "rs_inv (d\<lparr>rs_order := list_remove e (rs_order d), rs_items := AList.delete r (rs_items d)\<rparr>)"
    using assms(1) distinct_list_remove [of fst "rs_order d" e] snds
    by (auto simp: rs_inv_def list_remove_sub distinct_removeAll distinct_delete)
qed

lemma rs_evict_refines:
  assumes "rs_inv d"
  obtains d' where "rs_evict d = Some d'" "rs_inv d'" "int (length (rs_order d')) < rs_maxSize d'"
    "rs_abs d' = (if length (lru_ids (rs_abs d)) \<ge> lru_max (rs_abs d)
       then (rs_abs d)\<lparr>lru_ids := butlast (lru_ids (rs_abs d))\<rparr> else rs_abs d)"
proof (cases "int (length (rs_items d)) \<ge> rs_maxSize d")
  case False
  then have "rs_evict d = Some d" "int (length (rs_order d)) < rs_maxSize d"
    "\<not> length (lru_ids (rs_abs d)) \<ge> lru_max (rs_abs d)"
    using assms rs_length [of d] by (auto simp: rs_evict_def rs_abs_def)
  then show ?thesis using assms that by simp
next
  case True
  then have full: "int (length (rs_order d)) = rs_maxSize d" "rs_order d \<noteq> []"
    using assms rs_length [of d] by (auto simp: rs_inv_def)
  obtain e v where last: "last (rs_order d) = (e, v)" by fastforce
  then have mem: "(e, v) \<in> set (rs_order d)" using full(2) by (metis last_in_set)
  let ?d = "d\<lparr>rs_order := list_remove e (rs_order d), rs_items := AList.delete v (rs_items d)\<rparr>"
  have ev: "rs_evict d = Some ?d" using True full(2) last by (simp add: rs_evict_def list_back_def)
  obtain xs where xs: "map snd (rs_order d) = xs @ [v]" "distinct (xs @ [v])"
    using full(2) last assms
    by (metis append_butlast_last_id list.map_disc_iff last_map rs_inv_def snd_conv)
  have "removeAll v (xs @ [v]) = butlast (xs @ [v])" using xs(2) by (simp add: removeAll_id)
  then have ids: "removeAll v (map snd (rs_order d)) = butlast (map snd (rs_order d))" using xs(1) by simp
  have "length (map snd (rs_order ?d)) = length (removeAll v (map snd (rs_order d)))"
    using rs_drop(2) [OF assms mem] by (simp add: rs_abs_def lru_remove_def)
  then have "int (length (rs_order ?d)) < rs_maxSize ?d" using full ids by (simp add: Suc_le_eq)
  moreover have "rs_abs ?d = (rs_abs d)\<lparr>lru_ids := butlast (lru_ids (rs_abs d))\<rparr>"
    using rs_drop(2) [OF assms mem] ids by (simp add: lru_remove_def rs_abs_def)
  moreover have "length (lru_ids (rs_abs d)) \<ge> lru_max (rs_abs d)" using full by (simp add: rs_abs_def)
  ultimately show ?thesis using that ev rs_drop(1) [OF assms mem] by simp
qed

lemma update_fresh: "k \<notin> fst ` set al \<Longrightarrow> AList.update k v al = al @ [(k, v)]"
  by (induction al) auto

lemma rs_insert_refines:
  assumes "rs_inv d"
  shows "\<exists>d' b. rs_insert d r = Some (d', b) \<and> rs_inv d' \<and> lru_insert (rs_abs d) r = (rs_abs d', b)"
proof (cases "map_of (rs_items d) r")
  case (Some e)
  then have mem: "(e, r) \<in> set (rs_order d)" using rs_lookup [OF assms] by simp
  then have "lru_mem (rs_abs d) r" using rs_lookup_None [OF assms, of r] Some by simp
  then show ?thesis using Some rs_move [OF assms mem] by (auto simp: rs_insert_def lru_insert_def)
next
  case None
  then have nm: "\<not> lru_mem (rs_abs d) r" using rs_lookup_None [OF assms] by simp
  obtain d' where d': "rs_evict d = Some d'" "rs_inv d'" "int (length (rs_order d')) < rs_maxSize d'"
    "rs_abs d' = (if length (lru_ids (rs_abs d)) \<ge> lru_max (rs_abs d)
       then (rs_abs d)\<lparr>lru_ids := butlast (lru_ids (rs_abs d))\<rparr> else rs_abs d)"
    using rs_evict_refines [OF assms] by metis
  have nm': "\<not> lru_mem (rs_abs d') r" using nm d'(4) by (auto simp: lru_mem_def dest: in_set_butlastD)
  then have fresh: "r \<notin> snd ` set (rs_order d')" "map_of (rs_items d') r = None"
    using rs_lookup_None [OF d'(2)] by (auto simp: lru_mem_def rs_abs_def)
  let ?d = "d'\<lparr>rs_order := (rs_next d', r) # rs_order d',
      rs_items := AList.update r (rs_next d') (rs_items d'), rs_next := Suc (rs_next d')\<rparr>"
  have "AList.update r (rs_next d') (rs_items d') = rs_items d' @ [(r, rs_next d')]"
    using fresh(2) by (simp add: update_fresh map_of_eq_None_iff)
  moreover have "r \<notin> fst ` set (rs_items d')" using fresh(2) by (simp add: map_of_eq_None_iff)
  ultimately have "rs_inv ?d"
    using d'(2,3) fresh(1) by (auto simp: rs_inv_def less_Suc_eq)
  moreover have "lru_insert (rs_abs d) r = (rs_abs ?d, True)"
    using nm d'(4) by (auto simp: lru_insert_def rs_abs_def split: if_splits)
  ultimately show ?thesis using None d'(1) by (auto simp: rs_insert_def)
qed

lemma rs_Contains_refines:
  assumes "rs_inv d"
  shows "rs_inv (fst (rs_Contains d r)) \<and>
    lru_contains (rs_abs d) r = (rs_abs (fst (rs_Contains d r)), snd (rs_Contains d r))"
proof (cases "map_of (rs_items d) r")
  case None
  then show ?thesis using assms rs_lookup_None [OF assms, of r]
    by (simp add: rs_Contains_def lru_contains_def)
next
  case (Some e)
  then have "(e, r) \<in> set (rs_order d)" using rs_lookup [OF assms] by simp
  from Some rs_move [OF assms this] show ?thesis using rs_lookup_None [OF assms, of r]
    by (simp add: rs_Contains_def lru_contains_def)
qed

lemma rs_Consume_refines:
  assumes "rs_inv d"
  shows "rs_inv (fst (rs_Consume d r)) \<and>
    lru_consume (rs_abs d) r = (rs_abs (fst (rs_Consume d r)), snd (rs_Consume d r))"
proof (cases "map_of (rs_items d) r")
  case None
  then show ?thesis using assms rs_lookup_None [OF assms, of r]
    by (simp add: rs_Consume_def lru_consume_def)
next
  case (Some e)
  then have "(e, r) \<in> set (rs_order d)" using rs_lookup [OF assms] by simp
  from Some rs_drop [OF assms this] show ?thesis using rs_lookup_None [OF assms, of r]
    by (simp add: rs_Consume_def lru_consume_def)
qed

lemma rs_Remove_refines:
  assumes "rs_inv d"
  shows "rs_inv (rs_Remove d r) \<and> rs_abs (rs_Remove d r) = lru_remove (rs_abs d) r"
proof (cases "map_of (rs_items d) r")
  case None
  then have "r \<notin> set (lru_ids (rs_abs d))" using rs_lookup_None [OF assms, of r] by (simp add: lru_mem_def)
  then show ?thesis using assms None by (simp add: rs_Remove_def lru_remove_def removeAll_id)
next
  case (Some e)
  then have "(e, r) \<in> set (rs_order d)" using rs_lookup [OF assms] by simp
  from Some rs_drop [OF assms this] show ?thesis by (simp add: rs_Remove_def)
qed

lemma NewResourceSet_refines: "rs_inv (NewResourceSet n) \<and> rs_abs (NewResourceSet n) = lru_new n"
  by (simp add: NewResourceSet_def rs_inv_def rs_abs_def lru_new_def)

subsection \<open>Runs\<close>

datatype rs_op = OpAdd string | OpAddIfAbsent string | OpContains string | OpConsume string | OpRemove string

fun rs_step :: "resource_set \<Rightarrow> rs_op \<Rightarrow> resource_set option" where
  "rs_step d (OpAdd r) = rs_Add d r"
| "rs_step d (OpAddIfAbsent r) = map_option fst (rs_AddIfAbsent d r)"
| "rs_step d (OpContains r) = Some (fst (rs_Contains d r))"
| "rs_step d (OpConsume r) = Some (fst (rs_Consume d r))"
| "rs_step d (OpRemove r) = Some (rs_Remove d r)"

fun lru_step :: "lru \<Rightarrow> rs_op \<Rightarrow> lru" where
  "lru_step l (OpAdd r) = fst (lru_insert l r)"
| "lru_step l (OpAddIfAbsent r) = fst (lru_insert l r)"
| "lru_step l (OpContains r) = fst (lru_contains l r)"
| "lru_step l (OpConsume r) = fst (lru_consume l r)"
| "lru_step l (OpRemove r) = lru_remove l r"

fun rs_run :: "resource_set \<Rightarrow> rs_op list \<Rightarrow> resource_set option" where
  "rs_run d [] = Some d"
| "rs_run d (x # xs) = Option.bind (rs_step d x) (\<lambda>d. rs_run d xs)"

lemma rs_step_refines:
  assumes "rs_inv d"
  shows "\<exists>d'. rs_step d x = Some d' \<and> rs_inv d' \<and> rs_abs d' = lru_step (rs_abs d) x"
proof (cases x)
  case (OpAdd r)
  then show ?thesis using rs_insert_refines [OF assms, of r] by (auto simp: rs_Add_def)
next
  case (OpAddIfAbsent r)
  then show ?thesis using rs_insert_refines [OF assms, of r] by (auto simp: rs_AddIfAbsent_def)
next
  case (OpContains r)
  then show ?thesis using rs_Contains_refines [OF assms, of r] by simp
next
  case (OpConsume r)
  then show ?thesis using rs_Consume_refines [OF assms, of r] by simp
next
  case (OpRemove r)
  then show ?thesis using rs_Remove_refines [OF assms, of r] by simp
qed

lemma rs_run_refines:
  "rs_inv d \<Longrightarrow> \<exists>d'. rs_run d xs = Some d' \<and> rs_inv d' \<and> rs_abs d' = foldl lru_step (rs_abs d) xs"
proof (induction xs arbitrary: d)
  case (Cons x xs)
  from rs_step_refines [OF Cons.prems, of x] Cons.IH show ?case by force
qed simp


section \<open>Facts on the contract that the clients use\<close>

lemma lru_mem_insert: "lru_mem (fst (lru_insert l x)) x"
  by (simp add: lru_insert_def lru_mem_def lru_touch_def)

lemma lru_insert_new: "snd (lru_insert l x) \<longleftrightarrow> \<not> lru_mem l x"
  by (simp add: lru_insert_def)

lemma lru_mem_remove: "lru_mem (lru_remove l x) y \<longleftrightarrow> y \<noteq> x \<and> lru_mem l y"
  by (auto simp: lru_remove_def lru_mem_def)

lemma lru_mem_contains: "lru_mem (fst (lru_contains l x)) y \<longleftrightarrow> lru_mem l y"
  by (auto simp: lru_contains_def lru_mem_def lru_touch_def)

lemma lru_contains_res: "snd (lru_contains l x) \<longleftrightarrow> lru_mem l x"
  by (simp add: lru_contains_def)

lemma lru_mem_consume: "lru_mem (fst (lru_consume l x)) y \<longleftrightarrow> y \<noteq> x \<and> lru_mem l y"
  by (auto simp: lru_consume_def lru_mem_def lru_remove_def)

lemma lru_consume_res: "snd (lru_consume l x) \<longleftrightarrow> lru_mem l x"
  by (simp add: lru_consume_def)

lemma lru_insert_sub: "lru_mem (fst (lru_insert l x)) y \<Longrightarrow> y = x \<or> lru_mem l y"
  by (auto simp: lru_insert_def lru_mem_def lru_touch_def dest: in_set_butlastD split: if_splits)

lemma lru_insert_room: "length (lru_ids l) < lru_max l \<Longrightarrow>
  lru_mem (fst (lru_insert l x)) y \<longleftrightarrow> y = x \<or> lru_mem l y"
  by (auto simp: lru_insert_def lru_mem_def lru_touch_def)

lemmas lru_facts = lru_mem_insert lru_insert_new lru_mem_remove lru_mem_contains lru_contains_res
  lru_mem_consume lru_consume_res

lemma lru_step_inv: "lru_inv l \<Longrightarrow> lru_inv (lru_step l x)"
proof -
  assume inv: "lru_inv l"
  have touch: "lru_inv (lru_touch l r)" if "lru_mem l r" for r
    using inv that length_removeAll_less [of r "lru_ids l"]
    by (auto simp: lru_inv_def lru_touch_def lru_mem_def distinct_removeAll)
  have rem: "lru_inv (lru_remove l r)" for r
    using inv by (auto simp: lru_inv_def lru_remove_def distinct_removeAll
        intro: le_trans [OF length_removeAll_less_eq])
  have ins: "lru_inv (fst (lru_insert l r))" for r
    using inv touch by (auto simp: lru_insert_def lru_inv_def lru_mem_def distinct_butlast dest: in_set_butlastD)
  show ?thesis using inv touch rem ins by (cases x) (auto simp: lru_contains_def lru_consume_def)
qed

subsection \<open>Recency\<close>

text \<open>The ids that an operation may move to the front.\<close>

primrec rs_op_uses :: "rs_op \<Rightarrow> string set" where
  "rs_op_uses (OpAdd r) = {r}"
| "rs_op_uses (OpAddIfAbsent r) = {r}"
| "rs_op_uses (OpContains r) = {r}"
| "rs_op_uses (OpConsume r) = {}"
| "rs_op_uses (OpRemove r) = {}"

lemma finite_rs_op_uses [simp]: "finite (rs_op_uses op)"
  by (cases op) simp_all

definition lru_ahead :: "lru \<Rightarrow> string \<Rightarrow> string list" where
  "lru_ahead l x = takeWhile (\<lambda>y. y \<noteq> x) (lru_ids l)"

lemma ahead_removeAll: "y \<noteq> x \<Longrightarrow>
  takeWhile (\<lambda>z. z \<noteq> x) (removeAll y zs) = removeAll y (takeWhile (\<lambda>z. z \<noteq> x) zs)"
proof (induction zs)
  case (Cons a zs)
  then show ?case by (cases "a = x"; cases "a = y") simp_all
qed simp

lemma ahead_butlast: "x \<in> set (butlast zs) \<Longrightarrow>
  takeWhile (\<lambda>z. z \<noteq> x) (butlast zs) = takeWhile (\<lambda>z. z \<noteq> x) zs"
  by (induction zs) auto

lemma ahead_touch: "set (lru_ahead (lru_touch l y) x) \<subseteq> insert y (set (lru_ahead l x)) - {x}"
  by (cases "y = x") (auto simp: lru_ahead_def lru_touch_def ahead_removeAll dest: set_takeWhileD)

lemma ahead_last:
  assumes "distinct zs" "x \<in> set zs" "x \<notin> set (butlast zs)"
  shows "length zs = Suc (card (set (takeWhile (\<lambda>z. z \<noteq> x) zs)))"
proof -
  obtain ys where zs: "zs = ys @ [x]"
    using assms(2,3) by (cases zs rule: rev_cases) auto
  then have "takeWhile (\<lambda>z. z \<noteq> x) zs = ys" using assms(1) by (subst zs, subst takeWhile_append2) auto
  then show ?thesis using zs assms(1) by (simp add: distinct_card)
qed

lemma lru_insert_retains:
  assumes inv: "lru_inv l" and mem: "lru_mem l x" and S: "set (lru_ahead l x) \<subseteq> S" "finite S"
    and c: "card (insert y S - {x}) < lru_max l"
  shows "lru_mem (fst (lru_insert l y)) x \<and> set (lru_ahead (fst (lru_insert l y)) x) \<subseteq> insert y S - {x}"
proof (cases "lru_mem l y")
  case True
  then show ?thesis using mem S(1) ahead_touch [of l y x]
    by (auto simp: lru_insert_def lru_mem_def lru_touch_def)
next
  case new: False
  then have yx: "y \<noteq> x" using mem by auto
  show ?thesis
  proof (cases "length (lru_ids l) \<ge> lru_max l")
    case False
    then show ?thesis using mem S(1) yx new
      by (auto simp: lru_insert_def lru_mem_def lru_ahead_def dest: set_takeWhileD)
  next
    case full: True
    have "x \<in> set (butlast (lru_ids l))"
    proof (rule ccontr)
      assume "x \<notin> set (butlast (lru_ids l))"
      then have len: "length (lru_ids l) = Suc (card (set (lru_ahead l x)))"
        using ahead_last [of "lru_ids l" x] inv mem by (simp add: lru_inv_def lru_mem_def lru_ahead_def)
      have "insert y (set (lru_ahead l x)) \<subseteq> insert y S - {x}" and "y \<notin> set (lru_ahead l x)"
        using S(1) yx new by (auto simp: lru_ahead_def lru_mem_def dest: set_takeWhileD)
      then have "Suc (card (set (lru_ahead l x))) \<le> card (insert y S - {x})"
        using card_mono [of "insert y S - {x}" "insert y (set (lru_ahead l x))"] S(2) by simp
      then show False using c len full by simp
    qed
    then show ?thesis using full S(1) yx new
      by (auto simp: lru_insert_def lru_mem_def lru_ahead_def ahead_butlast dest: set_takeWhileD)
  qed
qed

lemma lru_step_retains:
  assumes "lru_inv l" "lru_mem l x" "set (lru_ahead l x) \<subseteq> S" "finite S"
    and "op \<noteq> OpConsume x" "op \<noteq> OpRemove x" and "card ((rs_op_uses op \<union> S) - {x}) < lru_max l"
  shows "lru_mem (lru_step l op) x \<and> set (lru_ahead (lru_step l op) x) \<subseteq> (rs_op_uses op \<union> S) - {x}"
proof -
  have rem: "lru_mem (lru_remove l y) x \<and> set (lru_ahead (lru_remove l y) x) \<subseteq> S - {x}" if "y \<noteq> x" for y
    using that assms(2,3)
    by (auto simp: lru_remove_def lru_mem_def lru_ahead_def ahead_removeAll dest: set_takeWhileD)
  have touch: "lru_mem (lru_touch l y) x" "set (lru_ahead (lru_touch l y) x) \<subseteq> insert y S - {x}" for y
    using assms(2,3) ahead_touch [of l y x] by (auto simp: lru_mem_def lru_touch_def)
  have keep: "set (lru_ahead l x) \<subseteq> S - {x}" using assms(3) by (auto simp: lru_ahead_def dest: set_takeWhileD)
  show ?thesis
    using lru_insert_retains [OF assms(1-4)] rem touch assms keep
    by (cases op) (auto simp: lru_contains_def lru_consume_def)
qed

lemma lru_run_retains:
  "lru_inv l \<Longrightarrow> lru_mem l x \<Longrightarrow> set (lru_ahead l x) \<subseteq> S \<Longrightarrow> finite S \<Longrightarrow>
   OpConsume x \<notin> set ops \<Longrightarrow> OpRemove x \<notin> set ops \<Longrightarrow>
   card ((S \<union> \<Union> (rs_op_uses ` set ops)) - {x}) < lru_max l \<Longrightarrow> lru_mem (foldl lru_step l ops) x"
proof (induction ops arbitrary: l S)
  case (Cons op ops)
  let ?S = "(rs_op_uses op \<union> S) - {x}"
  have un: "(?S \<union> \<Union> (rs_op_uses ` set ops)) - {x} = (S \<union> \<Union> (rs_op_uses ` set (op # ops))) - {x}" by auto
  have "card ?S \<le> card ((S \<union> \<Union> (rs_op_uses ` set (op # ops))) - {x})"
    using Cons.prems(4) by (intro card_mono) auto
  then have step: "lru_mem (lru_step l op) x" "set (lru_ahead (lru_step l op) x) \<subseteq> ?S"
    using lru_step_retains [of l x S op] Cons.prems by auto
  have "lru_max (lru_step l op) = lru_max l"
    by (cases op) (auto simp: lru_insert_def lru_contains_def lru_consume_def lru_remove_def lru_touch_def)
  then show ?case
    using Cons.IH [OF lru_step_inv [OF Cons.prems(1)] step, of] Cons.prems un by simp
qed simp

lemma rs_inv_lru: "rs_inv d \<Longrightarrow> lru_inv (rs_abs d)"
  by (auto simp: rs_inv_def lru_inv_def rs_abs_def)

text \<open>An id put into a \<open>ResourceSet\<close> is still there after any further operations that do not remove it
  and that use fewer than \<open>maxSize\<close> other ids: eviction only ever takes an id that at least
  \<open>maxSize\<close> others have been used more recently than.\<close>

theorem ResourceSet_retains:
  assumes "rs_inv d" and "OpConsume x \<notin> set ops" and "OpRemove x \<notin> set ops"
    and "int (card (\<Union> (rs_op_uses ` set ops) - {x})) < rs_maxSize d"
  shows "\<exists>d'. rs_run d (OpAdd x # ops) = Some d' \<and> snd (rs_Contains d' x)"
proof -
  obtain d' where d': "rs_run d (OpAdd x # ops) = Some d'" "rs_inv d'"
    "rs_abs d' = foldl lru_step (rs_abs d) (OpAdd x # ops)"
    using rs_run_refines [OF assms(1)] by blast
  let ?l = "fst (lru_insert (rs_abs d) x)"
  have "lru_inv ?l" using lru_step_inv [OF rs_inv_lru [OF assms(1)], of "OpAdd x"] by simp
  moreover have "set (lru_ahead ?l x) \<subseteq> {}" by (simp add: lru_ahead_def lru_insert_def lru_touch_def)
  moreover have "lru_max ?l = nat (rs_maxSize d)"
    by (simp add: lru_insert_def lru_touch_def rs_abs_def)
  ultimately have "lru_mem (foldl lru_step ?l ops) x"
    using lru_run_retains [of ?l x "{}" ops] lru_mem_insert assms by simp
  then show ?thesis using d' rs_Contains_refines [OF d'(2), of x] by (auto simp: lru_contains_def)
qed

theorem ResourceSet_retains_witness:
  "\<exists>d'. rs_run (NewResourceSet 2) [OpAdd ''a'', OpAdd ''b'', OpContains ''b''] = Some d'
     \<and> snd (rs_Contains d' ''a'')"
  using ResourceSet_retains [of "NewResourceSet 2" "''a''" "[OpAdd ''b'', OpContains ''b'']"]
  by (simp add: NewResourceSet_refines) (simp add: NewResourceSet_def)

section \<open>The lock contract\<close>

text \<open>What a forward path relies on: acquiring succeeds exactly when the key is free, and nothing but the
  holder's release frees a key.\<close>

locale keyed_lock =
  fixes acquire :: "'l \<Rightarrow> 'k \<Rightarrow> 'l \<times> bool" and release :: "'l \<Rightarrow> 'k \<Rightarrow> 'l" and held :: "'l \<Rightarrow> 'k set"
  assumes acquire_result: "snd (acquire l k) \<longleftrightarrow> k \<notin> held l"
    and acquire_held: "held (fst (acquire l k)) = insert k (held l)"
    and release_held: "held (release l k) = held l - {k}"
begin

lemma bracket: "snd (acquire l k) \<Longrightarrow> held (release (fst (acquire l k)) k) = held l"
  by (auto simp: acquire_result acquire_held release_held)

lemma second_acquire_fails: "\<not> snd (acquire (fst (acquire l k)) k)"
  by (simp add: acquire_result acquire_held)

lemma other_keys_free: "j \<noteq> k \<Longrightarrow> snd (acquire (fst (acquire l k)) j) \<longleftrightarrow> snd (acquire l j)"
  by (simp add: acquire_result acquire_held)

end

interpretation kl: keyed_lock kl_AddIfAbsent kl_Remove kl_items
  by unfold_locales (auto simp: kl_AddIfAbsent_def kl_Remove_def)

end
