(* ===== verification/Agent_Regex.thy ===== *)
theory Agent_Regex
  imports Agent_Prelude
begin

text \<open>
  The fragment of Go's \<open>regexp\<close> syntax that the agent uses, with its language and a matcher by derivatives.
  Every pattern of the sources is anchored at both ends (\<open>^...$\<close>), so \<open>MatchString\<close> asks whether the whole
  string belongs to the language.
\<close>

datatype regex =
    RZero
  | REps
  | RClass "(char \<times> char) list"
  | RSeq regex regex
  | RAlt regex regex
  | RStar regex

definition in_class :: "(char \<times> char) list \<Rightarrow> char \<Rightarrow> bool" where
  "in_class C c \<longleftrightarrow>
     list_ex (\<lambda>(lo, hi). (of_char lo :: nat) \<le> of_char c \<and> (of_char c :: nat) \<le> of_char hi) C"

fun re_lit :: "string \<Rightarrow> regex" where
  "re_lit [] = REps"
| "re_lit (c # cs) = RSeq (RClass [(c, c)]) (re_lit cs)"

definition re_opt :: "regex \<Rightarrow> regex" where
  "re_opt r = RAlt REps r"

definition re_plus :: "regex \<Rightarrow> regex" where
  "re_plus r = RSeq r (RStar r)"

fun re_upto :: "regex \<Rightarrow> nat \<Rightarrow> regex" where
  "re_upto r 0 = REps"
| "re_upto r (Suc n) = re_opt (RSeq r (re_upto r n))"

section \<open>The matcher\<close>

fun nullable :: "regex \<Rightarrow> bool" where
  "nullable RZero = False"
| "nullable REps = True"
| "nullable (RClass C) = False"
| "nullable (RSeq r s) = (nullable r \<and> nullable s)"
| "nullable (RAlt r s) = (nullable r \<or> nullable s)"
| "nullable (RStar r) = True"

fun deriv :: "char \<Rightarrow> regex \<Rightarrow> regex" where
  "deriv c RZero = RZero"
| "deriv c REps = RZero"
| "deriv c (RClass C) = (if in_class C c then REps else RZero)"
| "deriv c (RSeq r s) =
     (if nullable r then RAlt (RSeq (deriv c r) s) (deriv c s) else RSeq (deriv c r) s)"
| "deriv c (RAlt r s) = RAlt (deriv c r) (deriv c s)"
| "deriv c (RStar r) = RSeq (deriv c r) (RStar r)"

definition re_match :: "regex \<Rightarrow> string \<Rightarrow> bool" where
  "re_match r s = nullable (foldl (\<lambda>r c. deriv c r) r s)"

section \<open>The language of a pattern\<close>

inductive_set star :: "string set \<Rightarrow> string set" for L where
  star_Nil: "[] \<in> star L"
| star_app: "u \<in> L \<Longrightarrow> v \<in> star L \<Longrightarrow> u @ v \<in> star L"

fun lang :: "regex \<Rightarrow> string set" where
  "lang RZero = {}"
| "lang REps = {[]}"
| "lang (RClass C) = {[c] | c. in_class C c}"
| "lang (RSeq r s) = {u @ v | u v. u \<in> lang r \<and> v \<in> lang s}"
| "lang (RAlt r s) = lang r \<union> lang s"
| "lang (RStar r) = star (lang r)"

lemma nullable_lang: "nullable r \<longleftrightarrow> [] \<in> lang r"
  by (induction r) (auto intro: star_Nil)

lemma star_Cons: "c # w \<in> star L \<longleftrightarrow> (\<exists>u v. w = u @ v \<and> c # u \<in> L \<and> v \<in> star L)"
proof
  assume "c # w \<in> star L"
  then show "\<exists>u v. w = u @ v \<and> c # u \<in> L \<and> v \<in> star L"
  proof (induction "c # w" arbitrary: w rule: star.induct)
    case (star_app u v)
    then show ?case by (cases u) auto
  qed
next
  assume "\<exists>u v. w = u @ v \<and> c # u \<in> L \<and> v \<in> star L"
  then obtain u v where "w = u @ v" "c # u \<in> L" "v \<in> star L" by blast
  then show "c # w \<in> star L" using star_app [of "c # u" L v] by simp
qed

lemma Seq_Cons:
  "c # w \<in> lang (RSeq r s) \<longleftrightarrow>
     ([] \<in> lang r \<and> c # w \<in> lang s) \<or> (\<exists>u v. w = u @ v \<and> c # u \<in> lang r \<and> v \<in> lang s)"
proof -
  have "c # w \<in> lang (RSeq r s) \<longleftrightarrow> (\<exists>u v. c # w = u @ v \<and> u \<in> lang r \<and> v \<in> lang s)" by simp
  also have "\<dots> \<longleftrightarrow> ([] \<in> lang r \<and> c # w \<in> lang s) \<or> (\<exists>u v. w = u @ v \<and> c # u \<in> lang r \<and> v \<in> lang s)"
    (is "?l \<longleftrightarrow> ?a \<or> ?b")
  proof
    assume ?l
    then obtain u v where uv: "c # w = u @ v" "u \<in> lang r" "v \<in> lang s" by blast
    show "?a \<or> ?b"
    proof (cases u)
      case Nil
      then show ?thesis using uv by simp
    next
      case (Cons d u')
      then show ?thesis using uv by auto
    qed
  next
    assume "?a \<or> ?b"
    then show ?l by (metis append_Cons append_Nil)
  qed
  finally show ?thesis .
qed

lemma deriv_lang: "w \<in> lang (deriv c r) \<longleftrightarrow> c # w \<in> lang r"
proof (induction r arbitrary: w)
  case (RSeq r s)
  have "w \<in> lang (RSeq (deriv c r) s) \<longleftrightarrow> (\<exists>u v. w = u @ v \<and> c # u \<in> lang r \<and> v \<in> lang s)"
    by (simp add: RSeq.IH)
  moreover have "w \<in> lang (deriv c (RSeq r s)) \<longleftrightarrow>
      (nullable r \<and> w \<in> lang (deriv c s)) \<or> w \<in> lang (RSeq (deriv c r) s)"
    by auto
  ultimately show ?case by (simp only: Seq_Cons RSeq.IH(2) nullable_lang)
next
  case (RStar r)
  then show ?case by (simp add: star_Cons)
qed auto

theorem re_match_lang: "re_match r s \<longleftrightarrow> s \<in> lang r"
proof -
  have "nullable (foldl (\<lambda>r c. deriv c r) r s) \<longleftrightarrow> s \<in> lang r"
    by (induction s arbitrary: r) (auto simp: nullable_lang deriv_lang)
  then show ?thesis by (simp add: re_match_def)
qed

section \<open>Languages of the derived forms\<close>

lemma lang_opt [simp]: "lang (re_opt r) = insert [] (lang r)"
  by (simp add: re_opt_def)

lemma lang_lit [simp]: "lang (re_lit s) = {s}"
proof (induction s)
  case (Cons c s)
  have eq: "of_char d = (of_char c :: nat) \<longleftrightarrow> d = c" for d :: char by simp
  have "in_class [(c, c)] d \<longleftrightarrow> of_char d = (of_char c :: nat)" for d
    by (auto simp: in_class_def simp del: of_char_eq_iff)
  then have "lang (RClass [(c, c)]) = {[c]}" by (simp add: eq)
  then show ?case using Cons by simp
qed simp

lemma lang_star_class: "w \<in> lang (RStar (RClass C)) \<longleftrightarrow> list_all (in_class C) w"
proof (induction w)
  case Nil
  then show ?case by (simp add: star_Nil)
next
  case (Cons c w)
  then show ?case by (auto simp: star_Cons)
qed

lemma lang_plus_class: "w \<in> lang (re_plus (RClass C)) \<longleftrightarrow> w \<noteq> [] \<and> list_all (in_class C) w"
proof (cases w)
  case (Cons c v)
  have "w \<in> lang (re_plus (RClass C)) \<longleftrightarrow> in_class C c \<and> v \<in> lang (RStar (RClass C))"
    unfolding re_plus_def Cons Seq_Cons by auto
  then show ?thesis using lang_star_class [of v C] Cons by simp
qed (auto simp: re_plus_def)

lemma lang_upto_class: "w \<in> lang (re_upto (RClass C) n) \<longleftrightarrow> length w \<le> n \<and> list_all (in_class C) w"
proof (induction n arbitrary: w)
  case (Suc n)
  show ?case
  proof (cases w)
    case (Cons c v)
    have "w \<in> lang (re_upto (RClass C) (Suc n)) \<longleftrightarrow> w \<in> lang (RSeq (RClass C) (re_upto (RClass C) n))"
      using Cons by simp
    also have "\<dots> \<longleftrightarrow> in_class C c \<and> v \<in> lang (re_upto (RClass C) n)"
      unfolding Cons Seq_Cons by auto
    finally show ?thesis using Suc [of v] Cons by (auto simp del: lang.simps re_upto.simps)
  qed simp
qed auto

end
