(* ===== verification/Registry.thy ===== *)
theory Registry
  imports Agent_Regex
begin

text \<open>
  \<open>internal/provider/provider.go\<close> and \<open>internal/provider/health_state.go\<close>: the validators of a registration,
  the registry of service-type slots and the in-memory health tracker.  The locks of the two structs
  make every method atomic, so a method is one function on the state.
\<close>

section \<open>Validators\<close>

datatype validation_error =
    MustNotBeEmpty
  | IDEmpty
  | IDTooLong
  | IDHyphenAtEnd
  | IDBadCharacters
  | SchemaVersionEmpty
  | SchemaVersionFormat
  | MalformedURI
  | BadScheme
  | MissingHost
  | HasQuery
  | HasFragment

definition providerIDRegex :: regex where
  "providerIDRegex =
     (let alnum = [(CHR ''a'', CHR ''z''), (CHR ''0'', CHR ''9'')];
          inner = alnum @ [(CHR ''-'', CHR ''-'')]
      in RSeq (RClass alnum) (re_opt (RSeq (re_upto (RClass inner) 61) (RClass alnum))))"

definition schemaVersionRegex :: regex where
  "schemaVersionRegex =
     (let digit = RClass [(CHR ''0'', CHR ''9'')]
      in RSeq (re_lit ''v'') (RSeq (re_plus digit)
           (RSeq (re_opt (RAlt (re_lit ''alpha'') (re_lit ''beta''))) (RStar digit))))"

definition ValidateName :: "string \<Rightarrow> validation_error option" where
  "ValidateName name = (if trim_space name = '''' then Some MustNotBeEmpty else None)"

definition ValidateServiceType :: "string \<Rightarrow> validation_error option" where
  "ValidateServiceType serviceType = (if trim_space serviceType = '''' then Some MustNotBeEmpty else None)"

definition ValidateProviderID :: "string \<Rightarrow> validation_error option" where
  "ValidateProviderID i =
     (if i = '''' then Some IDEmpty
      else if length i > 63 then Some IDTooLong
      else if hd i = CHR ''-'' \<or> last i = CHR ''-'' then Some IDHyphenAtEnd
      else if \<not> re_match providerIDRegex i then Some IDBadCharacters
      else None)"

definition ValidateSchemaVersion :: "string \<Rightarrow> validation_error option" where
  "ValidateSchemaVersion version =
     (if version = '''' then Some SchemaVersionEmpty
      else if \<not> re_match schemaVersionRegex version then Some SchemaVersionFormat
      else None)"

text \<open>The parts of a \<open>url.URL\<close> the agent reads; \<open>url.Parse\<close> itself is an argument.\<close>

record url =
  u_scheme :: string
  u_host :: string
  u_rawquery :: string
  u_fragment :: string

definition ValidateEndpoint :: "(string \<Rightarrow> url option) \<Rightarrow> string \<Rightarrow> validation_error option" where
  "ValidateEndpoint url_Parse endpoint =
     (case url_Parse endpoint of
        None \<Rightarrow> Some MalformedURI
      | Some u \<Rightarrow>
          if u_scheme u \<noteq> ''http'' \<and> u_scheme u \<noteq> ''https'' then Some BadScheme
          else if u_host u = '''' then Some MissingHost
          else if u_rawquery u \<noteq> '''' then Some HasQuery
          else if u_fragment u \<noteq> '''' then Some HasFragment
          else None)"

section \<open>Service-type slots\<close>

record registry =
  slots :: "string \<rightharpoonup> string"

datatype registry_error =
    AlreadyServed string string \<comment> \<open>service type, holder\<close>
  | HeldByOther string string string \<comment> \<open>service type, holder, claimant\<close>

definition NewRegistry :: registry where
  "NewRegistry = \<lparr>slots = Map.empty\<rparr>"

definition Claim :: "registry \<Rightarrow> string \<Rightarrow> string \<Rightarrow> registry \<times> registry_error option" where
  "Claim r providerName serviceType =
     (case slots r serviceType of
        Some holder \<Rightarrow>
          if holder \<noteq> providerName then (r, Some (AlreadyServed serviceType holder))
          else (r\<lparr>slots := (slots r)(serviceType \<mapsto> providerName)\<rparr>, None)
      | None \<Rightarrow> (r\<lparr>slots := (slots r)(serviceType \<mapsto> providerName)\<rparr>, None))"

definition held_by_other :: "registry \<Rightarrow> string \<Rightarrow> string \<Rightarrow> string option" where
  "held_by_other r providerName serviceType =
     (case slots r serviceType of
        Some holder \<Rightarrow> if holder \<noteq> providerName then Some holder else None
      | None \<Rightarrow> None)"

definition Move :: "registry \<Rightarrow> string \<Rightarrow> string \<Rightarrow> string \<Rightarrow> registry \<times> registry_error option" where
  "Move r providerName oldType newType =
     (case held_by_other r providerName newType of
        Some holder \<Rightarrow> (r, Some (AlreadyServed newType holder))
      | None \<Rightarrow>
          (case held_by_other r providerName oldType of
             Some holder \<Rightarrow> (r, Some (HeldByOther oldType holder providerName))
           | None \<Rightarrow> (r\<lparr>slots := ((slots r)(oldType := None))(newType \<mapsto> providerName)\<rparr>, None)))"

definition Release :: "registry \<Rightarrow> string \<Rightarrow> registry" where
  "Release r serviceType = r\<lparr>slots := (slots r)(serviceType := None)\<rparr>"

definition Lookup :: "registry \<Rightarrow> string \<Rightarrow> string option" where
  "Lookup r serviceType = slots r serviceType"

section \<open>The health tracker\<close>

datatype provider_status = Ready | Unhealthy | Unavailable

record health_state =
  hs_status :: provider_status
  hs_last_check :: time

type_synonym tracker = "string \<rightharpoonup> health_state"

definition NewInMemoryHealthTracker :: tracker where
  "NewInMemoryHealthTracker = Map.empty"

definition GetState :: "tracker \<Rightarrow> string \<Rightarrow> health_state option" where
  "GetState t providerID = t providerID"

definition SetState :: "tracker \<Rightarrow> string \<Rightarrow> provider_status \<Rightarrow> time \<Rightarrow> tracker" where
  "SetState t providerID status lastCheckTime =
     (if providerID = '''' then t
      else t(providerID \<mapsto> \<lparr>hs_status = status, hs_last_check = lastCheckTime\<rparr>))"

definition DeleteState :: "tracker \<Rightarrow> string \<Rightarrow> tracker" where
  "DeleteState t providerID = t(providerID := None)"

section \<open>What the validators accept\<close>

definition id_char :: "char \<Rightarrow> bool" where
  "id_char c \<longleftrightarrow> is_lower c \<or> is_digit c \<or> c = CHR ''-''"

lemma class_alnum: "in_class [(CHR ''a'', CHR ''z''), (CHR ''0'', CHR ''9'')] c \<longleftrightarrow> is_lower c \<or> is_digit c"
  by (simp add: in_class_def is_lower_def is_digit_def)

lemma class_digit: "in_class [(CHR ''0'', CHR ''9'')] c \<longleftrightarrow> is_digit c"
  by (simp add: in_class_def is_digit_def)

lemma class_hyphen: "in_class [(CHR ''-'', CHR ''-'')] c \<longleftrightarrow> c = CHR ''-''"
proof -
  have "of_char c = (45 :: nat) \<longleftrightarrow> c = CHR ''-''"
    using of_char_eq_iff [of c "CHR ''-''", where 'a = nat] by simp
  then show ?thesis by (auto simp: in_class_def simp del: of_char_eq_iff)
qed

lemma class_append: "in_class (C @ D) c \<longleftrightarrow> in_class C c \<or> in_class D c"
  by (auto simp: in_class_def)

lemmas class_simps = class_alnum class_digit class_hyphen class_append

lemma class_id: "in_class ([(CHR ''a'', CHR ''z''), (CHR ''0'', CHR ''9'')] @ [(CHR ''-'', CHR ''-'')]) c \<longleftrightarrow> id_char c"
  by (auto simp only: class_simps id_char_def)

lemma providerIDRegex_lang:
  "i \<in> lang providerIDRegex \<longleftrightarrow>
     (\<exists>a u b. i = [a] \<and> (is_lower a \<or> is_digit a) \<or>
        i = a # u @ [b] \<and> (is_lower a \<or> is_digit a) \<and> (is_lower b \<or> is_digit b) \<and>
        length u \<le> 61 \<and> list_all id_char u)"
proof -
  let ?A = "[(CHR ''a'', CHR ''z''), (CHR ''0'', CHR ''9'')]"
  let ?I = "?A @ [(CHR ''-'', CHR ''-'')]"
  have inner: "w \<in> lang (re_upto (RClass ?I) 61) \<longleftrightarrow> length w \<le> 61 \<and> list_all id_char w" for w
    unfolding lang_upto_class class_id ..
  have alnum: "lang (RClass ?A) = {[c] | c. is_lower c \<or> is_digit c}" by (simp add: class_alnum)
  have "i \<in> lang providerIDRegex \<longleftrightarrow>
      (\<exists>a w. i = a @ w \<and> a \<in> lang (RClass ?A) \<and>
         (w = [] \<or> (\<exists>u b. w = u @ b \<and> u \<in> lang (re_upto (RClass ?I) 61) \<and> b \<in> lang (RClass ?A))))"
    unfolding providerIDRegex_def Let_def lang.simps(4) mem_Collect_eq lang_opt insert_iff ..
  also have "\<dots> \<longleftrightarrow>
      (\<exists>a w. i = [a] @ w \<and> (is_lower a \<or> is_digit a) \<and>
         (w = [] \<or> (\<exists>u b. w = u @ [b] \<and> (length u \<le> 61 \<and> list_all id_char u) \<and> (is_lower b \<or> is_digit b))))"
    unfolding inner alnum by blast
  also have "\<dots> \<longleftrightarrow>
      (\<exists>a u b. i = [a] \<and> (is_lower a \<or> is_digit a) \<or>
         i = a # u @ [b] \<and> (is_lower a \<or> is_digit a) \<and> (is_lower b \<or> is_digit b) \<and>
         length u \<le> 61 \<and> list_all id_char u)"
    unfolding append_Cons append_Nil by blast
  finally show ?thesis .
qed

text \<open>\<open>ValidateProviderID\<close> accepts exactly the ids of 1 to 63 lowercase letters, digits and hyphens that
  neither start nor end with a hyphen (the documented AEP-122 rule); the regular expression and the
  three checks before it agree.\<close>

theorem ValidateProviderID_iff:
  "ValidateProviderID i = None \<longleftrightarrow>
     i \<noteq> '''' \<and> length i \<le> 63 \<and> list_all id_char i \<and> hd i \<noteq> CHR ''-'' \<and> last i \<noteq> CHR ''-''"
proof -
  have match: "re_match providerIDRegex i \<longleftrightarrow> length i \<le> 63 \<and> list_all id_char i"
    if i: "i \<noteq> ''''" and h: "hd i \<noteq> CHR ''-''" and l: "last i \<noteq> CHR ''-''"
  proof (cases i)
    case (Cons a w)
    have alnum: "is_lower c \<or> is_digit c \<longleftrightarrow> id_char c" if "c \<noteq> CHR ''-''" for c
      using that by (simp add: id_char_def)
    show ?thesis
    proof (cases w rule: rev_cases)
      case Nil
      then show ?thesis using Cons h alnum [of a] by (auto simp: re_match_lang providerIDRegex_lang)
    next
      case (snoc u b)
      then show ?thesis using Cons h l alnum [of a] alnum [of b]
        by (auto simp: re_match_lang providerIDRegex_lang)
    qed
  qed (use i in simp)
  show ?thesis
  proof (cases "i = '''' \<or> hd i = CHR ''-'' \<or> last i = CHR ''-''")
    case False
    then show ?thesis using match by (auto simp: ValidateProviderID_def)
  qed (auto simp: ValidateProviderID_def)
qed

text \<open>\<open>ValidateSchemaVersion\<close> accepts exactly \<open>v\<close>, at least one digit, an optional \<open>alpha\<close> or \<open>beta\<close>, and
  any further digits.\<close>

theorem ValidateSchemaVersion_iff:
  "ValidateSchemaVersion version = None \<longleftrightarrow>
     (\<exists>major stage minor. version = CHR ''v'' # major @ stage @ minor \<and> major \<noteq> [] \<and> list_all is_digit major \<and>
        stage \<in> {'''', ''alpha'', ''beta''} \<and> list_all is_digit minor)"
proof -
  let ?D = "RClass [(CHR ''0'', CHR ''9'')]"
  have "list_all (in_class [(CHR ''0'', CHR ''9'')]) w \<longleftrightarrow> list_all is_digit w" for w
    by (simp add: list_all_iff class_digit)
  then have star: "w \<in> lang (RStar ?D) \<longleftrightarrow> list_all is_digit w"
    and plus: "w \<in> lang (re_plus ?D) \<longleftrightarrow> w \<noteq> [] \<and> list_all is_digit w" for w
    by (simp_all only: lang_star_class lang_plus_class)
  have "version \<in> lang schemaVersionRegex \<longleftrightarrow>
      (\<exists>u v. version = u @ v \<and> u \<in> {''v''} \<and> (\<exists>major w. v = major @ w \<and> major \<in> lang (re_plus ?D) \<and>
        (\<exists>stage minor. w = stage @ minor \<and> stage \<in> insert '''' ({''alpha''} \<union> {''beta''}) \<and> minor \<in> lang (RStar ?D))))"
    unfolding schemaVersionRegex_def Let_def lang.simps(4,5) mem_Collect_eq lang_lit lang_opt ..
  also have "\<dots> \<longleftrightarrow>
      (\<exists>major stage minor. version = ''v'' @ major @ stage @ minor \<and> major \<in> lang (re_plus ?D) \<and>
        stage \<in> {'''', ''alpha'', ''beta''} \<and> minor \<in> lang (RStar ?D))"
    by blast
  finally have "version \<in> lang schemaVersionRegex \<longleftrightarrow>
      (\<exists>major stage minor. version = ''v'' @ major @ stage @ minor \<and> major \<in> lang (re_plus ?D) \<and>
        stage \<in> {'''', ''alpha'', ''beta''} \<and> minor \<in> lang (RStar ?D))" .
  then show ?thesis unfolding star plus by (auto simp: ValidateSchemaVersion_def re_match_lang)
qed

section \<open>The slot contract\<close>

text \<open>What the registration service relies on: a successful claim or move sets exactly the claimed slots, a
  failed one changes nothing, and a claim succeeds exactly when the slot is free or already the
  claimant's.\<close>

locale slot_registry =
  fixes claim :: "'r \<Rightarrow> string \<Rightarrow> string \<Rightarrow> 'r \<times> 'e option"
    and move :: "'r \<Rightarrow> string \<Rightarrow> string \<Rightarrow> string \<Rightarrow> 'r \<times> 'e option"
    and release :: "'r \<Rightarrow> string \<Rightarrow> 'r"
    and holder :: "'r \<Rightarrow> string \<rightharpoonup> string"
  assumes claim_ok: "snd (claim r p t) = None \<longleftrightarrow> holder r t \<in> {None, Some p}"
    and claim_sets: "snd (claim r p t) = None \<Longrightarrow> holder (fst (claim r p t)) = (holder r)(t \<mapsto> p)"
    and claim_fails: "snd (claim r p t) \<noteq> None \<Longrightarrow> fst (claim r p t) = r"
    and move_ok: "snd (move r p t t') = None \<longleftrightarrow> holder r t \<in> {None, Some p} \<and> holder r t' \<in> {None, Some p}"
    and move_sets: "snd (move r p t t') = None \<Longrightarrow>
      holder (fst (move r p t t')) = ((holder r)(t := None))(t' \<mapsto> p)"
    and move_fails: "snd (move r p t t') \<noteq> None \<Longrightarrow> fst (move r p t t') = r"
    and release_frees: "holder (release r t) = (holder r)(t := None)"
begin

lemma claim_then_release: "holder r t = None \<Longrightarrow> holder (release (fst (claim r p t)) t) = holder r"
  using claim_ok [of r p t] claim_sets [of r p t] by (auto simp: release_frees)

lemma move_and_back:
  assumes "holder r t = Some p" and "holder r t' = None"
  shows "holder (fst (move (fst (move r p t t')) p t' t)) = holder r"
proof -
  have first: "holder (fst (move r p t t')) = ((holder r)(t := None))(t' \<mapsto> p)"
    using move_sets move_ok [of r p t t'] assms by simp
  have "snd (move (fst (move r p t t')) p t' t) = None"
    using assms by (auto simp: move_ok first)
  then show ?thesis using assms by (auto simp: move_sets first)
qed

lemma other_holders_kept:
  assumes "holder r s = Some q" and "q \<noteq> p"
  shows "holder (fst (claim r p t)) s = Some q" "holder (fst (move r p t t')) s = Some q"
proof -
  show "holder (fst (claim r p t)) s = Some q"
    using assms claim_ok [of r p t] claim_sets [of r p t] claim_fails [of r p t]
    by (cases "snd (claim r p t) = None"; cases "s = t") auto
  show "holder (fst (move r p t t')) s = Some q"
    using assms move_ok [of r p t t'] move_sets [of r p t t'] move_fails [of r p t t']
    by (cases "snd (move r p t t') = None"; cases "s = t"; cases "s = t'") auto
qed

end

interpretation reg: slot_registry Claim Move Release Lookup
  by unfold_locales
    (auto simp: Claim_def Move_def Release_def Lookup_def held_by_other_def fun_eq_iff
      split: option.splits if_splits)

section \<open>The tracker contract\<close>

text \<open>The laws of the \<open>HealthTracker\<close> interface that the service, the monitor and the router read it by.\<close>

locale health_tracker =
  fixes get :: "'t \<Rightarrow> string \<Rightarrow> health_state option"
    and set_state :: "'t \<Rightarrow> string \<Rightarrow> provider_status \<Rightarrow> time \<Rightarrow> 't"
    and delete :: "'t \<Rightarrow> string \<Rightarrow> 't"
  assumes get_set: "get (set_state t i st c) j =
      (if j = i \<and> i \<noteq> '''' then Some \<lparr>hs_status = st, hs_last_check = c\<rparr> else get t j)"
    and get_delete: "get (delete t i) j = (if j = i then None else get t j)"
begin

lemma last_write_wins: "get (set_state (set_state t i st c) i st' c') j = get (set_state t i st' c') j"
  by (simp add: get_set)

lemma delete_after_set: "get (delete (set_state t i st c) i) j = get (delete t i) j"
  by (simp add: get_set get_delete)

lemma set_commute: "i \<noteq> j \<Longrightarrow>
  get (set_state (set_state t i st c) j st' c') k = get (set_state (set_state t j st' c') i st c) k"
  by (auto simp: get_set)

end

interpretation ht: health_tracker GetState SetState DeleteState
  by unfold_locales (auto simp: GetState_def SetState_def DeleteState_def)

end
