(* ===== verification/File_Store.thy ===== *)
theory File_Store
  imports Agent_Prelude
begin

text \<open>
  \<open>internal/provider/store\<close>: the persisted provider records and the JSON file that keeps them.  A file is
  modelled by what decoding it gives; the JSON text itself is not.  A store call takes the system call
  that fails in it, if one does.  The disk also records what a restart may find: \<open>d_durable\<close> is
  the contents the file may have after a crash at this moment, \<open>d_images\<close> those it may have had after a
  crash at any moment so far.
\<close>

section \<open>Records\<close>

datatype json =
    JNull
  | JBool bool
  | JNum string
  | JStr string
  | JArr "json list"
  | JObj "(string \<times> json) list"

record stored_provider =
  sp_ID :: string
  sp_Name :: string
  sp_Endpoint :: string
  sp_ServiceType :: string
  sp_SchemaVersion :: string
  sp_DisplayName :: "string option"
  sp_Operations :: "string list option"
  sp_Metadata :: "json option"
  sp_Type :: string
  sp_CreateTime :: time
  sp_UpdateTime :: time

datatype record_error = MissingField string | InvalidType string

datatype store_error =
    InvalidRecord record_error
  | InvalidRecordAt nat record_error
  | ReadErr
  | UnmarshalErr
  | MarshalErr
  | CreateTempErr
  | WriteTempErr
  | FsyncTempErr
  | CloseTempErr
  | RenameErr

definition first_missing :: "(string \<times> string) list \<Rightarrow> string option" where
  "first_missing fs = map_option snd (find (\<lambda>(v, n). v = '''') fs)"

definition validateStoredProvider :: "stored_provider \<Rightarrow> record_error option" where
  "validateStoredProvider p =
     (case first_missing [(sp_ID p, ''id''), (sp_Name p, ''name''), (sp_ServiceType p, ''service_type''),
                          (sp_SchemaVersion p, ''schema_version''), (sp_Type p, ''type'')] of
        Some n \<Rightarrow> Some (MissingField n)
      | None \<Rightarrow>
          if sp_Type p \<noteq> ''embedded'' \<and> sp_Type p \<noteq> ''external'' then Some (InvalidType (sp_Type p))
          else if sp_CreateTime p = 0 then Some (MissingField ''create_time'')
          else if sp_UpdateTime p = 0 then Some (MissingField ''update_time'')
          else None)"

section \<open>The disk\<close>

datatype file_content = NoFile | EmptyFile | Garbage | Decoded "stored_provider list"

record disk =
  d_main :: file_content
  d_main_synced :: bool
  d_tmp :: file_content
  d_tmp_synced :: bool
  d_durable :: "file_content list"
  d_images :: "file_content list"
  d_clock :: nat

datatype fs_fault =
    ReadFault
  | MarshalFault
  | OpenFault
  | WriteFault
  | SyncFault
  | CloseFault
  | RenameFault
  | DirOpenFault
  | DirSyncFault

text \<open>The system calls of \<open>writeFile\<close>.  File data that was never fsynced may be lost or torn by a crash, and
  a rename may be lost until the directory is fsynced.\<close>

definition crash_images :: "file_content \<Rightarrow> bool \<Rightarrow> file_content list" where
  "crash_images c synced = (if synced then [c] else [c, EmptyFile, Garbage])"

definition sys_open :: "fs_fault option \<Rightarrow> disk \<Rightarrow> disk \<times> bool" where
  "sys_open f d =
     (if f = Some OpenFault then (d, False) else (d\<lparr>d_tmp := EmptyFile, d_tmp_synced := False\<rparr>, True))"

definition sys_write :: "fs_fault option \<Rightarrow> disk \<Rightarrow> stored_provider list \<Rightarrow> disk \<times> bool" where
  "sys_write f d l =
     (if f = Some WriteFault then (d\<lparr>d_tmp := Garbage\<rparr>, False) else (d\<lparr>d_tmp := Decoded l\<rparr>, True))"

definition sys_fsync :: "fs_fault option \<Rightarrow> disk \<Rightarrow> disk \<times> bool" where
  "sys_fsync f d = (if f = Some SyncFault then (d, False) else (d\<lparr>d_tmp_synced := True\<rparr>, True))"

definition sys_close :: "fs_fault option \<Rightarrow> disk \<Rightarrow> disk \<times> bool" where
  "sys_close f d = (d, f \<noteq> Some CloseFault)"

definition sys_rename :: "fs_fault option \<Rightarrow> disk \<Rightarrow> disk \<times> bool" where
  "sys_rename f d =
     (if f = Some RenameFault then (d, False)
      else let dur = d_durable d @ crash_images (d_tmp d) (d_tmp_synced d)
           in (d\<lparr>d_main := d_tmp d, d_main_synced := d_tmp_synced d, d_tmp := NoFile, d_tmp_synced := False,
                 d_durable := dur, d_images := d_images d @ dur\<rparr>, True))"

definition sys_opendir :: "fs_fault option \<Rightarrow> disk \<Rightarrow> disk \<times> bool" where
  "sys_opendir f d = (d, f \<noteq> Some DirOpenFault)"

definition sys_fsync_dir :: "fs_fault option \<Rightarrow> disk \<Rightarrow> disk \<times> bool" where
  "sys_fsync_dir f d =
     (if f = Some DirSyncFault then (d, False)
      else (d\<lparr>d_durable := crash_images (d_main d) (d_main_synced d)\<rparr>, True))"

section \<open>FileStore\<close>

fun validate_from :: "nat \<Rightarrow> stored_provider list \<Rightarrow> store_error option" where
  "validate_from i [] = None"
| "validate_from i (p # ps) =
     (case validateStoredProvider p of
        Some e \<Rightarrow> Some (InvalidRecordAt i e)
      | None \<Rightarrow> validate_from (Suc i) ps)"

definition readFile :: "fs_fault option \<Rightarrow> disk \<Rightarrow> store_error + stored_provider list" where
  "readFile f d =
     (if f = Some ReadFault then Inl ReadErr
      else case d_main d of
             NoFile \<Rightarrow> Inr []
           | EmptyFile \<Rightarrow> Inr []
           | Garbage \<Rightarrow> Inl UnmarshalErr
           | Decoded providers \<Rightarrow>
               (case validate_from 0 providers of Some e \<Rightarrow> Inl e | None \<Rightarrow> Inr providers))"

definition writeFile :: "fs_fault option \<Rightarrow> disk \<Rightarrow> stored_provider list \<Rightarrow> disk \<times> store_error option" where
  "writeFile f d providers =
     (if f = Some MarshalFault then (d, Some MarshalErr)
      else let (d, ok) = sys_open f d in
      if \<not> ok then (d, Some CreateTempErr)
      else let (d, ok) = sys_write f d providers in
      if \<not> ok then (d, Some WriteTempErr)
      else let (d, ok) = sys_fsync f d in
      if \<not> ok then (d, Some FsyncTempErr)
      else let (d, ok) = sys_close f d in
      if \<not> ok then (d, Some CloseTempErr)
      else let (d, ok) = sys_rename f d in
      if \<not> ok then (d, Some RenameErr)
      else let (d, ok) = sys_opendir f d in
      if \<not> ok then (d, None)
      else let (d, _) = sys_fsync_dir f d in (d, None))"

text \<open>Each store call uses up one entry of the fault schedule \<open>io\<close>.\<close>

definition fault_now :: "(nat \<Rightarrow> fs_fault option) \<Rightarrow> disk \<Rightarrow> fs_fault option" where
  "fault_now io d = io (d_clock d)"

definition tick :: "disk \<Rightarrow> disk" where
  "tick d = d\<lparr>d_clock := Suc (d_clock d)\<rparr>"

fun upsert :: "stored_provider \<Rightarrow> stored_provider list \<Rightarrow> stored_provider list" where
  "upsert p [] = [p]"
| "upsert p (existing # ps) =
     (if sp_Name existing = sp_Name p then p # ps else existing # upsert p ps)"

definition fs_Save :: "(nat \<Rightarrow> fs_fault option) \<Rightarrow> disk \<Rightarrow> stored_provider \<Rightarrow> disk \<times> store_error option" where
  "fs_Save io d p =
     (case validateStoredProvider p of
        Some e \<Rightarrow> (tick d, Some (InvalidRecord e))
      | None \<Rightarrow>
          (case readFile (fault_now io d) d of
             Inl e \<Rightarrow> (tick d, Some e)
           | Inr providers \<Rightarrow> writeFile (fault_now io d) (tick d) (upsert p providers)))"

definition fs_Delete :: "(nat \<Rightarrow> fs_fault option) \<Rightarrow> disk \<Rightarrow> string \<Rightarrow> disk \<times> store_error option" where
  "fs_Delete io d name =
     (case readFile (fault_now io d) d of
        Inl e \<Rightarrow> (tick d, Some e)
      | Inr providers \<Rightarrow> writeFile (fault_now io d) (tick d) (filter (\<lambda>p. sp_Name p \<noteq> name) providers))"

definition fs_List :: "(nat \<Rightarrow> fs_fault option) \<Rightarrow> disk \<Rightarrow> disk \<times> (store_error + stored_provider list)" where
  "fs_List io d = (tick d, readFile (fault_now io d) d)"

definition findBy :: "(nat \<Rightarrow> fs_fault option) \<Rightarrow> disk \<Rightarrow> (stored_provider \<Rightarrow> bool) \<Rightarrow>
    disk \<times> (store_error + stored_provider option)" where
  "findBy io d matches =
     (tick d, case readFile (fault_now io d) d of
                Inl e \<Rightarrow> Inl e
              | Inr providers \<Rightarrow> Inr (find matches providers))"

definition fs_GetByID :: "(nat \<Rightarrow> fs_fault option) \<Rightarrow> disk \<Rightarrow> string \<Rightarrow> disk \<times> (store_error + stored_provider option)" where
  "fs_GetByID io d i = findBy io d (\<lambda>p. sp_ID p = i)"

definition fs_GetByName :: "(nat \<Rightarrow> fs_fault option) \<Rightarrow> disk \<Rightarrow> string \<Rightarrow> disk \<times> (store_error + stored_provider option)" where
  "fs_GetByName io d name = findBy io d (\<lambda>p. sp_Name p = name)"

definition fs_init :: "file_content \<Rightarrow> disk" where
  "fs_init c = \<lparr>d_main = c, d_main_synced = True, d_tmp = NoFile, d_tmp_synced = False,
                d_durable = [c], d_images = [c], d_clock = 0\<rparr>"

section \<open>Contents and invariant\<close>

definition sp_valid :: "stored_provider \<Rightarrow> bool" where
  "sp_valid p \<longleftrightarrow> validateStoredProvider p = None"

definition content_of :: "file_content \<Rightarrow> stored_provider list option" where
  "content_of c =
     (case c of
        NoFile \<Rightarrow> Some []
      | EmptyFile \<Rightarrow> Some []
      | Garbage \<Rightarrow> None
      | Decoded l \<Rightarrow> if list_all sp_valid l then Some l else None)"

definition fs_contents :: "disk \<Rightarrow> stored_provider list" where
  "fs_contents d = the (content_of (d_main d))"

definition good_file :: "file_content \<Rightarrow> bool" where
  "good_file c \<longleftrightarrow> (\<exists>l. content_of c = Some l \<and> distinct (map sp_Name l))"

definition fs_inv :: "disk \<Rightarrow> bool" where
  "fs_inv d \<longleftrightarrow> good_file (d_main d) \<and> list_all good_file (d_durable d) \<and> list_all good_file (d_images d)"

lemma validate_from_None [simp]: "validate_from i l = None \<longleftrightarrow> list_all sp_valid l"
  by (induction l arbitrary: i) (auto simp: sp_valid_def split: option.splits)

lemma readFile_content:
  "f \<noteq> Some ReadFault \<Longrightarrow> content_of (d_main d) = Some l \<Longrightarrow> readFile f d = Inr l"
  by (auto simp: readFile_def content_of_def split: file_content.splits option.splits if_splits)

lemma readFile_Inr: "readFile f d = Inr l \<Longrightarrow> content_of (d_main d) = Some l"
  using validate_from_None
  by (auto simp: readFile_def content_of_def split: file_content.splits option.splits if_splits)

lemma tick_simps [simp]:
  "d_main (tick d) = d_main d" "d_durable (tick d) = d_durable d" "d_images (tick d) = d_images d"
  "d_clock (tick d) = Suc (d_clock d)"
  by (simp_all add: tick_def)

lemma fs_contents_tick [simp]: "fs_contents (tick d) = fs_contents d" "fs_inv (tick d) = fs_inv d"
  by (simp_all add: fs_contents_def fs_inv_def)

lemmas sys_defs = sys_open_def sys_write_def sys_fsync_def sys_close_def sys_rename_def sys_opendir_def
  sys_fsync_dir_def crash_images_def

lemma writeFile_error:
  "writeFile f d l = (d', Some e) \<Longrightarrow>
   d_main d' = d_main d \<and> d_durable d' = d_durable d \<and> d_images d' = d_images d \<and> d_clock d' = d_clock d"
  by (auto simp: writeFile_def sys_defs Let_def split: if_splits)

lemma writeFile_ok:
  "writeFile f d l = (d', None) \<Longrightarrow>
   d_main d' = Decoded l \<and> d_clock d' = d_clock d \<and>
   set (d_images d') = set (d_images d) \<union> set (d_durable d) \<union> {Decoded l} \<and>
   set (d_durable d') \<subseteq> set (d_durable d) \<union> {Decoded l} \<and>
   (f \<noteq> Some DirOpenFault \<and> f \<noteq> Some DirSyncFault \<longrightarrow> d_durable d' = [Decoded l])"
  by (auto simp: writeFile_def sys_defs Let_def split: if_splits)

lemma writeFile_total: "f = None \<Longrightarrow> snd (writeFile f d l) = None"
  by (simp add: writeFile_def sys_defs Let_def)

lemma upsert_names: "map sp_Name (upsert p l) =
  (if sp_Name p \<in> set (map sp_Name l) then map sp_Name l else map sp_Name l @ [sp_Name p])"
  by (induction l) auto

lemma upsert_distinct: "distinct (map sp_Name l) \<Longrightarrow> distinct (map sp_Name (upsert p l))"
  by (auto simp only: upsert_names distinct_append) auto

lemma upsert_valid: "sp_valid p \<Longrightarrow> list_all sp_valid l \<Longrightarrow> list_all sp_valid (upsert p l)"
  by (induction l) auto

lemma set_upsert:
  "distinct (map sp_Name l) \<Longrightarrow> set (upsert p l) = insert p {q \<in> set l. sp_Name q \<noteq> sp_Name p}"
  by (induction l) (auto simp: image_iff)

lemma mem_upsert [simp]: "p \<in> set (upsert p l)"
  by (induction l) auto

lemma find_upsert:
  "find (\<lambda>q. sp_Name q = n) (upsert p l) =
     (if n = sp_Name p then Some p else find (\<lambda>q. sp_Name q = n) l)"
  by (induction l) auto

lemma find_filter_name:
  "find (\<lambda>q. sp_Name q = n) (filter (\<lambda>q. sp_Name q \<noteq> m) l) =
     (if n = m then None else find (\<lambda>q. sp_Name q = n) l)"
  by (induction l) auto

lemma good_file_contents:
  "good_file (d_main d) \<Longrightarrow>
   content_of (d_main d) = Some (fs_contents d) \<and> distinct (map sp_Name (fs_contents d)) \<and>
   list_all sp_valid (fs_contents d)"
  by (auto simp: good_file_def fs_contents_def content_of_def split: file_content.splits if_splits)

lemma good_Decoded: "good_file (Decoded l) \<longleftrightarrow> list_all sp_valid l \<and> distinct (map sp_Name l)"
  by (auto simp: good_file_def content_of_def)

lemma write_good:
  assumes "fs_inv d" and "list_all sp_valid l" and "distinct (map sp_Name l)" and "writeFile f d l = (d', r)"
  shows "fs_inv d' \<and> fs_contents d' = (if r = None then l else fs_contents d)"
proof (cases r)
  case None
  then have w: "d_main d' = Decoded l" "set (d_images d') \<subseteq> set (d_images d) \<union> set (d_durable d) \<union> {Decoded l}"
    "set (d_durable d') \<subseteq> set (d_durable d) \<union> {Decoded l}"
    using writeFile_ok [of f d l d'] assms(4) by auto
  then have "fs_inv d'" using assms(1-3) good_Decoded [of l]
    by (auto simp: fs_inv_def list_all_iff)
  then show ?thesis using None w(1) assms(2) by (simp add: fs_contents_def content_of_def)
next
  case (Some e)
  then show ?thesis using writeFile_error [of f d l d' e] assms(1,4) by (simp add: fs_inv_def fs_contents_def)
qed

lemma fs_Save_effect:
  assumes "fs_inv d" and "fs_Save io d p = (d', r)"
  shows "fs_inv d' \<and> fs_contents d' = (if r = None then upsert p (fs_contents d) else fs_contents d)"
proof -
  have c: "content_of (d_main d) = Some (fs_contents d)" "distinct (map sp_Name (fs_contents d))"
    "list_all sp_valid (fs_contents d)"
    using good_file_contents assms(1) by (auto simp: fs_inv_def)
  show ?thesis
  proof (cases "sp_valid p \<and> fault_now io d \<noteq> Some ReadFault")
    case True
    then have w: "writeFile (fault_now io d) (tick d) (upsert p (fs_contents d)) = (d', r)"
      using assms(2) readFile_content [OF _ c(1), of "fault_now io d"] by (simp add: fs_Save_def sp_valid_def)
    show ?thesis
      using write_good [OF _ upsert_valid [OF _ c(3)] upsert_distinct [OF c(2)] w] True assms(1) by simp
  next
    case False
    then have "d' = tick d \<and> r \<noteq> None"
      using assms(2) by (auto simp: fs_Save_def sp_valid_def readFile_def split: option.splits)
    then show ?thesis using assms(1) by auto
  qed
qed

lemma fs_Delete_effect:
  assumes "fs_inv d" and "fs_Delete io d n = (d', r)"
  shows "fs_inv d' \<and>
    fs_contents d' = (if r = None then filter (\<lambda>p. sp_Name p \<noteq> n) (fs_contents d) else fs_contents d)"
proof -
  let ?l = "filter (\<lambda>p. sp_Name p \<noteq> n) (fs_contents d)"
  have c: "content_of (d_main d) = Some (fs_contents d)" "distinct (map sp_Name ?l)" "list_all sp_valid ?l"
    using good_file_contents assms(1) by (auto simp: fs_inv_def list_all_iff distinct_map_filter)
  show ?thesis
  proof (cases "fault_now io d = Some ReadFault")
    case True
    then have "d' = tick d \<and> r \<noteq> None" using assms(2) by (auto simp: fs_Delete_def readFile_def)
    then show ?thesis using assms(1) by auto
  next
    case False
    then have w: "writeFile (fault_now io d) (tick d) ?l = (d', r)"
      using assms(2) readFile_content [OF _ c(1), of "fault_now io d"] by (simp add: fs_Delete_def)
    show ?thesis using write_good [OF _ c(3,2) w] assms(1) by simp
  qed
qed

lemma fs_read_effect:
  assumes "fs_inv d"
  shows "fs_List io d = (d', r) \<Longrightarrow> fs_inv d' \<and> fs_contents d' = fs_contents d \<and> (\<forall>l. r = Inr l \<longrightarrow> l = fs_contents d)"
    and "findBy io d P = (d', q) \<Longrightarrow>
      fs_inv d' \<and> fs_contents d' = fs_contents d \<and> (\<forall>x. q = Inr x \<longrightarrow> x = find P (fs_contents d))"
proof -
  have read: "l = fs_contents d" if "readFile (fault_now io d) d = Inr l" for l
    using readFile_Inr [OF that] by (simp add: fs_contents_def)
  show "fs_List io d = (d', r) \<Longrightarrow> fs_inv d' \<and> fs_contents d' = fs_contents d \<and> (\<forall>l. r = Inr l \<longrightarrow> l = fs_contents d)"
    using assms read by (auto simp: fs_List_def)
  show "findBy io d P = (d', q) \<Longrightarrow>
      fs_inv d' \<and> fs_contents d' = fs_contents d \<and> (\<forall>x. q = Inr x \<longrightarrow> x = find P (fs_contents d))"
    using assms read by (cases "readFile (fault_now io d) d") (auto simp: findBy_def)
qed

section \<open>The store contract\<close>

text \<open>The \<open>Store\<close> interface as its clients use it: a call that succeeds has its documented effect on the
  records, a call that fails has none, and a lookup that succeeds returns what is there.\<close>

locale provider_store =
  fixes save :: "'s \<Rightarrow> stored_provider \<Rightarrow> 's \<times> 'e option"
    and delete :: "'s \<Rightarrow> string \<Rightarrow> 's \<times> 'e option"
    and list :: "'s \<Rightarrow> 's \<times> ('e + stored_provider list)"
    and get_by_id :: "'s \<Rightarrow> string \<Rightarrow> 's \<times> ('e + stored_provider option)"
    and get_by_name :: "'s \<Rightarrow> string \<Rightarrow> 's \<times> ('e + stored_provider option)"
    and inv :: "'s \<Rightarrow> bool"
    and contents :: "'s \<Rightarrow> stored_provider list"
  assumes inv_distinct: "inv s \<Longrightarrow> distinct (map sp_Name (contents s))"
    and inv_valid: "inv s \<Longrightarrow> list_all sp_valid (contents s)"
    and save_effect: "inv s \<Longrightarrow> save s p = (s', r) \<Longrightarrow>
      inv s' \<and> contents s' = (if r = None then upsert p (contents s) else contents s)"
    and delete_effect: "inv s \<Longrightarrow> delete s n = (s', r) \<Longrightarrow>
      inv s' \<and> contents s' = (if r = None then filter (\<lambda>p. sp_Name p \<noteq> n) (contents s) else contents s)"
    and list_effect: "inv s \<Longrightarrow> list s = (s', q) \<Longrightarrow>
      inv s' \<and> contents s' = contents s \<and> (\<forall>l. q = Inr l \<longrightarrow> l = contents s)"
    and get_by_id_effect: "inv s \<Longrightarrow> get_by_id s i = (s', x) \<Longrightarrow>
      inv s' \<and> contents s' = contents s \<and> (\<forall>y. x = Inr y \<longrightarrow> y = find (\<lambda>p. sp_ID p = i) (contents s))"
    and get_by_name_effect: "inv s \<Longrightarrow> get_by_name s n = (s', x) \<Longrightarrow>
      inv s' \<and> contents s' = contents s \<and> (\<forall>y. x = Inr y \<longrightarrow> y = find (\<lambda>p. sp_Name p = n) (contents s))"
begin

lemma save_then_get:
  assumes "inv s" and "save s p = (s', None)" and "get_by_name s' n = (s'', Inr x)"
  shows "x = (if n = sp_Name p then Some p else find (\<lambda>q. sp_Name q = n) (contents s))"
  using save_effect [OF assms(1,2)] get_by_name_effect [of s', OF _ assms(3)] by (simp add: find_upsert)

lemma delete_then_get:
  assumes "inv s" and "delete s m = (s', None)" and "get_by_name s' n = (s'', Inr x)"
  shows "x = (if n = m then None else find (\<lambda>q. sp_Name q = n) (contents s))"
  using delete_effect [OF assms(1,2)] get_by_name_effect [of s', OF _ assms(3)] by (simp add: find_filter_name)

lemma failed_save_then_get:
  assumes "inv s" and "save s p = (s', Some e)" and "get_by_name s' n = (s'', Inr x)"
  shows "x = find (\<lambda>q. sp_Name q = n) (contents s)"
  using save_effect [OF assms(1,2)] get_by_name_effect [of s', OF _ assms(3)] by simp

end

interpretation fs: provider_store "fs_Save io" "fs_Delete io" "fs_List io" "fs_GetByID io" "fs_GetByName io"
  fs_inv fs_contents for io
proof unfold_locales
  fix s assume "fs_inv s"
  then show "distinct (map sp_Name (fs_contents s))" "list_all sp_valid (fs_contents s)"
    using good_file_contents by (auto simp: fs_inv_def)
qed (auto simp only: fs_GetByID_def fs_GetByName_def
      dest: fs_Save_effect fs_Delete_effect fs_read_effect)

section \<open>Crash safety\<close>

datatype fs_op = SaveOp stored_provider | DeleteOp string | ReadOp

fun fs_step :: "(nat \<Rightarrow> fs_fault option) \<Rightarrow> disk \<Rightarrow> fs_op \<Rightarrow> disk" where
  "fs_step io d (SaveOp p) = fst (fs_Save io d p)"
| "fs_step io d (DeleteOp n) = fst (fs_Delete io d n)"
| "fs_step io d ReadOp = fst (fs_List io d)"

definition fs_run :: "(nat \<Rightarrow> fs_fault option) \<Rightarrow> disk \<Rightarrow> fs_op list \<Rightarrow> disk" where
  "fs_run io d ops = foldl (fs_step io) d ops"

lemma write_images:
  "set (d_images (fst (writeFile f d l))) \<union> set (d_durable (fst (writeFile f d l))) \<subseteq>
   set (d_images d) \<union> set (d_durable d) \<union> {d_main (fst (writeFile f d l))}"
proof (cases "writeFile f d l")
  case (Pair d' r)
  then show ?thesis
    using writeFile_ok [of f d l d'] writeFile_error [of f d l d'] by (cases r) auto
qed

lemma fs_step_images:
  "set (d_images (fs_step io d op)) \<union> set (d_durable (fs_step io d op)) \<subseteq>
   set (d_images d) \<union> set (d_durable d) \<union> {d_main (fs_step io d op)}"
proof (cases "readFile (fault_now io d) d")
  case (Inr l)
  show ?thesis
  proof (cases op)
    case (SaveOp p)
    then show ?thesis
      using Inr write_images [of "fault_now io d" "tick d" "upsert p l"]
      by (cases "validateStoredProvider p") (auto simp: fs_Save_def)
  next
    case (DeleteOp n)
    then show ?thesis
      using Inr write_images [of "fault_now io d" "tick d" "filter (\<lambda>p. sp_Name p \<noteq> n) l"]
      by (auto simp: fs_Delete_def)
  qed (auto simp: fs_List_def)
qed (cases op; auto simp: fs_Save_def fs_Delete_def fs_List_def split: option.splits)

lemma fs_step_inv: "fs_inv d \<Longrightarrow> fs_inv (fs_step io d op)"
proof (cases op)
  case (SaveOp p)
  assume "fs_inv d"
  then show ?thesis
    using fs_Save_effect [of d io p "fst (fs_Save io d p)" "snd (fs_Save io d p)"] SaveOp by simp
next
  case (DeleteOp n)
  assume "fs_inv d"
  then show ?thesis
    using fs_Delete_effect [of d io n "fst (fs_Delete io d n)" "snd (fs_Delete io d n)"] DeleteOp by simp
qed (simp add: fs_List_def)

lemma fs_run_inv: "fs_inv d \<Longrightarrow> fs_inv (fs_run io d ops)"
  by (induction ops rule: rev_induct) (auto simp: fs_run_def intro: fs_step_inv)

lemma fs_run_images:
  "set (d_images (fs_run io d ops)) \<union> set (d_durable (fs_run io d ops)) \<subseteq>
   set (d_images d) \<union> set (d_durable d) \<union> {d_main (fs_run io d (take k ops)) | k. k \<le> length ops}"
proof (induction ops rule: rev_induct)
  case (snoc op ops)
  let ?M = "\<lambda>os. {d_main (fs_run io d (take k os)) | k. k \<le> length os}"
  have "?M ops \<subseteq> ?M (ops @ [op])"
  proof
    fix x assume "x \<in> ?M ops"
    then obtain k where "k \<le> length ops" "x = d_main (fs_run io d (take k ops))" by blast
    then show "x \<in> ?M (ops @ [op])" by (intro CollectI exI [of _ k]) simp
  qed
  moreover have "d_main (fs_run io d (ops @ [op])) \<in> ?M (ops @ [op])"
    by (rule CollectI, rule exI [of _ "length (ops @ [op])"]) simp
  moreover have "set (d_images (fs_run io d (ops @ [op]))) \<union> set (d_durable (fs_run io d (ops @ [op]))) \<subseteq>
      set (d_images (fs_run io d ops)) \<union> set (d_durable (fs_run io d ops)) \<union> {d_main (fs_run io d (ops @ [op]))}"
    using fs_step_images [of io "fs_run io d ops" op] by (simp add: fs_run_def)
  ultimately show ?case using snoc by blast
qed (auto simp: fs_run_def)

lemma fs_init_simps [simp]:
  "d_main (fs_init c) = c" "d_images (fs_init c) = [c]" "d_durable (fs_init c) = [c]" "d_clock (fs_init c) = 0"
  by (simp_all add: fs_init_def)

lemma fs_init_inv: "good_file c \<Longrightarrow> fs_inv (fs_init c)"
  by (simp add: fs_inv_def)

text \<open>C2: whatever the provider store is asked to do, whichever system calls fail, and at whatever moment the
  process or the machine goes down, the file found on restart is readable, holds only valid records
  with distinct names, and is exactly the file as some completed store call had left it (or as it was
  at the start): no torn, lost or half-written state can be found.\<close>

theorem FileStore_crash_safe:
  assumes "good_file c" and "img \<in> set (d_images (fs_run io (fs_init c) ops))"
  shows "good_file img \<and> (\<exists>k \<le> length ops. img = d_main (fs_run io (fs_init c) (take k ops)))"
proof
  show "good_file img"
    using fs_run_inv [OF fs_init_inv [OF assms(1)]] assms(2) unfolding fs_inv_def list_all_iff by blast
  have "img = c \<or> img \<in> {d_main (fs_run io (fs_init c) (take k ops)) | k. k \<le> length ops}"
    using fs_run_images [of io "fs_init c" ops] assms(2) unfolding fs_init_simps by auto
  moreover have "d_main (fs_run io (fs_init c) (take 0 ops)) = c" by (simp add: fs_run_def)
  ultimately show "\<exists>k \<le> length ops. img = d_main (fs_run io (fs_init c) (take k ops))"
  proof (elim disjE)
    assume "d_main (fs_run io (fs_init c) (take 0 ops)) = c" "img = c"
    then show ?thesis by (intro exI [of _ "0 :: nat"]) simp
  qed blast
qed

definition sample_provider :: stored_provider where
  "sample_provider = \<lparr>sp_ID = ''id-1'', sp_Name = ''db'', sp_Endpoint = ''http://db'', sp_ServiceType = ''database'',
     sp_SchemaVersion = ''v1alpha1'', sp_DisplayName = None, sp_Operations = None, sp_Metadata = None,
     sp_Type = ''external'', sp_CreateTime = 1, sp_UpdateTime = 1\<rparr>"

lemma sample_provider_valid: "validateStoredProvider sample_provider = None"
  by (simp add: validateStoredProvider_def first_missing_def sample_provider_def)

lemma sample_save:
  "d_images (fs_run (\<lambda>_. Some DirSyncFault) (fs_init NoFile) [SaveOp sample_provider]) =
     [NoFile, NoFile, Decoded [sample_provider]]"
  by (simp add: fs_run_def fs_Save_def sample_provider_valid readFile_def fault_now_def writeFile_def sys_defs
      fs_init_def tick_def Let_def)

theorem FileStore_crash_safe_witness:
  "good_file (Decoded [sample_provider]) \<and>
     (\<exists>k \<le> 1. Decoded [sample_provider] =
        d_main (fs_run (\<lambda>_. Some DirSyncFault) (fs_init NoFile) (take k [SaveOp sample_provider])))"
  using FileStore_crash_safe [of NoFile "Decoded [sample_provider]" "\<lambda>_. Some DirSyncFault" "[SaveOp sample_provider]"]
  by (simp only: sample_save) (simp add: good_file_def content_of_def)

text \<open>When \<open>Save\<close> returns without error and the directory could be opened and fsynced, the new records are
  the only ones a restart can find: the acknowledged write survives any later crash.\<close>

theorem FileStore_save_durable:
  assumes "fs_inv d" and "fs_Save io d p = (d', None)"
    and "fault_now io d \<noteq> Some DirOpenFault" and "fault_now io d \<noteq> Some DirSyncFault"
  shows "d_durable d' = [Decoded (upsert p (fs_contents d))]"
proof (cases "validateStoredProvider p")
  case None
  obtain l where l: "readFile (fault_now io d) d = Inr l"
    using assms(2) None by (cases "readFile (fault_now io d) d") (auto simp: fs_Save_def)
  then have "l = fs_contents d" using readFile_Inr [OF l] by (simp add: fs_contents_def)
  then show ?thesis
    using assms(2-4) None l writeFile_ok [of "fault_now io d" "tick d" "upsert p l" d'] by (simp add: fs_Save_def)
qed (use assms(2) in \<open>simp add: fs_Save_def\<close>)

theorem FileStore_save_durable_witness:
  "d_durable (fst (fs_Save (\<lambda>_. None) (fs_init NoFile) sample_provider)) = [Decoded [sample_provider]]"
proof -
  have "fs_inv (fs_init NoFile)" by (intro fs_init_inv) (simp add: good_file_def content_of_def)
  moreover have "snd (fs_Save (\<lambda>_. None) (fs_init NoFile) sample_provider) = None"
    by (simp add: fs_Save_def sample_provider_valid readFile_def fault_now_def writeFile_total)
  ultimately show ?thesis
    using FileStore_save_durable [of "fs_init NoFile" "\<lambda>_. None" sample_provider
        "fst (fs_Save (\<lambda>_. None) (fs_init NoFile) sample_provider)"]
    by (simp add: prod_eq_iff fault_now_def fs_contents_def content_of_def)
qed

end
