(* ===== verification/Health_Monitor.thy ===== *)
theory Health_Monitor
  imports Registry
begin

text \<open>
  \<open>internal/health/monitor\<close>: the per-provider state machine, the checkers and the monitor.  The monitor's
  methods are split at its mutex: what happens under the lock is one function, and \<open>mon_step\<close>
  interleaves those sections with the checks that run outside it.  A state machine is identified by its
  address, since the monitor compares pointers to discard checks of replaced registrations.
\<close>

section \<open>State machine\<close>

datatype check_result = CheckHealthy | CheckUnhealthy | CheckFailed

record state_machine =
  sm_state :: provider_status
  sm_failureCounter :: int
  sm_failureThreshold :: int

definition NewStateMachine :: "int \<Rightarrow> provider_status \<Rightarrow> state_machine" where
  "NewStateMachine failureThreshold initialState =
     \<lparr>sm_state = initialState, sm_failureCounter = 0, sm_failureThreshold = failureThreshold\<rparr>"

definition RecordResult :: "state_machine \<Rightarrow> check_result \<Rightarrow> state_machine \<times> provider_status \<times> provider_status" where
  "RecordResult sm result =
     (let from = sm_state sm;
          sm = (case result of
                  CheckHealthy \<Rightarrow> sm\<lparr>sm_failureCounter := 0, sm_state := Ready\<rparr>
                | CheckUnhealthy \<Rightarrow> sm\<lparr>sm_failureCounter := 0, sm_state := Unhealthy\<rparr>
                | CheckFailed \<Rightarrow>
                    (let sm = (if sm_state sm \<noteq> Unavailable
                               then sm\<lparr>sm_failureCounter := wrap64 (sm_failureCounter sm + 1)\<rparr> else sm)
                     in if sm_failureCounter sm \<ge> sm_failureThreshold sm
                        then sm\<lparr>sm_state := Unavailable\<rparr> else sm))
      in (sm, from, sm_state sm))"

section \<open>Checkers\<close>

datatype checker =
    ExternalChecker string \<comment> \<open>endpoint\<close>
  | EmbeddedEnvChecker string \<comment> \<open>environment variable\<close>
  | EmbeddedChecker string \<comment> \<open>in-process check supplied for a service type\<close>

definition NewExternalChecker :: "string \<Rightarrow> checker" where
  "NewExternalChecker endpoint = ExternalChecker (trim_right (\<lambda>c. c = CHR ''/'') endpoint)"

text \<open>What an HTTP health probe can give: an error before or during the request, or a status code with the
  decoded \<open>status\<close> field (\<^const>\<open>None\<close> if the body does not decode).\<close>

datatype http_probe = JoinPathError | NewRequestError | DoError | Response int "string option"

definition ExternalChecker_Check :: "http_probe \<Rightarrow> check_result" where
  "ExternalChecker_Check probe =
     (case probe of
        JoinPathError \<Rightarrow> CheckFailed
      | NewRequestError \<Rightarrow> CheckFailed
      | DoError \<Rightarrow> CheckFailed
      | Response code body \<Rightarrow>
          if code \<noteq> 200 then CheckFailed
          else case body of
                 None \<Rightarrow> CheckFailed
               | Some status \<Rightarrow>
                   if to_lower status = ''healthy'' then CheckHealthy
                   else if to_lower status = ''unhealthy'' then CheckUnhealthy
                   else CheckFailed)"

definition embedded_health_key :: "string \<Rightarrow> string" where
  "embedded_health_key serviceType = ''AGENT_EMBEDDED_SP_'' @ to_upper serviceType @ ''_HEALTH''"

definition DefaultEmbeddedCheckFn :: "(string \<Rightarrow> string) \<Rightarrow> string \<Rightarrow> check_result" where
  "DefaultEmbeddedCheckFn getenv key =
     (let val = to_lower (getenv key)
      in if val = '''' \<or> val = ''healthy'' then CheckHealthy
         else if val = ''unhealthy'' then CheckUnhealthy
         else CheckUnhealthy)"

section \<open>Monitor\<close>

record provider_entry =
  pe_addr :: nat
  pe_sm :: state_machine
  pe_checker :: checker
  pe_serviceType :: string

record monitor =
  m_failureThreshold :: int
  m_providers :: "string \<rightharpoonup> provider_entry"
  m_onTransition :: bool \<comment> \<open>a callback is set\<close>
  m_started :: bool
  m_stopped :: bool
  m_next :: nat \<comment> \<open>next state machine address\<close>

type_synonym transition = "string \<times> provider_status \<times> provider_status"

definition NewMonitor :: "int \<Rightarrow> monitor" where
  "NewMonitor failureThreshold =
     \<lparr>m_failureThreshold = failureThreshold, m_providers = Map.empty, m_onTransition = False,
      m_started = False, m_stopped = False, m_next = 0\<rparr>"

definition mon_Start :: "monitor \<Rightarrow> monitor" where
  "mon_Start m = (if m_stopped m \<or> m_started m then m else m\<lparr>m_started := True\<rparr>)"

definition mon_Stop :: "monitor \<Rightarrow> monitor" where
  "mon_Stop m = m\<lparr>m_stopped := True\<rparr>"

definition SetOnTransition :: "monitor \<Rightarrow> bool \<Rightarrow> monitor" where
  "SetOnTransition m fn = m\<lparr>m_onTransition := fn\<rparr>"

definition DeregisterProvider :: "monitor \<Rightarrow> string \<Rightarrow> monitor" where
  "DeregisterProvider m i = m\<lparr>m_providers := (m_providers m)(i := None)\<rparr>"

text \<open>The first locked section of \<open>RegisterProvider\<close>; \<^const>\<open>None\<close> is the early return of a stopped monitor.\<close>

definition register_entry :: "monitor \<Rightarrow> string \<Rightarrow> checker \<Rightarrow> string \<Rightarrow> provider_status \<Rightarrow> (monitor \<times> nat) option" where
  "register_entry m i chk serviceType initialState =
     (if m_stopped m then None
      else let a = m_next m;
               e = \<lparr>pe_addr = a, pe_sm = NewStateMachine (m_failureThreshold m) initialState,
                    pe_checker = chk, pe_serviceType = serviceType\<rparr>
           in Some (m\<lparr>m_providers := (m_providers m)(i \<mapsto> e), m_next := Suc a\<rparr>, a))"

text \<open>The locked section after a check: the result counts only if the provider is still registered with the
  same state machine.  The result lists the callback invocation, if there is one.\<close>

definition record_check :: "monitor \<Rightarrow> tracker \<Rightarrow> string \<Rightarrow> nat \<Rightarrow> check_result \<Rightarrow> time \<Rightarrow>
    monitor \<times> tracker \<times> transition list" where
  "record_check m t i a result now =
     (case m_providers m i of
        None \<Rightarrow> (m, t, [])
      | Some e \<Rightarrow>
          if pe_addr e \<noteq> a then (m, t, [])
          else let (sm, from, to) = RecordResult (pe_sm e) result
               in (m\<lparr>m_providers := (m_providers m)(i \<mapsto> e\<lparr>pe_sm := sm\<rparr>)\<rparr>,
                   SetState t i to now,
                   if from \<noteq> to \<and> m_onTransition m then [(i, from, to)] else []))"

definition checkProvider :: "monitor \<Rightarrow> tracker \<Rightarrow> string \<Rightarrow> nat \<Rightarrow> check_result \<Rightarrow> time \<Rightarrow>
    monitor \<times> tracker \<times> transition list" where
  "checkProvider m t i a result now = record_check m t i a result now"

definition initial_check :: "monitor \<Rightarrow> tracker \<Rightarrow> string \<Rightarrow> nat \<Rightarrow> check_result \<Rightarrow> time \<Rightarrow>
    monitor \<times> tracker \<times> transition list" where
  "initial_check m t i a result now =
     (if m_stopped m then (m, t, []) else record_check m t i a result now)"

text \<open>The whole call when nothing else runs in between; \<open>check\<close> is what the checker answers.\<close>

definition RegisterProvider :: "(checker \<Rightarrow> check_result) \<Rightarrow> time \<Rightarrow> monitor \<Rightarrow> tracker \<Rightarrow>
    string \<Rightarrow> checker \<Rightarrow> string \<Rightarrow> provider_status \<Rightarrow> bool \<Rightarrow> monitor \<times> tracker \<times> transition list" where
  "RegisterProvider check now m t i chk serviceType initialState initialCheck =
     (case register_entry m i chk serviceType initialState of
        None \<Rightarrow> (m, t, [])
      | Some (m, a) \<Rightarrow>
          if initialCheck then initial_check m t i a (check chk) now else (m, t, []))"

section \<open>Interleavings\<close>

text \<open>A check in flight: provider, state machine, and whether it is the initial check of a registration.  The
  system also keeps, as history, the results recorded by each state machine and the state each one
  started in; \<open>s_touched\<close> are the providers whose tracker entry was set or deleted by the service and
  whose registration or deregistration has not followed yet.\<close>

record mon_sys =
  s_mon :: monitor
  s_tracker :: tracker
  s_pending :: "(string \<times> nat \<times> bool) list"
  s_log :: "transition list"
  s_touched :: "string set"
  s_hist :: "nat \<Rightarrow> check_result list"
  s_init :: "nat \<Rightarrow> provider_status"

definition mon_init :: "int \<Rightarrow> mon_sys" where
  "mon_init failureThreshold =
     \<lparr>s_mon = NewMonitor failureThreshold, s_tracker = NewInMemoryHealthTracker, s_pending = [], s_log = [],
      s_touched = {}, s_hist = (\<lambda>_. []), s_init = (\<lambda>_. Unhealthy)\<rparr>"

definition current :: "monitor \<Rightarrow> string \<Rightarrow> nat \<Rightarrow> bool" where
  "current m i a \<longleftrightarrow> map_option pe_addr (m_providers m i) = Some a"

definition check_counts :: "mon_sys \<Rightarrow> string \<Rightarrow> nat \<Rightarrow> bool \<Rightarrow> bool" where
  "check_counts s i a initial \<longleftrightarrow> current (s_mon s) i a \<and> \<not> (initial \<and> m_stopped (s_mon s))"

inductive mon_step :: "mon_sys \<Rightarrow> mon_sys \<Rightarrow> bool" where
  set_state: "mon_step s (s\<lparr>s_tracker := SetState (s_tracker s) i Unhealthy 0, s_touched := insert i (s_touched s)\<rparr>)"
| delete_state: "mon_step s (s\<lparr>s_tracker := DeleteState (s_tracker s) i, s_touched := insert i (s_touched s)\<rparr>)"
| register: "register_entry (s_mon s) i chk st initialState = Some (m, a) \<Longrightarrow>
    mon_step s (s\<lparr>s_mon := m, s_touched := s_touched s - {i}, s_init := (s_init s)(a := initialState),
                  s_pending := (if initialCheck then s_pending s @ [(i, a, True)] else s_pending s)\<rparr>)"
| deregister: "mon_step s (s\<lparr>s_mon := DeregisterProvider (s_mon s) i, s_touched := s_touched s - {i}\<rparr>)"
| checkAll: "set ps = {(i, pe_addr e, False) | i e. m_providers (s_mon s) i = Some e} \<Longrightarrow>
    mon_step s (s\<lparr>s_pending := s_pending s @ ps\<rparr>)"
| complete: "s_pending s = xs @ (i, a, initial) # ys \<Longrightarrow>
    (if initial then initial_check (s_mon s) (s_tracker s) i a result now
     else checkProvider (s_mon s) (s_tracker s) i a result now) = (m, t, tr) \<Longrightarrow>
    mon_step s (s\<lparr>s_mon := m, s_tracker := t, s_log := s_log s @ tr, s_pending := xs @ ys,
                  s_hist := (if check_counts s i a initial then (s_hist s)(a := s_hist s a @ [result]) else s_hist s)\<rparr>)"
| start: "mon_step s (s\<lparr>s_mon := mon_Start (s_mon s)\<rparr>)"
| stop: "mon_step s (s\<lparr>s_mon := mon_Stop (s_mon s)\<rparr>)"
| callback: "mon_step s (s\<lparr>s_mon := SetOnTransition (s_mon s) fn\<rparr>)"

inductive mon_reach :: "int \<Rightarrow> mon_sys \<Rightarrow> bool" for failureThreshold where
  mon_reach_init: "mon_reach failureThreshold (mon_init failureThreshold)"
| mon_reach_step: "mon_reach failureThreshold s \<Longrightarrow> mon_step s s' \<Longrightarrow> mon_reach failureThreshold s'"

section \<open>What the state machine computes\<close>

text \<open>The specification: the number of failed checks at the end of the history, and the last status that a
  check reported.\<close>

definition trailing_failures :: "check_result list \<Rightarrow> nat" where
  "trailing_failures rs = length (takeWhile (\<lambda>r. r = CheckFailed) (rev rs))"

fun reported :: "provider_status \<Rightarrow> check_result list \<Rightarrow> provider_status" where
  "reported s [] = s"
| "reported s (CheckHealthy # rs) = reported Ready rs"
| "reported s (CheckUnhealthy # rs) = reported Unhealthy rs"
| "reported s (CheckFailed # rs) = reported s rs"

definition health_spec :: "int \<Rightarrow> provider_status \<Rightarrow> check_result list \<Rightarrow> provider_status" where
  "health_spec threshold s0 rs =
     (if trailing_failures rs > 0 \<and> int (trailing_failures rs) \<ge> threshold then Unavailable else reported s0 rs)"

definition sm_run :: "state_machine \<Rightarrow> check_result list \<Rightarrow> state_machine" where
  "sm_run sm rs = foldl (\<lambda>sm r. fst (RecordResult sm r)) sm rs"

lemma trailing_snoc [simp]:
  "trailing_failures (rs @ [r]) = (if r = CheckFailed then Suc (trailing_failures rs) else 0)"
  by (simp add: trailing_failures_def)

lemma trailing_Nil [simp]: "trailing_failures [] = 0"
  by (simp add: trailing_failures_def)

lemma reported_snoc [simp]:
  "reported s (rs @ [r]) =
     (case r of CheckHealthy \<Rightarrow> Ready | CheckUnhealthy \<Rightarrow> Unhealthy | CheckFailed \<Rightarrow> reported s rs)"
  by (induction s rs rule: reported.induct) (auto split: check_result.splits)

lemma sm_run_snoc [simp]: "sm_run sm (rs @ [r]) = fst (RecordResult (sm_run sm rs) r)"
  by (simp add: sm_run_def)

lemma RecordResult_threshold [simp]:
  "sm_failureThreshold (fst (RecordResult sm r)) = sm_failureThreshold sm"
  by (cases r) (simp_all add: RecordResult_def Let_def)

lemma RecordResult_from_to [simp]:
  "fst (snd (RecordResult sm r)) = sm_state sm"
  "snd (snd (RecordResult sm r)) = sm_state (fst (RecordResult sm r))"
  by (simp_all add: RecordResult_def Let_def)

lemma RecordResult_failed:
  assumes "sm_state sm \<noteq> Unavailable" and "int64 (sm_failureCounter sm + 1)"
  shows "fst (RecordResult sm CheckFailed) =
    (if sm_failureCounter sm + 1 \<ge> sm_failureThreshold sm
     then sm\<lparr>sm_failureCounter := sm_failureCounter sm + 1, sm_state := Unavailable\<rparr>
     else sm\<lparr>sm_failureCounter := sm_failureCounter sm + 1\<rparr>)"
  using assms by (simp add: RecordResult_def Let_def)

lemma RecordResult_failed_unavailable:
  "sm_state sm = Unavailable \<Longrightarrow> sm_state (fst (RecordResult sm CheckFailed)) = Unavailable"
  by (simp add: RecordResult_def Let_def)

lemma sm_run_inv:
  assumes "int64 k"
  shows "sm_failureThreshold (sm_run (NewStateMachine k s0) rs) = k \<and>
    sm_state (sm_run (NewStateMachine k s0) rs) = health_spec k s0 rs \<and>
    (health_spec k s0 rs \<noteq> Unavailable \<longrightarrow>
       sm_failureCounter (sm_run (NewStateMachine k s0) rs) = int (trailing_failures rs) \<and>
       (trailing_failures rs > 0 \<longrightarrow> int (trailing_failures rs) < k))"
proof (induction rs rule: rev_induct)
  case Nil
  then show ?case by (simp add: sm_run_def NewStateMachine_def health_spec_def)
next
  case (snoc r rs)
  let ?sm = "sm_run (NewStateMachine k s0) rs"
  show ?case
  proof (cases r)
    case CheckFailed
    show ?thesis
    proof (cases "health_spec k s0 rs = Unavailable")
      case True
      then have "health_spec k s0 (rs @ [r]) = Unavailable"
        using CheckFailed by (auto simp: health_spec_def split: if_splits)
      then show ?thesis using snoc True CheckFailed by (simp add: RecordResult_failed_unavailable)
    next
      case False
      then have n: "sm_failureCounter ?sm = int (trailing_failures rs)"
        "trailing_failures rs > 0 \<longrightarrow> int (trailing_failures rs) < k" "reported s0 rs \<noteq> Unavailable"
        using snoc by (auto simp: health_spec_def split: if_splits)
      then have "int64 (sm_failureCounter ?sm + 1)"
        using assms by (cases "trailing_failures rs = 0") (auto simp: int64_def)
      then show ?thesis
        using snoc False CheckFailed n RecordResult_failed [of ?sm]
        by (auto simp: health_spec_def split: if_splits)
    qed
  qed (use snoc in \<open>auto simp: RecordResult_def Let_def health_spec_def\<close>)
qed

text \<open>C4: after any sequence of checks the state machine is \<open>Unavailable\<close> exactly when the last
  \<open>failureThreshold\<close> checks (at least one) all failed, or it started so and no check ever answered; otherwise
  it is in the state that the last check to answer reported (or its initial state).  The failure counter
  never overflows.\<close>

theorem StateMachine_spec:
  assumes "int64 k"
  shows "sm_state (sm_run (NewStateMachine k s0) rs) = health_spec k s0 rs"
  using sm_run_inv [OF assms] by blast

theorem StateMachine_spec_witness:
  "int64 2 \<and> sm_state (sm_run (NewStateMachine 2 Ready) [CheckFailed, CheckUnhealthy, CheckFailed]) = Unhealthy \<and>
   sm_state (sm_run (NewStateMachine 2 Ready) [CheckHealthy, CheckFailed, CheckFailed]) = Unavailable"
proof -
  have i: "int64 2" by (simp add: int64_def)
  then show ?thesis
    using StateMachine_spec [OF i, of Ready "[CheckFailed, CheckUnhealthy, CheckFailed]"]
      StateMachine_spec [OF i, of Ready "[CheckHealthy, CheckFailed, CheckFailed]"]
    by (simp add: health_spec_def trailing_failures_def)
qed

section \<open>The tracker under interleaving\<close>

definition entry_ok :: "int \<Rightarrow> mon_sys \<Rightarrow> string \<Rightarrow> provider_entry \<Rightarrow> bool" where
  "entry_ok k s i e \<longleftrightarrow>
     pe_addr e < m_next (s_mon s) \<and>
     pe_sm e = sm_run (NewStateMachine k (s_init s (pe_addr e))) (s_hist s (pe_addr e)) \<and>
     (i \<noteq> '''' \<and> i \<notin> s_touched s \<and> s_hist s (pe_addr e) \<noteq> [] \<longrightarrow>
        map_option hs_status (s_tracker s i) = Some (sm_state (pe_sm e)))"

definition addr_inj :: "(string \<rightharpoonup> provider_entry) \<Rightarrow> bool" where
  "addr_inj p \<longleftrightarrow> (\<forall>i j e e'. p i = Some e \<longrightarrow> p j = Some e' \<longrightarrow> pe_addr e = pe_addr e' \<longrightarrow> i = j)"

lemma addr_inj_upd:
  assumes "addr_inj p" and "\<And>j e'. j \<noteq> i \<Longrightarrow> p j = Some e' \<Longrightarrow> pe_addr e' \<noteq> pe_addr e"
  shows "addr_inj (p(i \<mapsto> e))"
  unfolding addr_inj_def
proof (intro allI impI)
  fix j l e1 e2
  assume "(p(i \<mapsto> e)) j = Some e1" "(p(i \<mapsto> e)) l = Some e2" "pe_addr e1 = pe_addr e2"
  then show "j = l"
    using assms(1) assms(2) [of j e1] assms(2) [of l e2] unfolding addr_inj_def
    by (cases "j = i"; cases "l = i") auto
qed

definition mon_inv :: "int \<Rightarrow> mon_sys \<Rightarrow> bool" where
  "mon_inv k s \<longleftrightarrow>
     m_failureThreshold (s_mon s) = k \<and>
     (\<forall>i e. m_providers (s_mon s) i = Some e \<longrightarrow> entry_ok k s i e) \<and>
     addr_inj (m_providers (s_mon s)) \<and>
     (\<forall>a \<ge> m_next (s_mon s). s_hist s a = [])"

lemma mon_invI:
  assumes "m_failureThreshold (s_mon s) = k"
    and "\<And>i e. m_providers (s_mon s) i = Some e \<Longrightarrow> entry_ok k s i e"
    and "addr_inj (m_providers (s_mon s))"
    and "\<And>a. a \<ge> m_next (s_mon s) \<Longrightarrow> s_hist s a = []"
  shows "mon_inv k s"
  unfolding mon_inv_def using assms by blast

lemma mon_inv_dest:
  assumes "mon_inv k s"
  shows "m_failureThreshold (s_mon s) = k"
    and "m_providers (s_mon s) i = Some e \<Longrightarrow> entry_ok k s i e"
    and "addr_inj (m_providers (s_mon s))"
    and "a \<ge> m_next (s_mon s) \<Longrightarrow> s_hist s a = []"
  using assms unfolding mon_inv_def by blast+

lemma mon_inv_register:
  assumes inv: "mon_inv k s" and reg: "register_entry (s_mon s) i chk st s0 = Some (m, a)"
  shows "mon_inv k (s\<lparr>s_mon := m, s_touched := s_touched s - {i}, s_init := (s_init s)(a := s0), s_pending := ps\<rparr>)"
    (is "mon_inv k ?s")
proof -
  let ?e = "\<lparr>pe_addr = a, pe_sm = NewStateMachine k s0, pe_checker = chk, pe_serviceType = st\<rparr>"
  have a: "a = m_next (s_mon s)" "m_next m = Suc a" "m_failureThreshold m = k"
    and p: "m_providers m = (m_providers (s_mon s))(i \<mapsto> ?e)"
    using reg mon_inv_dest(1) [OF inv] by (auto simp: register_entry_def Let_def split: if_splits)
  have fresh: "s_hist s a = []" using mon_inv_dest(4) [OF inv] a(1) by simp
  have old: "pe_addr e < a" if "m_providers (s_mon s) j = Some e" for j e
    using mon_inv_dest(2) [OF inv that] a(1) by (simp add: entry_ok_def)
  show ?thesis
  proof (rule mon_invI)
    fix j e assume j: "m_providers (s_mon ?s) j = Some e"
    show "entry_ok k ?s j e"
    proof (cases "j = i")
      case True
      then have "e = ?e" using j p by simp
      then show ?thesis using a fresh True by (simp add: entry_ok_def sm_run_def)
    next
      case False
      then have e: "m_providers (s_mon s) j = Some e" using j p by simp
      then show ?thesis using mon_inv_dest(2) [OF inv e] False a old [OF e] by (auto simp: entry_ok_def)
    qed
  next
    show "addr_inj (m_providers (s_mon ?s))"
      using addr_inj_upd [OF mon_inv_dest(3) [OF inv], of i ?e] old by (force simp: p)
  qed (use a mon_inv_dest(4) [OF inv] in auto)
qed

lemma mon_inv_check:
  assumes inv: "mon_inv k s" and chk: "record_check (s_mon s) (s_tracker s) i a r now = (m, t, tr)"
    and cur: "current (s_mon s) i a"
  shows "mon_inv k (s\<lparr>s_mon := m, s_tracker := t, s_log := l, s_pending := ps,
      s_hist := (s_hist s)(a := s_hist s a @ [r])\<rparr>)" (is "mon_inv k ?s")
proof -
  obtain e where e: "m_providers (s_mon s) i = Some e" "pe_addr e = a"
    using cur by (auto simp: current_def)
  let ?e = "e\<lparr>pe_sm := fst (RecordResult (pe_sm e) r)\<rparr>"
  have m: "m = (s_mon s)\<lparr>m_providers := (m_providers (s_mon s))(i \<mapsto> ?e)\<rparr>"
    and t: "t = SetState (s_tracker s) i (sm_state (pe_sm ?e)) now"
    using chk e by (auto simp: record_check_def case_prod_unfold Let_def)
  have ok: "entry_ok k s i e" by (rule mon_inv_dest(2) [OF inv e(1)])
  have other: "pe_addr e' \<noteq> a" if "j \<noteq> i" "m_providers (s_mon s) j = Some e'" for j e'
    using mon_inv_dest(3) [OF inv] that e unfolding addr_inj_def by blast
  show ?thesis
  proof (rule mon_invI)
    fix j e' assume j: "m_providers (s_mon ?s) j = Some e'"
    show "entry_ok k ?s j e'"
    proof (cases "j = i")
      case True
      then show ?thesis using j e ok by (auto simp: entry_ok_def m t SetState_def)
    next
      case False
      then have e': "m_providers (s_mon s) j = Some e'" using j m by simp
      then show ?thesis using mon_inv_dest(2) [OF inv e'] False other [OF False e']
        by (auto simp: entry_ok_def m t SetState_def)
    qed
  next
    show "addr_inj (m_providers (s_mon ?s))"
      using addr_inj_upd [OF mon_inv_dest(3) [OF inv], of i ?e] other e(2) by (simp add: m)
  next
    fix b assume "m_next (s_mon ?s) \<le> b"
    then show "s_hist ?s b = []" using ok e mon_inv_dest(4) [OF inv, of b] by (auto simp: m entry_ok_def)
  qed (use mon_inv_dest(1) [OF inv] m in simp)
qed

lemma mon_inv_frame:
  assumes "mon_inv k s"
    and "m_failureThreshold (s_mon s') = m_failureThreshold (s_mon s)" "m_next (s_mon s') = m_next (s_mon s)"
    and "s_hist s' = s_hist s" "s_init s' = s_init s"
    and "\<And>i e. m_providers (s_mon s') i = Some e \<Longrightarrow> m_providers (s_mon s) i = Some e \<and>
      (i \<notin> s_touched s' \<longrightarrow> i \<notin> s_touched s \<and> s_tracker s' i = s_tracker s i)"
  shows "mon_inv k s'"
proof (rule mon_invI)
  fix i e assume e: "m_providers (s_mon s') i = Some e"
  show "entry_ok k s' i e"
    using assms(3-5) assms(6) [OF e] mon_inv_dest(2) [OF assms(1), of i e] by (auto simp: entry_ok_def)
next
  show "addr_inj (m_providers (s_mon s'))"
    using assms(6) mon_inv_dest(3) [OF assms(1)] unfolding addr_inj_def by blast
qed (use assms mon_inv_dest [OF assms(1)] in simp_all)

lemma stale_check:
  "\<not> current m i a \<Longrightarrow> record_check m t i a r now = (m, t, [])"
  by (auto simp: record_check_def current_def split: option.splits)

lemma mon_step_inv: "mon_step s s' \<Longrightarrow> mon_inv k s \<Longrightarrow> mon_inv k s'"
proof (induction rule: mon_step.induct)
  case (register s i chk st s0 m a initialCheck)
  then show ?case using mon_inv_register by blast
next
  case (complete s xs i a initial ys result now m t tr)
  show ?case
  proof (cases "check_counts s i a initial")
    case True
    then have "record_check (s_mon s) (s_tracker s) i a result now = (m, t, tr)" "current (s_mon s) i a"
      using complete.hyps(2) by (auto simp: check_counts_def initial_check_def checkProvider_def split: if_splits)
    then show ?thesis using mon_inv_check [OF complete.prems] True by simp
  next
    case False
    then have "m = s_mon s" "t = s_tracker s"
      using complete.hyps(2) stale_check
      by (auto simp: check_counts_def initial_check_def checkProvider_def split: if_splits)
    then show ?thesis using False complete.prems by (intro mon_inv_frame [OF complete.prems]) simp_all
  qed
qed (auto elim!: mon_inv_frame simp: SetState_def DeleteState_def DeregisterProvider_def mon_Start_def mon_Stop_def
      SetOnTransition_def split: if_splits)

lemma mon_reach_inv: "mon_reach k s \<Longrightarrow> mon_inv k s"
proof (induction rule: mon_reach.induct)
  case mon_reach_init
  show ?case by (rule mon_invI) (simp_all add: mon_init_def NewMonitor_def addr_inj_def)
qed (blast intro: mon_step_inv)

text \<open>C3: in every interleaving of registrations, deregistrations, periodic checks, initial checks and stopping,
  the status that the health tracker shows for a monitored provider is the specified status of the
  checks recorded for its current registration: checks of earlier registrations of the same id never
  show through, however late they complete.  (The exceptions are a provider not checked yet and the
  moment between the service resetting the entry and registering the provider anew.)\<close>

theorem Monitor_tracker_status:
  assumes "mon_reach k s" and "int64 k"
    and "m_providers (s_mon s) i = Some e" and "i \<noteq> ''''" and "i \<notin> s_touched s" and "s_hist s (pe_addr e) \<noteq> []"
  shows "\<exists>h. GetState (s_tracker s) i = Some h \<and>
    hs_status h = health_spec k (s_init s (pe_addr e)) (s_hist s (pe_addr e))"
  using mon_inv_dest(2) [OF mon_reach_inv [OF assms(1)] assms(3)] assms sm_run_inv [OF assms(2)]
  by (auto simp: entry_ok_def GetState_def)

definition sample_registered :: mon_sys where
  "sample_registered = (mon_init 3)\<lparr>
     s_mon := fst (the (register_entry (NewMonitor 3) ''a'' (ExternalChecker ''e'') ''vm'' Unhealthy)),
     s_touched := {}, s_init := (\<lambda>_. Unhealthy)(0 := Unhealthy), s_pending := [(''a'', 0, True)]\<rparr>"

lemma sample_registered_reach: "mon_reach 3 sample_registered"
proof -
  have "register_entry (s_mon (mon_init 3)) ''a'' (ExternalChecker ''e'') ''vm'' Unhealthy =
      Some (fst (the (register_entry (NewMonitor 3) ''a'' (ExternalChecker ''e'') ''vm'' Unhealthy)), 0)"
    by (simp add: mon_init_def NewMonitor_def register_entry_def Let_def)
  from mon_reach_step [OF mon_reach_init mon_step.register [OF this, of True]]
  show ?thesis by (simp add: sample_registered_def mon_init_def)
qed

theorem Monitor_tracker_status_witness:
  "\<exists>s e h. mon_reach 3 s \<and> m_providers (s_mon s) ''a'' = Some e \<and> s_hist s (pe_addr e) = [CheckHealthy] \<and>
     GetState (s_tracker s) ''a'' = Some h \<and> hs_status h = Ready"
proof -
  let ?s = "sample_registered"
  let ?c = "initial_check (s_mon ?s) (s_tracker ?s) ''a'' 0 CheckHealthy 7"
  have "mon_step ?s (?s\<lparr>s_mon := fst ?c, s_tracker := fst (snd ?c), s_log := s_log ?s @ snd (snd ?c), s_pending := [] @ [],
      s_hist := (if check_counts ?s ''a'' 0 True then (s_hist ?s)(0 := s_hist ?s 0 @ [CheckHealthy]) else s_hist ?s)\<rparr>)"
    (is "mon_step _ ?s'")
    by (rule mon_step.complete [where result = CheckHealthy and now = 7]) (simp_all add: sample_registered_def)
  then have r: "mon_reach 3 ?s'" by (rule mon_reach_step [OF sample_registered_reach])
  have "\<exists>e. m_providers (s_mon ?s') ''a'' = Some e \<and> pe_addr e = 0"
    by (simp add: sample_registered_def NewMonitor_def register_entry_def Let_def initial_check_def record_check_def
        case_prod_unfold)
  then obtain e where e: "m_providers (s_mon ?s') ''a'' = Some e" "pe_addr e = 0" by blast
  have h: "s_hist ?s' 0 = [CheckHealthy]"
    by (simp add: sample_registered_def NewMonitor_def register_entry_def Let_def check_counts_def current_def mon_init_def)
  moreover have "''a'' \<notin> s_touched ?s'" by (simp add: sample_registered_def)
  ultimately show ?thesis
    using Monitor_tracker_status [OF r _ e(1)] r e
    by (auto simp: int64_def health_spec_def trailing_failures_def)
qed

end
