(* ===== verification/Provider_Service.thy ===== *)
theory Provider_Service
  imports Registry File_Store Health_Monitor
begin

text \<open>
  \<open>internal/provider/service/service.go\<close>: registration of external and embedded providers over the registry,
  the file store, the health tracker and the monitor.  \<open>ProviderService.mu\<close> serialises \<open>Register\<close>, so each
  method is one function on the service state.  What the surroundings answer (file-system faults, the
  clock, fresh UUIDs, health checks) comes from \<open>svc_env\<close>, indexed by the number of store calls so far.
  Log records are not modelled.
\<close>

section \<open>State, inputs and results\<close>

record svc_env =
  e_io :: "nat \<Rightarrow> fs_fault option"
  e_now :: "nat \<Rightarrow> time"
  e_uuid :: "nat \<Rightarrow> string"
  e_check :: "nat \<Rightarrow> checker \<Rightarrow> check_result"
  e_metadata :: "json \<Rightarrow> json option" \<comment> \<open>decoding into \<open>v1alpha1.ProviderMetadata\<close>\<close>

record svc =
  v_disk :: disk
  v_registry :: registry
  v_tracker :: tracker
  v_mon :: "monitor option"
  v_onChange :: bool
  v_changes :: nat \<comment> \<open>invocations of \<open>onChange\<close>\<close>
  v_embeddedCheckers :: "string \<rightharpoonup> checker"
  v_transitions :: "transition list"

record registration_input =
  in_Name :: string
  in_Endpoint :: string
  in_ServiceType :: string
  in_SchemaVersion :: string
  in_DisplayName :: "string option"
  in_ProviderID :: "string option"
  in_Operations :: "string list option"
  in_Metadata :: "json option"

datatype svc_error =
    ConflictIDMismatch string string \<comment> \<open>existing, requested\<close>
  | ConflictIDInUse string string \<comment> \<open>id, holder\<close>
  | ConflictSlot registry_error
  | ValidationEmptyID
  | NotFoundID string
  | StoreError store_error

record api_provider =
  ap_Id :: string
  ap_Path :: string
  ap_Name :: string
  ap_Endpoint :: string
  ap_ServiceType :: string
  ap_SchemaVersion :: string
  ap_DisplayName :: "string option"
  ap_Operations :: "string list option"
  ap_Type :: string
  ap_CreateTime :: time
  ap_UpdateTime :: time
  ap_Status :: provider_status
  ap_LastCheckTime :: "time option"
  ap_Metadata :: "json option"

definition svc_New :: "disk \<Rightarrow> registry \<Rightarrow> tracker \<Rightarrow> monitor option \<Rightarrow> svc" where
  "svc_New d r t m = \<lparr>v_disk = d, v_registry = r, v_tracker = t, v_mon = m, v_onChange = False, v_changes = 0,
     v_embeddedCheckers = Map.empty, v_transitions = []\<rparr>"

definition svc_SetOnChange :: "svc \<Rightarrow> bool \<Rightarrow> svc" where
  "svc_SetOnChange s fn = s\<lparr>v_onChange := fn\<rparr>"

definition notifyChange :: "svc \<Rightarrow> svc" where
  "notifyChange s = (if v_onChange s then s\<lparr>v_changes := Suc (v_changes s)\<rparr> else s)"


definition svc_clock :: "svc \<Rightarrow> nat" where
  "svc_clock s = d_clock (v_disk s)"

section \<open>Reading\<close>

definition toAPI :: "svc_env \<Rightarrow> svc \<Rightarrow> stored_provider \<Rightarrow> api_provider" where
  "toAPI env s sp =
     \<lparr>ap_Id = sp_ID sp, ap_Path = ''providers/'' @ sp_ID sp, ap_Name = sp_Name sp, ap_Endpoint = sp_Endpoint sp,
      ap_ServiceType = sp_ServiceType sp, ap_SchemaVersion = sp_SchemaVersion sp, ap_DisplayName = sp_DisplayName sp,
      ap_Operations = sp_Operations sp, ap_Type = sp_Type sp, ap_CreateTime = sp_CreateTime sp,
      ap_UpdateTime = sp_UpdateTime sp,
      ap_Status = (case GetState (v_tracker s) (sp_ID sp) of Some h \<Rightarrow> hs_status h | None \<Rightarrow> Unavailable),
      ap_LastCheckTime =
        (case GetState (v_tracker s) (sp_ID sp) of
           Some h \<Rightarrow> if hs_last_check h = 0 then None else Some (hs_last_check h)
         | None \<Rightarrow> None),
      ap_Metadata = Option.bind (sp_Metadata sp) (e_metadata env)\<rparr>"

definition svc_List :: "svc_env \<Rightarrow> svc \<Rightarrow> svc \<times> (svc_error + api_provider list)" where
  "svc_List env s =
     (let (d, r) = fs_List (e_io env) (v_disk s); s = s\<lparr>v_disk := d\<rparr>
      in case r of
           Inl e \<Rightarrow> (s, Inl (StoreError e))
         | Inr stored \<Rightarrow> (s, Inr (map (toAPI env s) stored)))"

definition svc_Get :: "svc_env \<Rightarrow> svc \<Rightarrow> string \<Rightarrow> svc \<times> (svc_error + api_provider)" where
  "svc_Get env s i =
     (let (d, r) = fs_GetByID (e_io env) (v_disk s) i; s = s\<lparr>v_disk := d\<rparr>
      in case r of
           Inl e \<Rightarrow> (s, Inl (StoreError e))
         | Inr None \<Rightarrow> (s, Inl (NotFoundID i))
         | Inr (Some sp) \<Rightarrow> (s, Inr (toAPI env s sp)))"

section \<open>Registration of external providers\<close>

definition mon_register :: "svc_env \<Rightarrow> svc \<Rightarrow> string \<Rightarrow> checker \<Rightarrow> string \<Rightarrow> provider_status \<Rightarrow> bool \<Rightarrow> monitor \<Rightarrow> svc" where
  "mon_register env s i chk serviceType initialState initialCheck m =
     (let (m, t, tr) = RegisterProvider (e_check env (svc_clock s)) (e_now env (svc_clock s)) m (v_tracker s)
                         i chk serviceType initialState initialCheck
      in s\<lparr>v_mon := Some m, v_tracker := t, v_transitions := v_transitions s @ tr\<rparr>)"

definition trackExternalProvider :: "svc_env \<Rightarrow> svc \<Rightarrow> string \<Rightarrow> string \<Rightarrow> string \<Rightarrow> bool \<Rightarrow> svc" where
  "trackExternalProvider env s i endpoint serviceType initialCheck =
     (let s = s\<lparr>v_tracker := SetState (v_tracker s) i Unhealthy 0\<rparr>
      in case v_mon s of
           None \<Rightarrow> s
         | Some m \<Rightarrow> mon_register env s i (NewExternalChecker endpoint) serviceType Unhealthy initialCheck m)"

definition ensureIDConsistency :: "string \<Rightarrow> string option \<Rightarrow> svc_error option" where
  "ensureIDConsistency existingID requestedID =
     (case requestedID of
        None \<Rightarrow> None
      | Some r \<Rightarrow> if r = existingID then None else Some (ConflictIDMismatch existingID r))"

definition assignProviderID :: "svc_env \<Rightarrow> svc \<Rightarrow> string option \<Rightarrow> svc \<times> (svc_error + string)" where
  "assignProviderID env s requestedID =
     (case requestedID of
        None \<Rightarrow> (s, Inr (e_uuid env (svc_clock s)))
      | Some r \<Rightarrow>
          if r = '''' then (s, Inl ValidationEmptyID)
          else let (d, h) = fs_GetByID (e_io env) (v_disk s) r; s = s\<lparr>v_disk := d\<rparr>
               in case h of
                    Inl e \<Rightarrow> (s, Inl (StoreError e))
                  | Inr (Some holder) \<Rightarrow> (s, Inl (ConflictIDInUse r (sp_Name holder)))
                  | Inr None \<Rightarrow> (s, Inr r))"

definition apply_update :: "stored_provider \<Rightarrow> registration_input \<Rightarrow> time \<Rightarrow> stored_provider" where
  "apply_update existing inp now = existing\<lparr>
     sp_Endpoint := in_Endpoint inp, sp_ServiceType := in_ServiceType inp, sp_SchemaVersion := in_SchemaVersion inp,
     sp_DisplayName := in_DisplayName inp, sp_Operations := in_Operations inp, sp_Metadata := in_Metadata inp,
     sp_UpdateTime := now\<rparr>"

definition updateRegistration :: "svc_env \<Rightarrow> svc \<Rightarrow> stored_provider \<Rightarrow> registration_input \<Rightarrow>
    svc \<times> (svc_error + api_provider)" where
  "updateRegistration env s existing inp =
     (let oldServiceType = sp_ServiceType existing; oldEndpoint = sp_Endpoint existing;
          moves = (oldServiceType \<noteq> in_ServiceType inp);
          (reg, e) = (if moves then Move (v_registry s) (sp_Name existing) oldServiceType (in_ServiceType inp)
                      else (v_registry s, None))
      in case e of
           Some e \<Rightarrow> (s, Inl (ConflictSlot e))
         | None \<Rightarrow>
             let p = apply_update existing inp (e_now env (svc_clock s));
                 (d, e) = fs_Save (e_io env) (v_disk s) p
             in case e of
                  Some e \<Rightarrow>
                    (s\<lparr>v_disk := d,
                       v_registry := (if moves then fst (Move reg (sp_Name existing) (in_ServiceType inp) oldServiceType) else reg)\<rparr>,
                     Inl (StoreError e))
                | None \<Rightarrow>
                    let s = s\<lparr>v_disk := d, v_registry := reg\<rparr>;
                        s = (if oldEndpoint \<noteq> in_Endpoint inp \<or> moves
                             then trackExternalProvider env s (sp_ID existing) (in_Endpoint inp) (in_ServiceType inp) True
                             else s)
                    in (s, Inr (toAPI env s p)))"

definition new_record :: "string \<Rightarrow> registration_input \<Rightarrow> time \<Rightarrow> stored_provider" where
  "new_record i inp now = \<lparr>sp_ID = i, sp_Name = in_Name inp, sp_Endpoint = in_Endpoint inp,
     sp_ServiceType = in_ServiceType inp, sp_SchemaVersion = in_SchemaVersion inp, sp_DisplayName = in_DisplayName inp,
     sp_Operations = in_Operations inp, sp_Metadata = in_Metadata inp, sp_Type = ''external'',
     sp_CreateTime = now, sp_UpdateTime = now\<rparr>"

definition createRegistration :: "svc_env \<Rightarrow> svc \<Rightarrow> string \<Rightarrow> registration_input \<Rightarrow> svc \<times> (svc_error + api_provider)" where
  "createRegistration env s i inp =
     (let (reg, e) = Claim (v_registry s) (in_Name inp) (in_ServiceType inp)
      in case e of
           Some e \<Rightarrow> (s, Inl (ConflictSlot e))
         | None \<Rightarrow>
             let sp = new_record i inp (e_now env (svc_clock s));
                 (d, e) = fs_Save (e_io env) (v_disk s) sp
             in case e of
                  Some e \<Rightarrow> (s\<lparr>v_disk := d, v_registry := Release reg (in_ServiceType inp)\<rparr>, Inl (StoreError e))
                | None \<Rightarrow>
                    let s = trackExternalProvider env (s\<lparr>v_disk := d, v_registry := reg\<rparr>) i (in_Endpoint inp)
                              (in_ServiceType inp) True
                    in (s, Inr (toAPI env s sp)))"

definition registerLocked :: "svc_env \<Rightarrow> svc \<Rightarrow> registration_input \<Rightarrow> svc \<times> (svc_error + api_provider \<times> bool)" where
  "registerLocked env s inp =
     (let (d, x) = fs_GetByName (e_io env) (v_disk s) (in_Name inp); s = s\<lparr>v_disk := d\<rparr>
      in case x of
           Inl e \<Rightarrow> (s, Inl (StoreError e))
         | Inr (Some existing) \<Rightarrow>
             (case ensureIDConsistency (sp_ID existing) (in_ProviderID inp) of
                Some e \<Rightarrow> (s, Inl e)
              | None \<Rightarrow> map_prod id (map_sum id (\<lambda>p. (p, False))) (updateRegistration env s existing inp))
         | Inr None \<Rightarrow>
             (case assignProviderID env s (in_ProviderID inp) of
                (s, Inl e) \<Rightarrow> (s, Inl e)
              | (s, Inr i) \<Rightarrow> map_prod id (map_sum id (\<lambda>p. (p, True))) (createRegistration env s i inp)))"

definition Register :: "svc_env \<Rightarrow> svc \<Rightarrow> registration_input \<Rightarrow> svc \<times> (svc_error + api_provider \<times> bool)" where
  "Register env s inp =
     (case registerLocked env s inp of
        (s, Inl e) \<Rightarrow> (s, Inl e)
      | (s, Inr r) \<Rightarrow> (notifyChange s, Inr r))"

section \<open>Startup\<close>

definition load_one :: "svc_env \<Rightarrow> svc \<Rightarrow> stored_provider \<Rightarrow> svc" where
  "load_one env s p =
     (if sp_Type p \<noteq> ''external'' then s
      else case Claim (v_registry s) (sp_Name p) (sp_ServiceType p) of
             (_, Some _) \<Rightarrow> s
           | (reg, None) \<Rightarrow>
               trackExternalProvider env (s\<lparr>v_registry := reg\<rparr>) (sp_ID p) (sp_Endpoint p) (sp_ServiceType p) False)"

definition LoadPersisted :: "svc_env \<Rightarrow> svc \<Rightarrow> svc \<times> svc_error option" where
  "LoadPersisted env s =
     (let (d, r) = fs_List (e_io env) (v_disk s); s = s\<lparr>v_disk := d\<rparr>
      in case r of
           Inl e \<Rightarrow> (s, Some (StoreError e))
         | Inr providers \<Rightarrow> (foldl (load_one env) s providers, None))"









definition AdvertisableServiceTypes :: "svc_env \<Rightarrow> svc \<Rightarrow> svc \<times> string list" where
  "AdvertisableServiceTypes env s =
     (case svc_List env s of
        (s, Inl _) \<Rightarrow> (s, [])
      | (s, Inr providers) \<Rightarrow> (s, map ap_ServiceType (filter (\<lambda>p. ap_Status p \<noteq> Unavailable) providers)))"

section \<open>Registry and store agree\<close>

definition slots_match :: "registry \<Rightarrow> stored_provider list \<Rightarrow> bool" where
  "slots_match r ps \<longleftrightarrow>
     (\<forall>t n. Lookup r t = Some n \<longleftrightarrow> (\<exists>p \<in> set ps. sp_ServiceType p = t \<and> sp_Name p = n))"

definition svc_ok :: "svc \<Rightarrow> bool" where
  "svc_ok s \<longleftrightarrow> fs_inv (v_disk s) \<and> slots_match (v_registry s) (fs_contents (v_disk s))"

lemma slots_match_cong: "Lookup r' = Lookup r \<Longrightarrow> slots_match r' ps = slots_match r ps"
  by (simp add: slots_match_def)

lemma slots_matchD: "slots_match r ps \<Longrightarrow> p \<in> set ps \<Longrightarrow> Lookup r (sp_ServiceType p) = Some (sp_Name p)"
  by (auto simp: slots_match_def)

lemma slots_matchE:
  assumes "slots_match r ps" and "Lookup r t = Some n"
  obtains p where "p \<in> set ps" "sp_ServiceType p = t" "sp_Name p = n"
  using assms by (auto simp: slots_match_def)

lemma same_name:
  "distinct (map sp_Name ps) \<Longrightarrow> p \<in> set ps \<Longrightarrow> q \<in> set ps \<Longrightarrow> sp_Name p = sp_Name q \<Longrightarrow> p = q"
  by (metis distinct_map inj_onD)

lemma slots_match_update:
  assumes m: "slots_match r ps" and d: "distinct (map sp_Name ps)" and x: "x \<in> set ps" and n: "sp_Name p = sp_Name x"
    and free: "Lookup r (sp_ServiceType p) \<in> {None, Some (sp_Name p)}"
    and r': "Lookup r' = ((Lookup r)(sp_ServiceType x := None))(sp_ServiceType p \<mapsto> sp_Name p)"
  shows "slots_match r' (upsert p ps)"
  unfolding slots_match_def set_upsert [OF d]
proof (intro allI)
  fix t k
  let ?rhs = "\<exists>q \<in> insert p {q \<in> set ps. sp_Name q \<noteq> sp_Name p}. sp_ServiceType q = t \<and> sp_Name q = k"
  have other: "Lookup r (sp_ServiceType q) = Some (sp_Name q)" if "q \<in> set ps" for q
    using slots_matchD [OF m that] .
  consider "t = sp_ServiceType p" | "t \<noteq> sp_ServiceType p" "t = sp_ServiceType x"
    | "t \<noteq> sp_ServiceType p" "t \<noteq> sp_ServiceType x" by blast
  then show "Lookup r' t = Some k \<longleftrightarrow> ?rhs"
  proof cases
    case 1
    then show ?thesis using other free r' by force
  next
    case 2
    then show ?thesis using other [OF x] other n r' by force
  next
    case 3
    have "Lookup r' t = Some k \<longleftrightarrow> (\<exists>q \<in> set ps. sp_ServiceType q = t \<and> sp_Name q = k)"
      using 3 r' m by (simp add: slots_match_def)
    also have "\<dots> \<longleftrightarrow> ?rhs"
      using 3 same_name [OF d _ x] n by auto
    finally show ?thesis .
  qed
qed

lemma slots_match_create:
  assumes m: "slots_match r ps" and n: "sp_Name p \<notin> sp_Name ` set ps"
    and free: "Lookup r (sp_ServiceType p) = None" and r': "Lookup r' = (Lookup r)(sp_ServiceType p \<mapsto> sp_Name p)"
  shows "slots_match r' (upsert p ps)"
proof -
  have s: "set (upsert p ps) = insert p (set ps)"
    using n by (induction ps) auto
  have "Lookup r (sp_ServiceType q) = Some (sp_Name q)" if "q \<in> set ps" for q
    using slots_matchD [OF m that] .
  then show ?thesis using m free unfolding slots_match_def s r' by force
qed

lemma slots_match_free:
  assumes "slots_match r ps" and "n \<notin> sp_Name ` set ps" and "Lookup r t \<in> {None, Some n}"
  shows "Lookup r t = None"
  using assms by (auto simp: slots_match_def image_iff)

section \<open>Tracking touches neither the records nor the slots\<close>

lemma mon_register_frame [simp]:
  "v_disk (mon_register env s i c st s0 ic m) = v_disk s"
  "v_registry (mon_register env s i c st s0 ic m) = v_registry s"
  by (simp_all add: mon_register_def case_prod_unfold Let_def)

lemma trackExternalProvider_frame [simp]:
  "v_disk (trackExternalProvider env s i e st ic) = v_disk s"
  "v_registry (trackExternalProvider env s i e st ic) = v_registry s"
  by (simp_all add: trackExternalProvider_def Let_def split: option.splits)

lemma notifyChange_frame [simp]:
  "v_disk (notifyChange s) = v_disk s" "v_registry (notifyChange s) = v_registry s" "v_tracker (notifyChange s) = v_tracker s"
  by (simp_all add: notifyChange_def)

section \<open>Effect of registration\<close>

text \<open>A registration either leaves records and slots as they were, or stores one record.\<close>

definition unchanged :: "svc \<Rightarrow> svc \<Rightarrow> bool" where
  "unchanged s s' \<longleftrightarrow> fs_contents (v_disk s') = fs_contents (v_disk s) \<and> Lookup (v_registry s') = Lookup (v_registry s) \<and>
     v_tracker s' = v_tracker s \<and> v_mon s' = v_mon s \<and> v_changes s' = v_changes s"

lemma unchanged_ok: "svc_ok s \<Longrightarrow> unchanged s s' \<Longrightarrow> fs_inv (v_disk s') \<Longrightarrow> svc_ok s'"
  by (auto simp: svc_ok_def unchanged_def slots_match_def)

lemma updateRegistration_effect:
  assumes ok: "svc_ok s" and x: "existing \<in> set (fs_contents (v_disk s))"
    and run: "updateRegistration env s existing inp = (s', r)"
  defines "p \<equiv> apply_update existing inp (e_now env (svc_clock s))"
  shows "fs_inv (v_disk s') \<and>
    (case r of
       Inl _ \<Rightarrow> unchanged s s'
     | Inr a \<Rightarrow> slots_match (v_registry s') (fs_contents (v_disk s')) \<and>
         fs_contents (v_disk s') = upsert p (fs_contents (v_disk s)) \<and> a = toAPI env s' p)"
proof -
  let ?reg = "v_registry s" and ?n = "sp_Name existing" and ?t = "sp_ServiceType existing" and ?t' = "in_ServiceType inp"
  let ?mv = "if ?t \<noteq> ?t' then Move ?reg ?n ?t ?t' else (?reg, None)"
  have inv: "fs_inv (v_disk s)" and m: "slots_match ?reg (fs_contents (v_disk s))" using ok by (auto simp: svc_ok_def)
  have d: "distinct (map sp_Name (fs_contents (v_disk s)))" by (rule fs.inv_distinct [OF inv])
  have held: "Lookup ?reg ?t = Some ?n" by (rule slots_matchD [OF m x])
  have p: "sp_Name p = ?n" "sp_ServiceType p = ?t'" by (simp_all add: p_def apply_update_def)
  show ?thesis
  proof (cases "snd ?mv")
    case (Some e)
    then show ?thesis using run inv
      by (auto simp: updateRegistration_def Let_def unchanged_def split: if_splits prod.splits)
  next
    case None
    obtain d' e where save: "fs_Save (e_io env) (v_disk s) p = (d', e)" by fastforce
    note eff = fs.save_effect [OF inv save]
    have free: "Lookup ?reg ?t' = None" if "?t \<noteq> ?t'"
    proof -
      have "Lookup ?reg ?t' \<in> {None, Some ?n}" using None that reg.move_ok [of ?reg ?n ?t ?t'] by simp
      then show ?thesis using slots_matchE [OF m, of ?t' ?n] same_name [OF d _ x] that by auto
    qed
    have mv: "Lookup (fst ?mv) = ((Lookup ?reg)(?t := None))(?t' \<mapsto> ?n)"
      using None held reg.move_sets [of ?reg ?n ?t ?t'] by (auto simp: fun_eq_iff)
    show ?thesis
    proof (cases e)
      case (Some e')
      then show ?thesis
        using run None save eff free reg.move_and_back [OF held free]
        by (auto simp: updateRegistration_def Let_def unchanged_def p_def [symmetric] split: prod.splits if_splits)
    next
      case e: None
      have "slots_match (fst ?mv) (upsert p (fs_contents (v_disk s)))"
        by (rule slots_match_update [OF m d x]) (use mv p free held in \<open>auto split: if_splits\<close>)
      then show ?thesis
        using run None e save eff
        by (auto simp: updateRegistration_def Let_def p_def [symmetric] split: prod.splits if_splits)
    qed
  qed
qed

lemma createRegistration_effect:
  assumes ok: "svc_ok s" and fresh: "in_Name inp \<notin> sp_Name ` set (fs_contents (v_disk s))"
    and run: "createRegistration env s i inp = (s', r)"
  defines "p \<equiv> new_record i inp (e_now env (svc_clock s))"
  shows "fs_inv (v_disk s') \<and>
    (case r of
       Inl _ \<Rightarrow> unchanged s s'
     | Inr a \<Rightarrow> slots_match (v_registry s') (fs_contents (v_disk s')) \<and>
         fs_contents (v_disk s') = upsert p (fs_contents (v_disk s)) \<and> a = toAPI env s' p)"
proof -
  let ?reg = "v_registry s" and ?n = "in_Name inp" and ?t = "in_ServiceType inp"
  have inv: "fs_inv (v_disk s)" and m: "slots_match ?reg (fs_contents (v_disk s))" using ok by (auto simp: svc_ok_def)
  have p: "sp_Name p = ?n" "sp_ServiceType p = ?t" by (simp_all add: p_def new_record_def)
  show ?thesis
  proof (cases "snd (Claim ?reg ?n ?t)")
    case (Some e)
    then show ?thesis using run inv
      by (auto simp: createRegistration_def Let_def unchanged_def split: prod.splits)
  next
    case None
    then have free: "Lookup ?reg ?t = None"
      using slots_match_free [OF m fresh] reg.claim_ok by blast
    obtain d' e where save: "fs_Save (e_io env) (v_disk s) p = (d', e)" by fastforce
    note eff = fs.save_effect [OF inv save]
    show ?thesis
    proof (cases e)
      case (Some e')
      then show ?thesis
        using run None save eff reg.claim_then_release [OF free, of ?n]
        by (auto simp: createRegistration_def Let_def unchanged_def p_def [symmetric] split: prod.splits)
    next
      case e: None
      have "slots_match (fst (Claim ?reg ?n ?t)) (upsert p (fs_contents (v_disk s)))"
        by (rule slots_match_create [OF m]) (use fresh free p reg.claim_sets [OF None] in simp_all)
      then show ?thesis
        using run None e save eff
        by (auto simp: createRegistration_def Let_def p_def [symmetric] split: prod.splits)
    qed
  qed
qed

definition stored_record :: "svc_env \<Rightarrow> svc \<Rightarrow> registration_input \<Rightarrow> stored_provider" where
  "stored_record env s inp =
     (case find (\<lambda>p. sp_Name p = in_Name inp) (fs_contents (v_disk s)) of
        Some existing \<Rightarrow> apply_update existing inp (e_now env (Suc (svc_clock s)))
      | None \<Rightarrow>
          (case in_ProviderID inp of
             None \<Rightarrow> new_record (e_uuid env (Suc (svc_clock s))) inp (e_now env (Suc (svc_clock s)))
           | Some i \<Rightarrow> new_record i inp (e_now env (Suc (Suc (svc_clock s))))))"

lemma unchanged_disk:
  "fs_contents d = fs_contents (v_disk s) \<Longrightarrow> unchanged (s\<lparr>v_disk := d\<rparr>) s' = unchanged s s'"
  by (simp add: unchanged_def)

lemma findBy_clock: "findBy io d P = (d', r) \<Longrightarrow> d_clock d' = Suc (d_clock d)"
  by (auto simp: findBy_def)

lemma assignProviderID_effect:
  assumes inv: "fs_inv (v_disk s)" and run: "assignProviderID env s req = (s', r)"
  shows "fs_inv (v_disk s') \<and> (\<exists>d. s' = s\<lparr>v_disk := d\<rparr>) \<and> fs_contents (v_disk s') = fs_contents (v_disk s) \<and>
    (\<forall>i. r = Inr i \<longrightarrow>
       (req = None \<and> s' = s \<and> i = e_uuid env (svc_clock s) \<or>
        req = Some i \<and> i \<noteq> '''' \<and> svc_clock s' = Suc (svc_clock s) \<and> i \<notin> sp_ID ` set (fs_contents (v_disk s))))"
proof (cases req)
  case None
  then show ?thesis using inv run by (cases s) (auto simp: assignProviderID_def)
next
  case (Some q)
  obtain d h where get: "fs_GetByID (e_io env) (v_disk s) q = (d, h)" by fastforce
  note eff = fs.get_by_id_effect [OF inv get]
  have clk: "d_clock d = Suc (d_clock (v_disk s))"
    using get by (auto simp: fs_GetByID_def dest: findBy_clock)
  show ?thesis
  proof (cases "q = ''''")
    case True
    then show ?thesis using Some inv run by (cases s) (auto simp: assignProviderID_def)
  next
    case False
    then show ?thesis
      using Some run get eff clk
      by (auto simp: assignProviderID_def Let_def svc_clock_def find_None_iff split: sum.splits option.splits)
  qed
qed

text \<open>What a registration that starts from \<open>s\<close> and ends in \<open>s'\<close> with result \<open>r\<close> has done.\<close>

definition register_post :: "svc_env \<Rightarrow> svc \<Rightarrow> registration_input \<Rightarrow> svc \<Rightarrow> svc_error + api_provider \<times> bool \<Rightarrow> bool" where
  "register_post env s inp s' r \<longleftrightarrow> fs_inv (v_disk s') \<and>
    (case r of
       Inl _ \<Rightarrow> unchanged s s'
     | Inr (a, created) \<Rightarrow> slots_match (v_registry s') (fs_contents (v_disk s')) \<and>
         fs_contents (v_disk s') = upsert (stored_record env s inp) (fs_contents (v_disk s)) \<and>
         a = toAPI env s' (stored_record env s inp) \<and>
         (created \<longleftrightarrow> in_Name inp \<notin> sp_Name ` set (fs_contents (v_disk s))) \<and>
         (\<forall>x \<in> set (fs_contents (v_disk s)). sp_Name x = in_Name inp \<longrightarrow> in_ProviderID inp \<in> {None, Some (sp_ID x)}))"

lemma register_existing:
  assumes ok: "svc_ok (s\<lparr>v_disk := d\<rparr>)" and same: "fs_contents d = fs_contents (v_disk s)"
    and clk: "d_clock d = Suc (svc_clock s)"
    and f: "find (\<lambda>p. sp_Name p = in_Name inp) (fs_contents (v_disk s)) = Some existing"
    and cons: "ensureIDConsistency (sp_ID existing) (in_ProviderID inp) = None"
    and u: "updateRegistration env (s\<lparr>v_disk := d\<rparr>) existing inp = (s', r)"
  shows "register_post env s inp s' (map_sum id (\<lambda>p. (p, False)) r)"
proof -
  have mem: "existing \<in> set (fs_contents (v_disk s))" and nm: "sp_Name existing = in_Name inp"
    using f by (auto simp: find_Some_iff)
  have "distinct (map sp_Name (fs_contents (v_disk s)))"
    using fs.inv_distinct [of d] ok same by (simp add: svc_ok_def)
  then have uniq: "y = existing" if "y \<in> set (fs_contents (v_disk s))" "sp_Name y = in_Name inp" for y
    using same_name [of "fs_contents (v_disk s)" y existing] mem that nm by simp
  have rec: "stored_record env s inp = apply_update existing inp (e_now env (svc_clock (s\<lparr>v_disk := d\<rparr>)))"
    using f clk by (simp add: stored_record_def svc_clock_def)
  have "in_ProviderID inp \<in> {None, Some (sp_ID existing)}"
    using cons by (auto simp: ensureIDConsistency_def split: option.splits if_splits)
  moreover have "in_Name inp \<in> sp_Name ` set (fs_contents (v_disk s))"
    using mem nm by (metis image_eqI)
  ultimately show ?thesis
    using updateRegistration_effect [OF ok _ u] mem same uniq
    by (cases r) (auto simp: register_post_def unchanged_disk [OF same] rec)
qed

lemma register_new:
  assumes ok: "svc_ok (s\<lparr>v_disk := d\<rparr>)" and same: "fs_contents d = fs_contents (v_disk s)"
    and clk: "d_clock d = Suc (svc_clock s)"
    and f: "find (\<lambda>p. sp_Name p = in_Name inp) (fs_contents (v_disk s)) = None"
    and a: "assignProviderID env (s\<lparr>v_disk := d\<rparr>) (in_ProviderID inp) = (s1, Inr i)"
    and c: "createRegistration env s1 i inp = (s', r)"
  shows "register_post env s inp s' (map_sum id (\<lambda>p. (p, True)) r)"
proof -
  have fresh: "in_Name inp \<notin> sp_Name ` set (fs_contents (v_disk s))" using f by (auto simp: find_None_iff)
  note eff = assignProviderID_effect [OF _ a]
  have eff1: "fs_inv (v_disk s1)" "fs_contents (v_disk s1) = fs_contents (v_disk s)" "\<exists>d1. s1 = s\<lparr>v_disk := d1\<rparr>"
    using eff ok same by (auto simp: svc_ok_def)
  then have ok1: "svc_ok s1" and un1: "unchanged s s1" using ok same by (auto simp: svc_ok_def unchanged_def)
  have rec: "stored_record env s inp = new_record i inp (e_now env (svc_clock s1))"
    using eff ok f clk by (auto simp: stored_record_def svc_clock_def svc_ok_def)
  have "unchanged s1 s' \<longleftrightarrow> unchanged s s'" using un1 by (auto simp: unchanged_def)
  moreover have "\<forall>x \<in> set (fs_contents (v_disk s)). sp_Name x \<noteq> in_Name inp" using fresh by (metis image_eqI)
  ultimately show ?thesis
    using createRegistration_effect [OF ok1 _ c] fresh eff1
    by (cases r) (auto simp: register_post_def rec)
qed

lemma registerLocked_effect:
  assumes ok: "svc_ok s" and run: "registerLocked env s inp = (s', r)"
  shows "register_post env s inp s' r"
proof -
  obtain d x where get: "fs_GetByName (e_io env) (v_disk s) (in_Name inp) = (d, x)" by fastforce
  note eff = fs.get_by_name_effect [OF _ get]
  have clk: "d_clock d = Suc (svc_clock s)"
    using get by (auto simp: fs_GetByName_def svc_clock_def dest: findBy_clock)
  have ok': "svc_ok (s\<lparr>v_disk := d\<rparr>)" and same: "fs_contents d = fs_contents (v_disk s)"
    using ok eff by (auto simp: svc_ok_def)
  then have un: "register_post env s inp (s\<lparr>v_disk := d\<rparr>) (Inl e)" for e
    by (simp add: register_post_def unchanged_def svc_ok_def)
  show ?thesis
  proof (cases x)
    case (Inl e)
    then show ?thesis using run get un by (auto simp: registerLocked_def Let_def)
  next
    case x: (Inr found)
    show ?thesis
    proof (cases found)
      case (Some existing)
      then have f: "find (\<lambda>p. sp_Name p = in_Name inp) (fs_contents (v_disk s)) = Some existing"
        using eff ok x by (simp add: svc_ok_def)
      show ?thesis
        using run get x Some un register_existing [OF ok' same clk f]
        by (cases "updateRegistration env (s\<lparr>v_disk := d\<rparr>) existing inp")
          (auto simp: registerLocked_def Let_def split: option.splits)
    next
      case None
      then have f: "find (\<lambda>p. sp_Name p = in_Name inp) (fs_contents (v_disk s)) = None"
        using eff ok x by (simp add: svc_ok_def)
      obtain s1 r1 where a: "assignProviderID env (s\<lparr>v_disk := d\<rparr>) (in_ProviderID inp) = (s1, r1)" by fastforce
      have un1: "register_post env s inp s1 (Inl e)" for e
        using assignProviderID_effect [OF _ a] ok' same by (auto simp: register_post_def unchanged_def svc_ok_def)
      show ?thesis
      proof (cases r1)
        case (Inl e)
        then show ?thesis using run get x None a un1 by (auto simp: registerLocked_def Let_def)
      next
        case (Inr i)
        then show ?thesis
          using run get x None a register_new [OF ok' same clk f]
          by (cases "createRegistration env s1 i inp") (auto simp: registerLocked_def Let_def)
      qed
    qed
  qed
qed

lemma Register_effect:
  assumes "svc_ok s" and "Register env s inp = (s', r)"
  shows "register_post env s inp s' r"
proof (cases "registerLocked env s inp")
  case (Pair s1 r1)
  then show ?thesis
    using assms(2) registerLocked_effect [OF assms(1) Pair]
    by (cases r1) (auto simp: Register_def register_post_def toAPI_def)
qed

text \<open>C1: registration keeps registry and store in step.  Whatever the request, and whichever file-system
  call fails on the way, if the occupied slots were exactly the persisted (service type, name) pairs
  before \<open>Register\<close>, they are so afterwards; in particular no service type is ever served by two
  providers.\<close>

theorem Register_keeps_consistent:
  assumes "svc_ok s"
  shows "svc_ok (fst (Register env s inp))"
proof (cases "Register env s inp")
  case (Pair s' r)
  then show ?thesis
    using Register_effect [OF assms Pair] unchanged_ok [OF assms, of s']
    by (cases r) (auto simp: register_post_def svc_ok_def)
qed

text \<open>C7: a registration that is refused or fails changes nothing: not the persisted records, not the slots,
  not the health states or the monitored set, and nobody is notified.\<close>

theorem Register_error_unchanged:
  assumes "svc_ok s" and "Register env s inp = (s', Inl e)"
  shows "fs_contents (v_disk s') = fs_contents (v_disk s) \<and> Lookup (v_registry s') = Lookup (v_registry s) \<and>
    v_tracker s' = v_tracker s \<and> v_mon s' = v_mon s \<and> v_changes s' = v_changes s"
  using Register_effect [OF assms] by (simp add: register_post_def unchanged_def)

text \<open>A registration that succeeds stores the request under its name and serves its service type; it leaves
  every other provider's record alone; and re-registration never changes a provider's id, creation time
  or kind, nor is it accepted under another id.\<close>

theorem Register_success:
  assumes "svc_ok s" and "Register env s inp = (s', Inr (a, created))"
  shows "\<exists>p. find (\<lambda>q. sp_Name q = in_Name inp) (fs_contents (v_disk s')) = Some p \<and> a = toAPI env s' p \<and>
    Lookup (v_registry s') (in_ServiceType inp) = Some (in_Name inp) \<and>
    sp_ServiceType p = in_ServiceType inp \<and> sp_Endpoint p = in_Endpoint inp \<and> sp_SchemaVersion p = in_SchemaVersion inp \<and>
    sp_DisplayName p = in_DisplayName inp \<and> sp_Operations p = in_Operations inp \<and> sp_Metadata p = in_Metadata inp \<and>
    (\<forall>n. n \<noteq> in_Name inp \<longrightarrow>
       find (\<lambda>q. sp_Name q = n) (fs_contents (v_disk s')) = find (\<lambda>q. sp_Name q = n) (fs_contents (v_disk s))) \<and>
    (case find (\<lambda>q. sp_Name q = in_Name inp) (fs_contents (v_disk s)) of
       Some x \<Rightarrow> \<not> created \<and> sp_ID p = sp_ID x \<and> sp_CreateTime p = sp_CreateTime x \<and> sp_Type p = sp_Type x \<and>
         in_ProviderID inp \<in> {None, Some (sp_ID x)}
     | None \<Rightarrow> created \<and> sp_Type p = ''external'' \<and> in_ProviderID inp \<in> {None, Some (sp_ID p)})"
proof -
  let ?p = "stored_record env s inp" and ?ps = "fs_contents (v_disk s)"
  have eff: "slots_match (v_registry s') (fs_contents (v_disk s'))" "fs_contents (v_disk s') = upsert ?p ?ps"
    "a = toAPI env s' ?p" "created \<longleftrightarrow> in_Name inp \<notin> sp_Name ` set ?ps"
    "\<forall>x \<in> set ?ps. sp_Name x = in_Name inp \<longrightarrow> in_ProviderID inp \<in> {None, Some (sp_ID x)}"
    using Register_effect [OF assms] by (auto simp: register_post_def)
  have name: "sp_Name ?p = in_Name inp" and st: "sp_ServiceType ?p = in_ServiceType inp"
    by (auto simp: stored_record_def apply_update_def new_record_def find_Some_iff split: option.splits)
  have look: "Lookup (v_registry s') (in_ServiceType inp) = Some (in_Name inp)"
    using slots_matchD [OF eff(1), of ?p] eff(2) name st by simp
  have fields: "sp_Endpoint ?p = in_Endpoint inp" "sp_SchemaVersion ?p = in_SchemaVersion inp"
    "sp_DisplayName ?p = in_DisplayName inp" "sp_Operations ?p = in_Operations inp" "sp_Metadata ?p = in_Metadata inp"
    by (auto simp: stored_record_def apply_update_def new_record_def split: option.splits)
  have "case find (\<lambda>q. sp_Name q = in_Name inp) ?ps of
       Some x \<Rightarrow> \<not> created \<and> sp_ID ?p = sp_ID x \<and> sp_CreateTime ?p = sp_CreateTime x \<and> sp_Type ?p = sp_Type x \<and>
         in_ProviderID inp \<in> {None, Some (sp_ID x)}
     | None \<Rightarrow> created \<and> sp_Type ?p = ''external'' \<and> in_ProviderID inp \<in> {None, Some (sp_ID ?p)}"
  proof (cases "find (\<lambda>q. sp_Name q = in_Name inp) ?ps")
    case None
    then have "in_Name inp \<notin> sp_Name ` set ?ps" by (auto simp: find_None_iff)
    then show ?thesis using None eff(4)
      by (cases "in_ProviderID inp") (simp_all add: stored_record_def new_record_def)
  next
    case (Some x)
    then have "x \<in> set ?ps" "sp_Name x = in_Name inp" by (auto simp: find_Some_iff)
    moreover from this have "in_Name inp \<in> sp_Name ` set ?ps" by (metis image_eqI)
    ultimately show ?thesis using Some eff(4,5) by (simp add: stored_record_def apply_update_def)
  qed
  then show ?thesis
    using eff(2,3) name st look fields by (intro exI [of _ ?p]) (simp add: find_upsert)
qed

section \<open>Restart\<close>

definition types_unique :: "stored_provider list \<Rightarrow> bool" where
  "types_unique ps \<longleftrightarrow> (\<forall>p \<in> set ps. \<forall>q \<in> set ps. sp_ServiceType p = sp_ServiceType q \<longrightarrow> p = q)"

definition ext_match :: "registry \<Rightarrow> stored_provider set \<Rightarrow> bool" where
  "ext_match r ps \<longleftrightarrow>
     (\<forall>t n. Lookup r t = Some n \<longleftrightarrow>
        (\<exists>p \<in> ps. sp_Type p = ''external'' \<and> sp_ServiceType p = t \<and> sp_Name p = n))"

lemma svc_ok_types: "svc_ok s \<Longrightarrow> types_unique (fs_contents (v_disk s))"
  unfolding types_unique_def
proof (intro ballI impI)
  fix p q assume "svc_ok s" and pq: "p \<in> set (fs_contents (v_disk s))" "q \<in> set (fs_contents (v_disk s))"
    and "sp_ServiceType p = sp_ServiceType q"
  then have "sp_Name p = sp_Name q" using slots_matchD [OF _ pq(1)] slots_matchD [OF _ pq(2)] by (force simp: svc_ok_def)
  then show "p = q" using same_name [OF fs.inv_distinct pq] \<open>svc_ok s\<close> by (simp add: svc_ok_def)
qed

lemma track_no_check [simp]:
  "v_tracker (trackExternalProvider env s i e st False) = SetState (v_tracker s) i Unhealthy 0"
  by (simp add: trackExternalProvider_def mon_register_def RegisterProvider_def Let_def split: option.splits)

lemma load_one_frame [simp]: "v_disk (load_one env s p) = v_disk s"
  by (simp add: load_one_def split: prod.splits option.splits)

lemma load_fold:
  assumes "types_unique ps" and "distinct ps" and "set qs \<subseteq> set ps" and "distinct qs"
    and "ext_match (v_registry s) {}" and "\<forall>p \<in> set ps. sp_ID p \<noteq> ''''"
  shows "v_disk (foldl (load_one env) s qs) = v_disk s \<and> ext_match (v_registry (foldl (load_one env) s qs)) (set qs) \<and>
    (\<forall>p \<in> set qs. sp_Type p = ''external'' \<longrightarrow>
       GetState (v_tracker (foldl (load_one env) s qs)) (sp_ID p) = Some \<lparr>hs_status = Unhealthy, hs_last_check = 0\<rparr>)"
  using assms(3,4)
proof (induction qs rule: rev_induct)
  case Nil
  then show ?case using assms(5) by simp
next
  case (snoc p qs)
  let ?s = "foldl (load_one env) s qs"
  have IH: "v_disk ?s = v_disk s" "ext_match (v_registry ?s) (set qs)"
    "\<forall>q \<in> set qs. sp_Type q = ''external'' \<longrightarrow>
       GetState (v_tracker ?s) (sp_ID q) = Some \<lparr>hs_status = Unhealthy, hs_last_check = 0\<rparr>"
    using snoc by auto
  show ?case
  proof (cases "sp_Type p = ''external''")
    case False
    then have "load_one env ?s p = ?s" by (simp add: load_one_def)
    then show ?thesis using IH False by (auto simp: ext_match_def)
  next
    case True
    let ?c = "Claim (v_registry ?s) (sp_Name p) (sp_ServiceType p)"
    have "sp_ServiceType q \<noteq> sp_ServiceType p" if "q \<in> set qs" for q
      using assms(1) snoc.prems that unfolding types_unique_def by auto
    note other = this
    then have free: "Lookup (v_registry ?s) (sp_ServiceType p) = None"
      using IH(2) unfolding ext_match_def by (metis not_None_eq)
    then have "snd ?c = None" by (simp add: reg.claim_ok)
    then have "load_one env ?s p = trackExternalProvider env (?s\<lparr>v_registry := fst ?c\<rparr>) (sp_ID p) (sp_Endpoint p)
        (sp_ServiceType p) False" and L: "Lookup (fst ?c) = (Lookup (v_registry ?s))(sp_ServiceType p \<mapsto> sp_Name p)"
      using True reg.claim_sets by (auto simp: load_one_def split: prod.splits)
    moreover have "ext_match (fst ?c) (set (qs @ [p]))"
      using IH(2) other True unfolding ext_match_def L by auto
    ultimately show ?thesis
      using IH(1,3) True assms(6) snoc.prems by (auto simp: ht.get_set)
  qed
qed

lemma valid_facts: "sp_valid p \<Longrightarrow> sp_ID p \<noteq> '''' \<and> (sp_Type p = ''embedded'' \<or> sp_Type p = ''external'')"
  by (auto simp: sp_valid_def validateStoredProvider_def first_missing_def split: if_splits)

lemma inv_records:
  assumes "fs_inv d"
  shows "distinct (fs_contents d)" "p \<in> set (fs_contents d) \<Longrightarrow> sp_ID p \<noteq> ''''"
    "p \<in> set (fs_contents d) \<Longrightarrow> sp_Type p = ''embedded'' \<or> sp_Type p = ''external''"
  using fs.inv_distinct [OF assms] fs.inv_valid [OF assms] valid_facts
  by (auto simp: distinct_map list_all_iff)

definition restarted :: "svc \<Rightarrow> monitor option \<Rightarrow> svc" where
  "restarted s m = svc_New (v_disk s) NewRegistry NewInMemoryHealthTracker m"

text \<open>C6: registrations survive a restart.  A new process that loads the file of a consistent service holds
  exactly the slots of the external providers, and every external provider is tracked again, as
  \<open>Unhealthy\<close> and not yet checked.\<close>

theorem LoadPersisted_restores:
  assumes "svc_ok s" and "e_io env (svc_clock s) \<noteq> Some ReadFault"
  shows "\<exists>s'. LoadPersisted env (restarted s m) = (s', None) \<and> fs_contents (v_disk s') = fs_contents (v_disk s) \<and>
    (\<forall>t n. Lookup (v_registry s') t = Some n \<longleftrightarrow>
       Lookup (v_registry s) t = Some n \<and>
       (\<exists>p \<in> set (fs_contents (v_disk s)). sp_Name p = n \<and> sp_Type p = ''external'')) \<and>
    (\<forall>p \<in> set (fs_contents (v_disk s)). sp_Type p = ''external'' \<longrightarrow>
       GetState (v_tracker s') (sp_ID p) = Some \<lparr>hs_status = Unhealthy, hs_last_check = 0\<rparr>)"
proof -
  let ?ps = "fs_contents (v_disk s)" and ?s0 = "(restarted s m)\<lparr>v_disk := tick (v_disk s)\<rparr>"
  have inv: "fs_inv (v_disk s)" and m: "slots_match (v_registry s) ?ps" using assms(1) by (auto simp: svc_ok_def)
  have "readFile (fault_now (e_io env) (v_disk s)) (v_disk s) = Inr ?ps"
    using good_file_contents [of "v_disk s"] inv assms(2) readFile_content
    by (simp add: fs_inv_def fault_now_def svc_clock_def)
  then have run: "LoadPersisted env (restarted s m) = (foldl (load_one env) ?s0 ?ps, None)"
    by (simp add: LoadPersisted_def fs_List_def restarted_def svc_New_def)
  have "ext_match (v_registry ?s0) {}"
    by (simp add: ext_match_def restarted_def svc_New_def NewRegistry_def Lookup_def)
  then have l: "v_disk (foldl (load_one env) ?s0 ?ps) = tick (v_disk s)"
    "ext_match (v_registry (foldl (load_one env) ?s0 ?ps)) (set ?ps)"
    "\<forall>p \<in> set ?ps. sp_Type p = ''external'' \<longrightarrow>
       GetState (v_tracker (foldl (load_one env) ?s0 ?ps)) (sp_ID p) = Some \<lparr>hs_status = Unhealthy, hs_last_check = 0\<rparr>"
    using load_fold [OF svc_ok_types [OF assms(1)] inv_records(1) [OF inv] _ inv_records(1) [OF inv], of ?s0 env]
      inv_records(2) [OF inv] by (auto simp: restarted_def svc_New_def)
  have "Lookup (v_registry (foldl (load_one env) ?s0 ?ps)) t = Some n \<longleftrightarrow>
      Lookup (v_registry s) t = Some n \<and> (\<exists>p \<in> set ?ps. sp_Name p = n \<and> sp_Type p = ''external'')" for t n
  proof -
    have "(\<exists>p \<in> set ?ps. sp_Type p = ''external'' \<and> sp_ServiceType p = t \<and> sp_Name p = n) \<longleftrightarrow>
        (\<exists>p \<in> set ?ps. sp_ServiceType p = t \<and> sp_Name p = n) \<and> (\<exists>p \<in> set ?ps. sp_Name p = n \<and> sp_Type p = ''external'')"
      using same_name [OF fs.inv_distinct [OF inv]] by blast
    then show ?thesis using l(2) m unfolding ext_match_def slots_match_def by simp
  qed
  then show ?thesis using run l by auto
qed

section \<open>Startup with embedded providers\<close>






















lemma toAPI_advertised:
  "ap_ServiceType (toAPI env s p) = sp_ServiceType p"
  "ap_Status (toAPI env s p) = Unavailable \<longleftrightarrow>
     (\<forall>h. GetState (v_tracker s) (sp_ID p) = Some h \<longrightarrow> hs_status h = Unavailable)"
  by (simp_all add: toAPI_def split: option.splits)

text \<open>The agent advertises to DCM exactly the service types of the persisted providers whose tracked state
  is not \<open>Unavailable\<close> (a provider with no tracked state is not advertised), and each of them has its
  slot occupied.\<close>

theorem AdvertisableServiceTypes_sound:
  assumes "svc_ok s" and "e_io env (svc_clock s) \<noteq> Some ReadFault"
  shows "set (snd (AdvertisableServiceTypes env s)) =
    {t. \<exists>p \<in> set (fs_contents (v_disk s)). sp_ServiceType p = t \<and> Lookup (v_registry s) t = Some (sp_Name p) \<and>
       (\<exists>h. GetState (v_tracker s) (sp_ID p) = Some h \<and> hs_status h \<noteq> Unavailable)}"
proof -
  have inv: "fs_inv (v_disk s)" and m: "slots_match (v_registry s) (fs_contents (v_disk s))"
    using assms(1) by (auto simp: svc_ok_def)
  have "readFile (fault_now (e_io env) (v_disk s)) (v_disk s) = Inr (fs_contents (v_disk s))"
    using good_file_contents [of "v_disk s"] inv assms(2) readFile_content
    by (simp add: fs_inv_def fault_now_def svc_clock_def)
  then have "snd (AdvertisableServiceTypes env s) =
      map ap_ServiceType (filter (\<lambda>p. ap_Status p \<noteq> Unavailable)
        (map (toAPI env (s\<lparr>v_disk := tick (v_disk s)\<rparr>)) (fs_contents (v_disk s))))"
    by (simp add: AdvertisableServiceTypes_def svc_List_def fs_List_def Let_def)
  also have "set \<dots> = {t. \<exists>p \<in> set (fs_contents (v_disk s)). sp_ServiceType p = t \<and>
       (\<exists>h. GetState (v_tracker s) (sp_ID p) = Some h \<and> hs_status h \<noteq> Unavailable)}"
    by (auto simp: filter_map comp_def toAPI_advertised image_iff)
  finally show ?thesis using slots_matchD [OF m] by auto
qed

section \<open>Concrete runs\<close>

definition sample_env :: "fs_fault option \<Rightarrow> svc_env" where
  "sample_env f = \<lparr>e_io = (\<lambda>k. if k = 1 then f else None), e_now = (\<lambda>_. 7), e_uuid = (\<lambda>_. ''u1''),
     e_check = (\<lambda>_ _. CheckHealthy), e_metadata = (\<lambda>m. Some m)\<rparr>"

definition sample_svc :: svc where
  "sample_svc = svc_New (fs_init NoFile) NewRegistry NewInMemoryHealthTracker (Some (NewMonitor 3))"

definition sample_input :: registration_input where
  "sample_input = \<lparr>in_Name = ''db'', in_Endpoint = ''http://db'', in_ServiceType = ''database'', in_SchemaVersion = ''v1'',
     in_DisplayName = None, in_ProviderID = None, in_Operations = None, in_Metadata = None\<rparr>"

lemma sample_svc_ok: "svc_ok sample_svc"
  by (simp add: svc_ok_def sample_svc_def svc_New_def slots_match_def NewRegistry_def Lookup_def fs_contents_def
      content_of_def fs_inv_def good_file_def)

lemmas register_run_defs = Register_def registerLocked_def createRegistration_def assignProviderID_def sample_svc_def
  svc_New_def sample_env_def sample_input_def fs_GetByName_def findBy_def fs_Save_def readFile_def fault_now_def
  writeFile_def sys_defs fs_init_def tick_def Claim_def NewRegistry_def new_record_def validateStoredProvider_def
  first_missing_def svc_clock_def notifyChange_def

lemma sample_register_fails: "snd (Register (sample_env (Some RenameFault)) sample_svc sample_input) = Inl (StoreError RenameErr)"
  by (simp add: register_run_defs)

lemma sample_register_ok: "\<exists>a. snd (Register (sample_env None) sample_svc sample_input) = Inr (a, True)"
  by (simp add: register_run_defs Let_def)

theorem Register_keeps_consistent_witness:
  "svc_ok sample_svc \<and> svc_ok (fst (Register (sample_env (Some WriteFault)) sample_svc sample_input))"
  using Register_keeps_consistent [OF sample_svc_ok] sample_svc_ok by simp

theorem Register_error_unchanged_witness:
  "fs_contents (v_disk (fst (Register (sample_env (Some RenameFault)) sample_svc sample_input))) = []"
  using Register_error_unchanged [OF sample_svc_ok,
      of "sample_env (Some RenameFault)" sample_input
        "fst (Register (sample_env (Some RenameFault)) sample_svc sample_input)" "StoreError RenameErr"]
    sample_register_fails
  by (simp add: prod_eq_iff) (simp add: sample_svc_def svc_New_def fs_contents_def content_of_def)

theorem Register_success_witness:
  "Lookup (v_registry (fst (Register (sample_env None) sample_svc sample_input))) ''database'' = Some ''db''"
proof -
  obtain a where "Register (sample_env None) sample_svc sample_input =
      (fst (Register (sample_env None) sample_svc sample_input), Inr (a, True))"
    using sample_register_ok by (metis prod.collapse)
  from Register_success [OF sample_svc_ok this] show ?thesis by (auto simp: sample_input_def)
qed

theorem LoadPersisted_restores_witness:
  "\<exists>s'. LoadPersisted (sample_env None) (restarted sample_svc None) = (s', None) \<and> fs_contents (v_disk s') = []"
  using LoadPersisted_restores [OF sample_svc_ok, of "sample_env None" None]
  by (auto simp: sample_env_def sample_svc_def svc_New_def fs_contents_def content_of_def)


theorem AdvertisableServiceTypes_sound_witness:
  "set (snd (AdvertisableServiceTypes (sample_env None) sample_svc)) = {}"
  using AdvertisableServiceTypes_sound [OF sample_svc_ok, of "sample_env None"]
  by (auto simp: sample_env_def sample_svc_def svc_New_def fs_contents_def content_of_def)

end
