(* ===== verification/Forwarding.thy ===== *)
theory Forwarding
  imports Backoff Registry File_Store
begin

text \<open>
  Shared vocabulary of the routing packages (\<open>internal/routing/types.go\<close>, \<open>resolve.go\<close>, \<open>forwarder.go\<close>,
  \<open>internal/cloudevent\<close>): inbound and outbound CloudEvents, provider errors, provider resolution and the
  dispatch to a provider with bounded retries.

  Everything the code does to the outside world is appended to a trace of \<open>effect\<close>s, and everything
  the outside world answers (HTTP exchanges, embedded handlers, publishing, context cancellation,
  timers, random numbers, store faults) is a function of the trace so far, in \<open>fwd_env\<close>: the theorems
  hold for every environment, however its answers depend on what happened before.  A message is modelled
  by its decoded form; log records are not modelled.
\<close>

section \<open>CloudEvents\<close>

definition TypeError :: string where "TypeError = ''dcm.agent.error''"
definition TypeRequestQueued :: string where "TypeRequestQueued = ''dcm.agent.request-queued''"
definition TypeCancelAcked :: string where "TypeCancelAcked = ''dcm.agent.cancel-acknowledged''"
definition TypeCancelRejected :: string where "TypeCancelRejected = ''dcm.agent.cancel-rejected''"
definition TypeCreationAcked :: string where "TypeCreationAcked = ''dcm.agent.creation-acknowledged''"
definition TypeDeletionAcked :: string where "TypeDeletionAcked = ''dcm.agent.deletion-acknowledged''"
definition TypeHealthDegraded :: string where "TypeHealthDegraded = ''dcm.agent.health.service-type-degraded''"
definition TypeHealthUnavailable :: string where "TypeHealthUnavailable = ''dcm.agent.health.service-type-unavailable''"
definition TypeRequestCreate :: string where "TypeRequestCreate = ''dcm.request.create''"
definition TypeRequestDelete :: string where "TypeRequestDelete = ''dcm.request.delete''"
definition TypeRequestCancel :: string where "TypeRequestCancel = ''dcm.request.cancel''"
definition SubjectResponses :: string where "SubjectResponses = ''dcm.agents.responses''"
definition SubjectHealth :: string where "SubjectHealth = ''dcm.agents.health''"

lemmas request_type_defs = TypeRequestCreate_def TypeRequestDelete_def TypeRequestCancel_def

text \<open>An inbound message: undecodable, or a CloudEvent with type, id and (if its data decodes) a payload.\<close>

record payload =
  p_ResourceID :: string
  p_ServiceType :: string
  p_Spec :: "json option"

datatype ce_message = MalformedCE | CloudEvent string string "payload option"

record response_ctx =
  rc_ResourceID :: string
  rc_AgentName :: string
  rc_TopicName :: string

datatype error_code =
    UNSUPPORTED_SERVICE_TYPE
  | SP_UNAVAILABLE
  | RETRY_EXHAUSTED
  | NON_RETRYABLE_SP_ERROR
  | INVALID_PAYLOAD
  | MAX_DELIVERY_EXCEEDED

datatype ce_data =
    CreationAckData response_ctx string
  | DeletionAckData response_ctx string
  | RequestQueuedData response_ctx string string
  | ErrorData response_ctx error_code string "(int \<times> string) option" \<comment> \<open>message and provider error\<close>
  | CancelAckData response_ctx string
  | CancelRejectedData response_ctx string
  | HealthEventData string string string string string string

record cloud_event =
  ce_source :: string
  ce_type :: string
  ce_subject :: string
  ce_data :: ce_data

section \<open>Provider errors\<close>

datatype ctx_error = Canceled | DeadlineExceeded

datatype fwd_error =
    SPResponseError int string
  | ForwarderError int string
  | URLError string
  | OtherError string
  | CtxError ctx_error

definition errorStatusCode :: "fwd_error \<Rightarrow> int option" where
  "errorStatusCode e =
     (case e of
        SPResponseError code _ \<Rightarrow> Some code
      | ForwarderError code _ \<Rightarrow> Some code
      | _ \<Rightarrow> None)"

definition IsRetryable :: "fwd_error \<Rightarrow> bool" where
  "IsRetryable e = (case errorStatusCode e of None \<Rightarrow> True | Some code \<Rightarrow> code \<ge> 500 \<or> code = 429)"

datatype log_attr = HttpStatusAttr int | GenericAttr string | ErrorAttr fwd_error

definition SafeErrorAttrs :: "fwd_error \<Rightarrow> log_attr" where
  "SafeErrorAttrs e =
     (case errorStatusCode e of
        Some code \<Rightarrow> HttpStatusAttr code
      | None \<Rightarrow> (case e of URLError _ \<Rightarrow> GenericAttr ''provider HTTP request failed'' | _ \<Rightarrow> ErrorAttr e))"

definition TerminalProviderErrorData :: "fwd_error \<Rightarrow> string \<Rightarrow> response_ctx \<Rightarrow> ce_data" where
  "TerminalProviderErrorData e serviceType ctx =
     (let providerError = (case e of SPResponseError code m \<Rightarrow> Some (code, m) | _ \<Rightarrow> None)
      in if IsRetryable e
         then ErrorData ctx RETRY_EXHAUSTED
                (''service provider error after retry exhaustion for service type: '' @ serviceType) providerError
         else ErrorData ctx NON_RETRYABLE_SP_ERROR
                (''service provider returned non-retryable error for service type: '' @ serviceType) providerError)"

section \<open>Effects and environment\<close>

datatype sp_request =
    CreateResource string bool string string "json option" string
      \<comment> \<open>endpoint, embedded, resource id, service type, spec, event id\<close>
  | DeleteResource string bool string string string

datatype http_request =
    HttpPost string string "json option" string \<comment> \<open>endpoint, \<open>id\<close> query parameter, \<open>spec\<close>, \<open>Idempotency-Key\<close>\<close>
  | HttpDelete string string string \<comment> \<open>endpoint, escaped path segment, \<open>Idempotency-Key\<close>\<close>

datatype http_outcome =
    MarshalFailed string
  | URLFailed string
  | RequestFailed string
  | TransportFailed string
  | HttpResponse int string string \<comment> \<open>status code, body, status line\<close>

datatype disposition = Ack | Nak duration | Term | InProgress

datatype effect =
    SPCalled sp_request "fwd_error option"
  | Waited duration "ctx_error option"
  | CEPublished cloud_event bool
  | RawPublished string ce_message bool
  | Disposed nat disposition bool

type_synonym trace = "effect list"

record fwd_env =
  x_http :: "trace \<Rightarrow> http_request \<Rightarrow> http_outcome"
  x_embedded :: "string \<rightharpoonup> (trace \<Rightarrow> sp_request \<Rightarrow> fwd_error option)"
  x_ctx :: "trace \<Rightarrow> ctx_error option"
  x_wait :: "trace \<Rightarrow> duration \<Rightarrow> ctx_error option"
  x_rand :: "trace \<Rightarrow> nat"
  x_pub :: "trace \<Rightarrow> bool"
  x_ack :: "trace \<Rightarrow> bool"
  x_io :: "nat \<Rightarrow> fs_fault option"

definition FormatSource :: "string \<Rightarrow> string option" where
  "FormatSource agentID = (if agentID = '''' then None else Some (''dcm/agents/'' @ agentID))"

definition PublishCE :: "fwd_env \<Rightarrow> trace \<Rightarrow> string \<Rightarrow> string \<Rightarrow> string \<Rightarrow> ce_data \<Rightarrow> trace \<times> bool" where
  "PublishCE env tr subject agentName ceType data =
     (case FormatSource agentName of
        None \<Rightarrow> (tr, False)
      | Some src \<Rightarrow>
          let ok = x_pub env tr
          in (tr @ [CEPublished \<lparr>ce_source = src, ce_type = ceType, ce_subject = subject, ce_data = data\<rparr> ok], ok))"

definition Publish :: "fwd_env \<Rightarrow> trace \<Rightarrow> string \<Rightarrow> ce_message \<Rightarrow> trace \<times> bool" where
  "Publish env tr subject msg = (let ok = x_pub env tr in (tr @ [RawPublished subject msg ok], ok))"

section \<open>Resolving the provider of a service type\<close>

datatype resolution = NoProvider | StoreFailed store_error | Resolved stored_provider provider_status

definition ResolveProvider :: "(nat \<Rightarrow> fs_fault option) \<Rightarrow> registry \<Rightarrow> disk \<Rightarrow> tracker \<Rightarrow> string \<Rightarrow> disk \<times> resolution" where
  "ResolveProvider io reg d t serviceType =
     (case Lookup reg serviceType of
        None \<Rightarrow> (d, NoProvider)
      | Some providerName \<Rightarrow>
          (case fs_GetByName io d providerName of
             (d, Inl e) \<Rightarrow> (d, StoreFailed e)
           | (d, Inr None) \<Rightarrow> (d, NoProvider)
           | (d, Inr (Some sp)) \<Rightarrow>
               if sp_ID sp = '''' then (d, Resolved sp Unavailable)
               else case GetState t (sp_ID sp) of
                      None \<Rightarrow> (d, Resolved sp Unavailable)
                    | Some h \<Rightarrow> (d, Resolved sp (hs_status h))))"

section \<open>Forwarder\<close>

definition maxResponseBodyBytes :: nat where
  "maxResponseBodyBytes = 4096"

definition doRequest :: "http_outcome \<Rightarrow> fwd_error option" where
  "doRequest out =
     (case out of
        HttpResponse code body status \<Rightarrow>
          if 200 \<le> code \<and> code < 300 then None
          else let msg = take maxResponseBodyBytes body
               in Some (SPResponseError code (if msg = '''' then status else msg))
      | MarshalFailed m \<Rightarrow> Some (ForwarderError 400 (''failed to marshal spec: '' @ m))
      | URLFailed m \<Rightarrow> Some (URLError m)
      | RequestFailed m \<Rightarrow> Some (OtherError m)
      | TransportFailed m \<Rightarrow> Some (URLError m))"

definition createExternal :: "fwd_env \<Rightarrow> trace \<Rightarrow> string \<Rightarrow> string \<Rightarrow> json option \<Rightarrow> string \<Rightarrow> fwd_error option" where
  "createExternal env tr endpoint resourceID spec eventID =
     doRequest (x_http env tr (HttpPost endpoint resourceID spec eventID))"

definition deleteExternal :: "fwd_env \<Rightarrow> trace \<Rightarrow> string \<Rightarrow> string \<Rightarrow> string \<Rightarrow> fwd_error option" where
  "deleteExternal env tr endpoint resourceID eventID =
     doRequest (x_http env tr (HttpDelete endpoint resourceID eventID))"

definition dispatch_embedded :: "fwd_env \<Rightarrow> trace \<Rightarrow> string \<Rightarrow> sp_request \<Rightarrow> fwd_error option" where
  "dispatch_embedded env tr serviceType req =
     (case x_embedded env serviceType of
        None \<Rightarrow> Some (ForwarderError 503 (''no embedded handler for service type: '' @ serviceType))
      | Some h \<Rightarrow> h tr req)"

definition fwd_dispatch :: "fwd_env \<Rightarrow> trace \<Rightarrow> sp_request \<Rightarrow> trace \<times> fwd_error option" where
  "fwd_dispatch env tr req =
     (let e = (case req of
                 CreateResource endpoint embedded resourceID serviceType spec eventID \<Rightarrow>
                   if embedded then dispatch_embedded env tr serviceType req
                   else createExternal env tr endpoint resourceID spec eventID
               | DeleteResource endpoint embedded resourceID serviceType eventID \<Rightarrow>
                   if embedded then dispatch_embedded env tr serviceType req
                   else deleteExternal env tr endpoint resourceID eventID)
      in (tr @ [SPCalled req e], e))"

record forward_params =
  fp_ResourceID :: string
  fp_ServiceType :: string
  fp_Spec :: "json option"
  fp_EventID :: string
  fp_IsCreate :: bool

definition sp_request_of :: "stored_provider \<Rightarrow> forward_params \<Rightarrow> sp_request" where
  "sp_request_of sp params =
     (let embedded = (sp_Type sp = ''embedded'')
      in if fp_IsCreate params
         then CreateResource (sp_Endpoint sp) embedded (fp_ResourceID params) (fp_ServiceType params) (fp_Spec params) (fp_EventID params)
         else DeleteResource (sp_Endpoint sp) embedded (fp_ResourceID params) (fp_ServiceType params) (fp_EventID params))"

definition ForwardToSP :: "fwd_env \<Rightarrow> trace \<Rightarrow> stored_provider \<Rightarrow> forward_params \<Rightarrow> trace \<times> fwd_error option" where
  "ForwardToSP env tr sp params = fwd_dispatch env tr (sp_request_of sp params)"

record retry_policy =
  rp_MaxAttempts :: int
  rp_Backoff :: duration
  rp_MaxBackoff :: duration

text \<open>The loop body for attempt \<open>attempt\<close>, with \<open>n\<close> attempts left after it.\<close>

fun fwd_loop :: "fwd_env \<Rightarrow> stored_provider \<Rightarrow> forward_params \<Rightarrow> retry_policy \<Rightarrow> nat \<Rightarrow> int \<Rightarrow> trace \<Rightarrow> trace \<times> fwd_error option" where
  "fwd_loop env sp params policy n attempt tr =
     (case ForwardToSP env tr sp params of
        (tr, None) \<Rightarrow> (tr, None)
      | (tr, Some e) \<Rightarrow>
          (case x_ctx env tr of
             Some c \<Rightarrow> (tr, Some (CtxError c))
           | None \<Rightarrow>
               if \<not> IsRetryable e then (tr, Some e)
               else case n of
                      0 \<Rightarrow> (tr, Some e)
                    | Suc n' \<Rightarrow>
                        let d = ApplyJitter (CalculateBackoff (rp_Backoff policy) (rp_MaxBackoff policy) attempt) (x_rand env tr);
                            w = x_wait env tr d;
                            tr = tr @ [Waited d w]
                        in case w of
                             Some c \<Rightarrow> (tr, Some (CtxError c))
                           | None \<Rightarrow> fwd_loop env sp params policy n' (attempt + 1) tr))"

declare fwd_loop.simps [simp del]

definition ForwardWithRetry :: "fwd_env \<Rightarrow> trace \<Rightarrow> stored_provider \<Rightarrow> forward_params \<Rightarrow> retry_policy \<Rightarrow> trace \<times> fwd_error option" where
  "ForwardWithRetry env tr sp params policy =
     (let maxAttempts = (if rp_MaxAttempts policy < 1 then 1 else rp_MaxAttempts policy)
      in fwd_loop env sp params policy (nat (maxAttempts - 1)) 0 tr)"

section \<open>What a forward does\<close>

fun sp_calls :: "trace \<Rightarrow> (sp_request \<times> fwd_error option) list" where
  "sp_calls [] = []"
| "sp_calls (SPCalled req e # tr) = (req, e) # sp_calls tr"
| "sp_calls (_ # tr) = sp_calls tr"

fun ces_sent :: "trace \<Rightarrow> cloud_event list" where
  "ces_sent [] = []"
| "ces_sent (CEPublished c ok # tr) = c # ces_sent tr"
| "ces_sent (_ # tr) = ces_sent tr"

lemma sp_calls_append [simp]: "sp_calls (a @ b) = sp_calls a @ sp_calls b"
  by (induction a rule: sp_calls.induct) auto

lemma ces_append [simp]: "ces_sent (a @ b) = ces_sent a @ ces_sent b"
  by (induction a rule: ces_sent.induct) auto

fun fwd_effect :: "effect \<Rightarrow> bool" where
  "fwd_effect (SPCalled _ _) = True"
| "fwd_effect (Waited _ _) = True"
| "fwd_effect _ = False"

lemma fwd_effect_ces: "list_all fwd_effect seg \<Longrightarrow> ces_sent seg = []"
  by (induction seg rule: ces_sent.induct) auto

text \<open>The calls of a forward that ends with result \<open>r\<close>: the same request each time, only retryable failures
  before the last call, and the reason to stop.\<close>

definition fwd_calls_ok :: "sp_request \<Rightarrow> nat \<Rightarrow> (sp_request \<times> fwd_error option) list \<Rightarrow> fwd_error option \<Rightarrow> bool" where
  "fwd_calls_ok req n calls r \<longleftrightarrow>
     calls \<noteq> [] \<and> length calls \<le> n \<and> (\<forall>c \<in> set calls. fst c = req) \<and>
     (\<forall>c \<in> set (butlast calls). \<exists>e. snd c = Some e \<and> IsRetryable e) \<and>
     (r = None \<longleftrightarrow> snd (last calls) = None) \<and>
     (\<forall>e. r = Some e \<longrightarrow> (\<exists>c. e = CtxError c) \<or>
        snd (last calls) = Some e \<and> (IsRetryable e \<longrightarrow> length calls = n))"

lemma fwd_calls_okI_one:
  "r = e \<or> (\<exists>c. r = Some (CtxError c) \<and> e \<noteq> None) \<Longrightarrow> (\<And>e'. r = Some e' \<Longrightarrow> IsRetryable e' \<Longrightarrow> n = 1 \<or> (\<exists>c. e' = CtxError c)) \<Longrightarrow> 0 < n \<Longrightarrow>
   fwd_calls_ok req n [(req, e)] r"
  by (auto simp: fwd_calls_ok_def)

lemma fwd_calls_ok_Cons:
  "fwd_calls_ok req n calls r \<Longrightarrow> IsRetryable e \<Longrightarrow> fwd_calls_ok req (Suc n) ((req, Some e) # calls) r"
  by (auto simp: fwd_calls_ok_def)

lemma dispatch_trace: "ForwardToSP env tr sp params = (tr', e) \<Longrightarrow> tr' = tr @ [SPCalled (sp_request_of sp params) e]"
  by (auto simp: ForwardToSP_def fwd_dispatch_def Let_def)

lemma fwd_loop_outcome:
  "fwd_loop env sp params policy n a tr = (tr', r) \<Longrightarrow>
   \<exists>seg. tr' = tr @ seg \<and> list_all fwd_effect seg \<and> fwd_calls_ok (sp_request_of sp params) (Suc n) (sp_calls seg) r"
proof (induction n arbitrary: a tr tr' r)
  case 0
  obtain tr1 e where f: "ForwardToSP env tr sp params = (tr1, e)" by fastforce
  note t = dispatch_trace [OF f]
  have "tr' = tr1" using 0 f by (subst (asm) fwd_loop.simps) (auto split: option.splits if_splits)
  moreover have "fwd_calls_ok (sp_request_of sp params) 1 [(sp_request_of sp params, e)] r"
    using 0 f by (subst (asm) fwd_loop.simps) (auto intro!: fwd_calls_okI_one split: option.splits if_splits)
  ultimately show ?case using t by (intro exI [of _ "[SPCalled (sp_request_of sp params) e]"]) simp
next
  case (Suc n)
  let ?req = "sp_request_of sp params"
  obtain tr1 e where f: "ForwardToSP env tr sp params = (tr1, e)" by fastforce
  note t = dispatch_trace [OF f]
  show ?case
  proof (cases "\<exists>e'. e = Some e' \<and> x_ctx env tr1 = None \<and> IsRetryable e'")
    case False
    then have "tr' = tr1" "fwd_calls_ok ?req (Suc (Suc n)) [(?req, e)] r"
      using Suc.prems f
      by (subst (asm) fwd_loop.simps; auto intro!: fwd_calls_okI_one split: option.splits if_splits)+
    then show ?thesis using t by (intro exI [of _ "[SPCalled ?req e]"]) simp
  next
    case True
    then obtain e' where e': "e = Some e'" "x_ctx env tr1 = None" "IsRetryable e'" by blast
    let ?d = "ApplyJitter (CalculateBackoff (rp_Backoff policy) (rp_MaxBackoff policy) a) (x_rand env tr1)"
    let ?w = "x_wait env tr1 ?d"
    show ?thesis
    proof (cases ?w)
      case None
      then have "fwd_loop env sp params policy n (a + 1) (tr1 @ [Waited ?d None]) = (tr', r)"
        using Suc.prems f e' by (subst (asm) fwd_loop.simps) (simp add: Let_def)
      from Suc.IH [OF this] obtain seg where s: "tr' = tr1 @ [Waited ?d None] @ seg" "list_all fwd_effect seg"
        "fwd_calls_ok ?req (Suc n) (sp_calls seg) r" by auto
      show ?thesis
        using s t e' fwd_calls_ok_Cons [OF s(3) e'(3)]
        by (intro exI [of _ "[SPCalled ?req (Some e'), Waited ?d None] @ seg"]) simp
    next
      case (Some c)
      then have r: "tr' = tr1 @ [Waited ?d (Some c)]" "r = Some (CtxError c)"
        using Suc.prems f e' by (subst (asm) fwd_loop.simps, simp add: Let_def)+
      have "fwd_calls_ok ?req (Suc (Suc n)) [(?req, Some e')] r"
        using r(2) by (intro fwd_calls_okI_one) auto
      then show ?thesis
        using r t e' by (intro exI [of _ "[SPCalled ?req (Some e'), Waited ?d (Some c)]"]) simp
    qed
  qed
qed

lemma ForwardWithRetry_outcome:
  assumes "ForwardWithRetry env tr sp params policy = (tr', r)"
  shows "\<exists>seg. tr' = tr @ seg \<and> list_all fwd_effect seg \<and>
     fwd_calls_ok (sp_request_of sp params) (nat (max 1 (rp_MaxAttempts policy))) (sp_calls seg) r"
proof -
  let ?n = "nat ((if rp_MaxAttempts policy < 1 then 1 else rp_MaxAttempts policy) - 1)"
  have "Suc ?n = nat (max 1 (rp_MaxAttempts policy))" by (auto simp: max_def)
  then show ?thesis
    using fwd_loop_outcome [of env sp params policy ?n 0 tr tr' r] assms by (simp add: ForwardWithRetry_def Let_def)
qed

text \<open>C12: a forward calls the provider at least once and at most \<open>max 1 MaxAttempts\<close> times, always with the
  same request and therefore the same idempotency key; it succeeds exactly when the last call did; it
  retries only after connection errors, 5xx and 429; and it gives up only on cancellation, on a
  non-retryable answer, or when the attempts are used up.  It always terminates and has no other effect.\<close>

theorem ForwardWithRetry_spec:
  "\<exists>seg. fst (ForwardWithRetry env tr sp params policy) = tr @ seg \<and> list_all fwd_effect seg \<and>
     fwd_calls_ok (sp_request_of sp params) (nat (max 1 (rp_MaxAttempts policy))) (sp_calls seg)
       (snd (ForwardWithRetry env tr sp params policy))"
  using ForwardWithRetry_outcome [OF prod.collapse [symmetric]] .

end
