(* ===== verification/Router.thy ===== *)
theory Router
  imports Forwarding Resource_Sets
begin

text \<open>
  \<open>internal/routing/router.go\<close>: routing of create, delete and cancel requests.  \<open>HandleRequest\<close> and
  \<open>HandleCancel\<close> are modelled as the code that one goroutine runs from start to end; how several of them
  interleave is the subject of \<open>Router_Interleaving\<close>.  The two resource sets are used through their
  contract \<^typ>\<open>lru\<close>, which \<open>ResourceSet\<close> refines (\<open>rs_run_refines\<close>).
\<close>

section \<open>State and configuration\<close>

record router_cfg =
  cfg_agentName :: string
  cfg_topicName :: string
  cfg_retryTopic :: string
  cfg_policy :: retry_policy
  cfg_forwarder :: bool \<comment> \<open>a forwarder is configured\<close>

record retry_message =
  rm_id :: nat
  rm_ResourceID :: string

datatype handler_error =
    HandlerStoreError store_error
  | HandlerPublishError
  | ErrForwardInFlight
  | HandlerCtxError ctx_error
  | HandlerFetchError
  | HandlerAckError
  | HandlerNakError

record router_state =
  r_registry :: registry
  r_disk :: disk
  r_tracker :: tracker
  r_deny :: lru
  r_claimed :: lru
  r_inFlight :: key_lock
  r_trace :: trace

definition claimedResourcesSetMaxSize :: int where
  "claimedResourcesSetMaxSize = 100000"

definition NewRouter :: "registry \<Rightarrow> disk \<Rightarrow> tracker \<Rightarrow> int \<Rightarrow> router_state" where
  "NewRouter reg d t denyListMaxSize =
     \<lparr>r_registry = reg, r_disk = d, r_tracker = t, r_deny = lru_new denyListMaxSize,
      r_claimed = lru_new claimedResourcesSetMaxSize, r_inFlight = NewKeyLock, r_trace = []\<rparr>"

definition responseCtx :: "router_cfg \<Rightarrow> string \<Rightarrow> response_ctx" where
  "responseCtx cfg resourceID =
     \<lparr>rc_ResourceID = resourceID, rc_AgentName = cfg_agentName cfg, rc_TopicName = cfg_topicName cfg\<rparr>"

definition publishCE :: "fwd_env \<Rightarrow> router_cfg \<Rightarrow> router_state \<Rightarrow> string \<Rightarrow> ce_data \<Rightarrow> router_state" where
  "publishCE env cfg s ceType data =
     s\<lparr>r_trace := fst (PublishCE env (r_trace s) SubjectResponses (cfg_agentName cfg) ceType data)\<rparr>"

definition InvalidPayload_message :: string where
  "InvalidPayload_message = ''resourceId and serviceType are required''"

definition error_data :: "router_cfg \<Rightarrow> string \<Rightarrow> error_code \<Rightarrow> string \<Rightarrow> ce_data" where
  "error_data cfg resourceID code message = ErrorData (responseCtx cfg resourceID) code message None"

section \<open>HandleRequest\<close>

definition parseRequestCE :: "ce_message \<Rightarrow> (bool \<times> payload \<times> string) option" where
  "parseRequestCE msg =
     (case msg of
        MalformedCE \<Rightarrow> None
      | CloudEvent ty i data \<Rightarrow>
          if ty = TypeRequestCreate then map_option (\<lambda>p. (True, p, i)) data
          else if ty = TypeRequestDelete then map_option (\<lambda>p. (False, p, i)) data
          else None)"

definition router_params :: "bool \<Rightarrow> payload \<Rightarrow> string \<Rightarrow> forward_params" where
  "router_params isCreate p eventID =
     \<lparr>fp_ResourceID = p_ResourceID p, fp_ServiceType = p_ServiceType p, fp_Spec = p_Spec p, fp_EventID = eventID,
      fp_IsCreate = isCreate\<rparr>"

definition release_inFlight :: "string \<Rightarrow> router_state \<Rightarrow> router_state" where
  "release_inFlight i s = s\<lparr>r_inFlight := kl_Remove (r_inFlight s) i\<rparr>"

definition unclaim :: "bool \<Rightarrow> string \<Rightarrow> router_state \<Rightarrow> router_state" where
  "unclaim newlyAdded i s = (if newlyAdded then s\<lparr>r_claimed := lru_remove (r_claimed s) i\<rparr> else s)"

definition forward_claimed :: "fwd_env \<Rightarrow> router_cfg \<Rightarrow> router_state \<Rightarrow> stored_provider \<Rightarrow> bool \<Rightarrow> payload \<Rightarrow> string \<Rightarrow> bool \<Rightarrow>
    router_state \<times> handler_error option" where
  "forward_claimed env cfg s sp isCreate p eventID newlyAdded =
     (case ForwardWithRetry env (r_trace s) sp (router_params isCreate p eventID) (cfg_policy cfg) of
        (tr, fwdErr) \<Rightarrow>
          let s = s\<lparr>r_trace := tr\<rparr>; ctx = responseCtx cfg (p_ResourceID p)
          in case fwdErr of
               None \<Rightarrow>
                 (if isCreate then publishCE env cfg s TypeCreationAcked (CreationAckData ctx ''PROVISIONING'')
                  else publishCE env cfg s TypeDeletionAcked (DeletionAckData ctx ''DELETING''), None)
             | Some e \<Rightarrow>
                 (case x_ctx env tr of
                    Some c \<Rightarrow> (unclaim newlyAdded (p_ResourceID p) s, Some (HandlerCtxError c))
                  | None \<Rightarrow>
                      (unclaim newlyAdded (p_ResourceID p)
                         (publishCE env cfg s TypeError (TerminalProviderErrorData e (p_ServiceType p) ctx)), None)))"

definition forwardWithRetry :: "fwd_env \<Rightarrow> router_cfg \<Rightarrow> router_state \<Rightarrow> stored_provider \<Rightarrow> bool \<Rightarrow> payload \<Rightarrow> string \<Rightarrow>
    router_state \<times> handler_error option" where
  "forwardWithRetry env cfg s sp isCreate p eventID =
     (let i = p_ResourceID p; (lock, acquired) = kl_AddIfAbsent (r_inFlight s) i
      in if \<not> acquired then (s, Some ErrForwardInFlight)
         else
           let (claimed, newlyAdded) = lru_insert (r_claimed s) i;
               s = s\<lparr>r_inFlight := lock, r_claimed := claimed\<rparr>;
               (deny, denied) = (if isCreate then lru_consume (r_deny s) i else (r_deny s, False));
               s = s\<lparr>r_deny := deny\<rparr>
           in if denied then (release_inFlight i (unclaim newlyAdded i s), None)
              else map_prod (release_inFlight i) id (forward_claimed env cfg s sp isCreate p eventID newlyAdded))"

definition HandleRequest :: "fwd_env \<Rightarrow> router_cfg \<Rightarrow> router_state \<Rightarrow> ce_message \<Rightarrow> router_state \<times> handler_error option" where
  "HandleRequest env cfg s msg =
     (case parseRequestCE msg of
        None \<Rightarrow> (s, None)
      | Some (isCreate, p, eventID) \<Rightarrow>
          if p_ResourceID p = '''' \<or> p_ServiceType p = '''' then
            (publishCE env cfg s TypeError (error_data cfg '''' INVALID_PAYLOAD InvalidPayload_message), None)
          else
            let (deny, denied) = (if isCreate then lru_consume (r_deny s) (p_ResourceID p) else (r_deny s, False));
                s = s\<lparr>r_deny := deny\<rparr>
            in if denied then (s, None)
               else
                 let (d, res) = ResolveProvider (x_io env) (r_registry s) (r_disk s) (r_tracker s) (p_ServiceType p);
                     s = s\<lparr>r_disk := d\<rparr>
                 in case res of
                      StoreFailed e \<Rightarrow> (s, Some (HandlerStoreError e))
                    | NoProvider \<Rightarrow>
                        (publishCE env cfg s TypeError (error_data cfg (p_ResourceID p) UNSUPPORTED_SERVICE_TYPE
                           (''provider not found for service type: '' @ p_ServiceType p)), None)
                    | Resolved sp status \<Rightarrow>
                        if status = Unavailable \<or> status \<noteq> Unhealthy \<and> \<not> cfg_forwarder cfg then
                          (publishCE env cfg s TypeError (error_data cfg (p_ResourceID p) SP_UNAVAILABLE
                             (''provider unavailable for service type: '' @ p_ServiceType p)), None)
                        else if status = Unhealthy then
                          let (tr, ok) = Publish env (r_trace s) (cfg_retryTopic cfg) msg; s = s\<lparr>r_trace := tr\<rparr>
                          in if \<not> ok then (s, Some HandlerPublishError)
                             else (publishCE env cfg s TypeRequestQueued
                                     (RequestQueuedData (responseCtx cfg (p_ResourceID p)) (p_ServiceType p) ''QUEUED''), None)
                        else forwardWithRetry env cfg s sp isCreate p eventID)"

section \<open>HandleCancel\<close>

definition parseCancelCE :: "ce_message \<Rightarrow> (payload \<times> string) option" where
  "parseCancelCE msg =
     (case msg of
        MalformedCE \<Rightarrow> None
      | CloudEvent ty i data \<Rightarrow> if ty \<noteq> TypeRequestCancel then None else map_option (\<lambda>p. (p, i)) data)"

text \<open>A \<open>RetryTopicConsumer\<close>: what \<open>FetchRetryMessages\<close> does to the shared state, and its messages or
  \<^const>\<open>None\<close> for an error.  10 seconds is the delay that \<open>FetchRetryMessages\<close> puts into \<open>NakFunc\<close>.\<close>

type_synonym retry_consumer = "router_state \<Rightarrow> router_state \<times> retry_message list option"

definition storeErrorRetryDelay :: duration where
  "storeErrorRetryDelay = 10 * ns_per_s"

fun purge_loop :: "fwd_env \<Rightarrow> string \<Rightarrow> retry_message list \<Rightarrow> trace \<Rightarrow> trace \<times> handler_error option" where
  "purge_loop env resourceID [] tr = (tr, None)"
| "purge_loop env resourceID (m # ms) tr =
     (let ok = x_ack env tr
      in if rm_ResourceID m = resourceID then
           let tr = tr @ [Disposed (rm_id m) Ack ok]
           in if ok then purge_loop env resourceID ms tr else (tr, Some HandlerAckError)
         else
           let tr = tr @ [Disposed (rm_id m) (Nak storeErrorRetryDelay) ok]
           in if ok then purge_loop env resourceID ms tr else (tr, Some HandlerNakError))"

definition purgeFromRetryTopic :: "fwd_env \<Rightarrow> retry_consumer \<Rightarrow> router_state \<Rightarrow> string \<Rightarrow> router_state \<times> handler_error option" where
  "purgeFromRetryTopic env rc s resourceID =
     (case rc s of
        (s, None) \<Rightarrow> (s, Some HandlerFetchError)
      | (s, Some messages) \<Rightarrow>
          let (tr, e) = purge_loop env resourceID messages (r_trace s) in (s\<lparr>r_trace := tr\<rparr>, e))"

text \<open>\<open>rc\<close> is the late-bound retry consumer (\<open>SetRetryConsumer\<close>), \<^const>\<open>None\<close> while it is not set.\<close>

definition HandleCancel :: "fwd_env \<Rightarrow> router_cfg \<Rightarrow> retry_consumer option \<Rightarrow> router_state \<Rightarrow> ce_message \<Rightarrow>
    router_state \<times> handler_error option" where
  "HandleCancel env cfg rc s msg =
     (case parseCancelCE msg of
        None \<Rightarrow> (s, None)
      | Some (p, eventID) \<Rightarrow>
          if p_ResourceID p = '''' \<or> p_ServiceType p = '''' then
            (publishCE env cfg s TypeError (error_data cfg '''' INVALID_PAYLOAD InvalidPayload_message), None)
          else
            let (claimed, c) = lru_contains (r_claimed s) (p_ResourceID p); s = s\<lparr>r_claimed := claimed\<rparr>
            in if c then
                 (publishCE env cfg s TypeCancelRejected
                    (CancelRejectedData (responseCtx cfg (p_ResourceID p)) ''resource already claimed''), None)
               else
                 let s = s\<lparr>r_deny := fst (lru_insert (r_deny s) (p_ResourceID p))\<rparr>;
                     (s, e) = (case rc of None \<Rightarrow> (s, None) | Some rc \<Rightarrow> purgeFromRetryTopic env rc s (p_ResourceID p))
                 in case e of
                      Some e \<Rightarrow> (s, Some e)
                    | None \<Rightarrow>
                        (publishCE env cfg s TypeCancelAcked
                           (CancelAckData (responseCtx cfg (p_ResourceID p)) (p_ServiceType p)), None))"

section \<open>Effects of a forward\<close>

lemma publishCE_frame [simp]:
  "r_registry (publishCE env cfg s ty d) = r_registry s" "r_disk (publishCE env cfg s ty d) = r_disk s"
  "r_tracker (publishCE env cfg s ty d) = r_tracker s" "r_deny (publishCE env cfg s ty d) = r_deny s"
  "r_claimed (publishCE env cfg s ty d) = r_claimed s" "r_inFlight (publishCE env cfg s ty d) = r_inFlight s"
  by (simp_all add: publishCE_def)

lemma publishCE_trace:
  "cfg_agentName cfg \<noteq> '''' \<Longrightarrow>
   \<exists>ok. r_trace (publishCE env cfg s ty d) = r_trace s @ [CEPublished \<lparr>ce_source = ''dcm/agents/'' @ cfg_agentName cfg,
     ce_type = ty, ce_subject = SubjectResponses, ce_data = d\<rparr> ok]"
  by (simp add: publishCE_def PublishCE_def FormatSource_def Let_def)

lemma unclaim_frame [simp]:
  "r_registry (unclaim b i s) = r_registry s" "r_disk (unclaim b i s) = r_disk s" "r_tracker (unclaim b i s) = r_tracker s"
  "r_deny (unclaim b i s) = r_deny s" "r_inFlight (unclaim b i s) = r_inFlight s" "r_trace (unclaim b i s) = r_trace s"
  by (simp_all add: unclaim_def)

lemma release_frame [simp]:
  "r_registry (release_inFlight i s) = r_registry s" "r_disk (release_inFlight i s) = r_disk s"
  "r_tracker (release_inFlight i s) = r_tracker s" "r_deny (release_inFlight i s) = r_deny s"
  "r_claimed (release_inFlight i s) = r_claimed s" "r_trace (release_inFlight i s) = r_trace s"
  by (simp_all add: release_inFlight_def)

lemma unclaim_mem: "lru_mem (r_claimed (unclaim b i s)) j \<longleftrightarrow> lru_mem (r_claimed s) j \<and> (b \<longrightarrow> j \<noteq> i)"
  by (auto simp: unclaim_def lru_mem_remove)

text \<open>What one handler run appends to the trace: \<open>calls\<close> to the provider, and one CloudEvent exactly when it
  returns without error.\<close>

definition forward_post :: "router_cfg \<Rightarrow> router_state \<Rightarrow> sp_request \<Rightarrow> bool \<Rightarrow> string \<Rightarrow> router_state \<Rightarrow> handler_error option \<Rightarrow> bool" where
  "forward_post cfg s req newlyAdded i s' r \<longleftrightarrow>
     (\<exists>seg. r_trace s' = r_trace s @ seg \<and> sp_calls seg \<noteq> [] \<and> (\<forall>c \<in> set (sp_calls seg). fst c = req) \<and>
        (\<forall>c \<in> set (butlast (sp_calls seg)). snd c \<noteq> None) \<and>
        length (sp_calls seg) \<le> nat (max 1 (rp_MaxAttempts (cfg_policy cfg))) \<and>
        length (ces_sent seg) = (if r = None then 1 else 0) \<and>
        (\<forall>j. lru_mem (r_claimed s') j \<longleftrightarrow>
           lru_mem (r_claimed s) j \<and> (newlyAdded \<and> j = i \<longrightarrow> snd (last (sp_calls seg)) = None))) \<and>
     r_registry s' = r_registry s \<and> r_tracker s' = r_tracker s \<and> r_deny s' = r_deny s \<and> r_inFlight s' = r_inFlight s \<and>
     (\<forall>e. r = Some e \<longrightarrow> (\<exists>c. e = HandlerCtxError c))"

lemma publishCE_one:
  assumes "cfg_agentName cfg \<noteq> ''''"
  obtains e where "r_trace (publishCE env cfg s ty d) = r_trace s @ [e]" "sp_calls [e] = []"
    "map ce_data (ces_sent [e]) = [d]" "map ce_type (ces_sent [e]) = [ty]"
proof -
  obtain ok where ok: "r_trace (publishCE env cfg s ty d) = r_trace s @ [CEPublished
      \<lparr>ce_source = ''dcm/agents/'' @ cfg_agentName cfg, ce_type = ty, ce_subject = SubjectResponses, ce_data = d\<rparr> ok]"
    using publishCE_trace [OF assms] by blast
  show ?thesis by (rule that [OF ok]) simp_all
qed

lemma forward_postI:
  assumes "fwd_calls_ok req (nat (max 1 (rp_MaxAttempts (cfg_policy cfg)))) (sp_calls seg) fe"
    and "list_all fwd_effect seg"
    and "r_trace s' = r_trace s @ seg @ es" "sp_calls es = []" "length (ces_sent es) = (if r = None then 1 else 0)"
    and "r_registry s' = r_registry s" "r_tracker s' = r_tracker s" "r_deny s' = r_deny s" "r_inFlight s' = r_inFlight s"
    and "\<forall>j. lru_mem (r_claimed s') j \<longleftrightarrow> lru_mem (r_claimed s) j \<and> (newlyAdded \<and> j = i \<longrightarrow> fe = None)"
    and "\<forall>e. r = Some e \<longrightarrow> (\<exists>c. e = HandlerCtxError c)"
  shows "forward_post cfg s req newlyAdded i s' r"
  unfolding forward_post_def
  using assms fwd_effect_ces [OF assms(2)]
  by (intro conjI exI [of _ "seg @ es"]) (auto simp: fwd_calls_ok_def)

lemma forward_claimed_effect:
  assumes run: "forward_claimed env cfg s sp isCreate p eventID newlyAdded = (s', r)" and agent: "cfg_agentName cfg \<noteq> ''''"
  shows "forward_post cfg s (sp_request_of sp (router_params isCreate p eventID)) newlyAdded (p_ResourceID p) s' r"
proof -
  let ?params = "router_params isCreate p eventID"
  obtain tr fe where f: "ForwardWithRetry env (r_trace s) sp ?params (cfg_policy cfg) = (tr, fe)" by fastforce
  from ForwardWithRetry_outcome [OF f] obtain seg where seg: "tr = r_trace s @ seg" "list_all fwd_effect seg"
    "fwd_calls_ok (sp_request_of sp ?params) (nat (max 1 (rp_MaxAttempts (cfg_policy cfg)))) (sp_calls seg) fe" by blast
  let ?s = "s\<lparr>r_trace := tr\<rparr>"
  have one: "\<exists>e. r_trace (publishCE env cfg ?s ty d) = r_trace s @ seg @ [e] \<and> sp_calls [e] = [] \<and> length (ces_sent [e]) = 1"
    for ty d
  proof -
    obtain e where e: "r_trace (publishCE env cfg ?s ty d) = r_trace ?s @ [e]" "sp_calls [e] = []"
      "map ce_type (ces_sent [e]) = [ty]"
      by (rule publishCE_one [OF agent])
    have "length (map ce_type (ces_sent [e])) = 1" unfolding e(3) by simp
    then have "length (ces_sent [e]) = 1" by (simp only: length_map)
    then show ?thesis using e(1,2) seg(1) by (intro exI [of _ e]) simp
  qed
  show ?thesis
  proof (cases fe)
    case None
    then have r: "r = None" "s' = (if isCreate
        then publishCE env cfg ?s TypeCreationAcked (CreationAckData (responseCtx cfg (p_ResourceID p)) ''PROVISIONING'')
        else publishCE env cfg ?s TypeDeletionAcked (DeletionAckData (responseCtx cfg (p_ResourceID p)) ''DELETING''))"
      using run f by (auto simp: forward_claimed_def Let_def)
    obtain e where "r_trace s' = r_trace s @ seg @ [e] \<and> sp_calls [e] = [] \<and> length (ces_sent [e]) = 1"
      using one [of TypeCreationAcked] one [of TypeDeletionAcked] r(2) by (cases isCreate) auto
    then show ?thesis using None r by (intro forward_postI [OF seg(3,2)]) auto
  next
    case (Some e)
    show ?thesis
    proof (cases "x_ctx env tr")
      case None
      then have r: "r = None" "s' = unclaim newlyAdded (p_ResourceID p) (publishCE env cfg ?s TypeError
          (TerminalProviderErrorData e (p_ServiceType p) (responseCtx cfg (p_ResourceID p))))"
        using run f Some by (auto simp: forward_claimed_def Let_def)
      obtain e' where "r_trace s' = r_trace s @ seg @ [e'] \<and> sp_calls [e'] = [] \<and> length (ces_sent [e']) = 1"
        using one [of TypeError] r(2) by auto
      then show ?thesis using Some r by (intro forward_postI [OF seg(3,2)]) (auto simp: unclaim_mem)
    next
      case ctx: (Some c')
      then have r: "r = Some (HandlerCtxError c')" "s' = unclaim newlyAdded (p_ResourceID p) ?s"
        using run f Some by (auto simp: forward_claimed_def Let_def)
      then show ?thesis
        using Some seg(1) by (intro forward_postI [OF seg(3,2), where es = "[]"]) (auto simp: unclaim_mem)
    qed
  qed
qed

section \<open>Effects of a request\<close>

lemma ResolveProvider_ready:
  assumes "ResolveProvider io reg d t serviceType = (d', Resolved sp status)" and "status \<noteq> Unavailable"
  shows "Lookup reg serviceType = Some (sp_Name sp) \<and> map_option hs_status (GetState t (sp_ID sp)) = Some status"
  using assms
  by (auto simp: ResolveProvider_def fs_GetByName_def findBy_def find_Some_iff
      split: option.splits prod.splits sum.splits if_splits)

lemma succeeded_last:
  "calls \<noteq> [] \<Longrightarrow> \<forall>c \<in> set (butlast calls). snd c \<noteq> None \<Longrightarrow> (\<exists>c \<in> set calls. snd c = None) \<longleftrightarrow> snd (last calls) = None"
  by (cases calls rule: rev_cases) auto

definition request_denied :: "router_state \<Rightarrow> bool \<Rightarrow> payload \<Rightarrow> bool" where
  "request_denied s isCreate p \<longleftrightarrow> isCreate \<and> lru_mem (r_deny s) (p_ResourceID p)"

text \<open>The trace segment of one request: who may be called, how many answers are sent, and what is claimed.\<close>

definition request_seg :: "router_cfg \<Rightarrow> router_state \<Rightarrow> bool \<Rightarrow> payload \<Rightarrow> string \<Rightarrow> trace \<Rightarrow> router_state \<Rightarrow> handler_error option \<Rightarrow> bool" where
  "request_seg cfg s isCreate p eventID seg s' r \<longleftrightarrow>
     (\<forall>c \<in> set (sp_calls seg). \<exists>sp. fst c = sp_request_of sp (router_params isCreate p eventID) \<and>
        Lookup (r_registry s) (p_ServiceType p) = Some (sp_Name sp) \<and>
        map_option hs_status (GetState (r_tracker s) (sp_ID sp)) = Some Ready) \<and>
     (sp_calls seg \<noteq> [] \<longrightarrow> \<not> request_denied s isCreate p \<and> p_ResourceID p \<notin> kl_items (r_inFlight s) \<and>
        length (sp_calls seg) \<le> nat (max 1 (rp_MaxAttempts (cfg_policy cfg)))) \<and>
     (lru_mem (r_claimed s') (p_ResourceID p) \<longleftrightarrow>
        lru_mem (r_claimed s) (p_ResourceID p) \<or> (\<exists>c \<in> set (sp_calls seg). snd c = None))"

definition request_post :: "router_cfg \<Rightarrow> router_state \<Rightarrow> bool \<Rightarrow> payload \<Rightarrow> string \<Rightarrow> router_state \<Rightarrow> handler_error option \<Rightarrow> bool \<Rightarrow> bool" where
  "request_post cfg s isCreate p eventID s' r dropped \<longleftrightarrow>
     (\<exists>seg. r_trace s' = r_trace s @ seg \<and> request_seg cfg s isCreate p eventID seg s' r \<and>
        length (ces_sent seg) = (if r = None \<and> \<not> dropped then 1 else 0)) \<and>
     r_registry s' = r_registry s \<and> r_tracker s' = r_tracker s \<and> kl_items (r_inFlight s') = kl_items (r_inFlight s)"

lemma forwardWithRetry_effect:
  assumes run: "forwardWithRetry env cfg s sp isCreate p eventID = (s', r)" and agent: "cfg_agentName cfg \<noteq> ''''"
    and free: "\<not> request_denied s isCreate p"
    and sp: "Lookup (r_registry s) (p_ServiceType p) = Some (sp_Name sp)"
      "map_option hs_status (GetState (r_tracker s) (sp_ID sp)) = Some Ready"
  shows "request_post cfg s isCreate p eventID s' r False \<and> r_deny s' = r_deny s"
proof (cases "p_ResourceID p \<in> kl_items (r_inFlight s)")
  case True
  then have "s' = s" "r = Some ErrForwardInFlight"
    using run by (auto simp: forwardWithRetry_def kl_AddIfAbsent_def Let_def)
  then show ?thesis by (auto simp: request_post_def request_seg_def intro!: exI [of _ "[]"])
next
  case False
  let ?i = "p_ResourceID p" and ?ins = "lru_insert (r_claimed s) (p_ResourceID p)"
  let ?s = "s\<lparr>r_inFlight := fst (kl_AddIfAbsent (r_inFlight s) ?i), r_claimed := fst ?ins\<rparr>"
  obtain s1 where f: "forward_claimed env cfg ?s sp isCreate p eventID (snd ?ins) = (s1, r)" and s': "s' = release_inFlight ?i s1"
  proof -
    have "map_prod (release_inFlight ?i) id (forward_claimed env cfg ?s sp isCreate p eventID (snd ?ins)) = (s', r)"
      using run False free
      by (cases isCreate)
        (simp_all add: forwardWithRetry_def kl_AddIfAbsent_def Let_def case_prod_unfold request_denied_def lru_consume_def)
    then show ?thesis using that by (cases "forward_claimed env cfg ?s sp isCreate p eventID (snd ?ins)") auto
  qed
  note post = forward_claimed_effect [OF f agent, unfolded forward_post_def]
  from post obtain seg where seg: "r_trace s1 = r_trace s @ seg" "sp_calls seg \<noteq> []"
    "\<forall>c \<in> set (sp_calls seg). fst c = sp_request_of sp (router_params isCreate p eventID)"
    "\<forall>c \<in> set (butlast (sp_calls seg)). snd c \<noteq> None"
    "length (sp_calls seg) \<le> nat (max 1 (rp_MaxAttempts (cfg_policy cfg)))"
    "length (ces_sent seg) = (if r = None then 1 else 0)"
    "\<forall>j. lru_mem (r_claimed s1) j \<longleftrightarrow> lru_mem (fst ?ins) j \<and> (snd ?ins \<and> j = ?i \<longrightarrow> snd (last (sp_calls seg)) = None)"
    by auto
  have "lru_mem (r_claimed s1) ?i \<longleftrightarrow> lru_mem (r_claimed s) ?i \<or> (\<exists>c \<in> set (sp_calls seg). snd c = None)"
    using seg(7) succeeded_last [OF seg(2,4)] by (auto simp: lru_mem_insert lru_insert_new)
  then have "request_seg cfg s isCreate p eventID seg s' r"
    using seg sp free False s' by (auto simp: request_seg_def)
  moreover have "kl_items (r_inFlight s') = kl_items (r_inFlight s)"
    using kl.bracket [of "r_inFlight s" ?i] False post s' by (simp add: release_inFlight_def kl.acquire_result)
  ultimately show ?thesis
    using seg(1,6) post s' by (auto simp: request_post_def)
qed

lemma request_post_answer:
  assumes agent: "cfg_agentName cfg \<noteq> ''''" and tr: "r_trace s1 = r_trace s @ es" "sp_calls es = []" "ces_sent es = []"
    and same: "r_registry s1 = r_registry s" "r_tracker s1 = r_tracker s" "r_claimed s1 = r_claimed s" "r_inFlight s1 = r_inFlight s"
  shows "request_post cfg s isCreate p eventID (publishCE env cfg s1 ty d) None False"
proof -
  obtain e where e: "r_trace (publishCE env cfg s1 ty d) = r_trace s1 @ [e]" "sp_calls [e] = []"
    "map ce_type (ces_sent [e]) = [ty]"
    by (rule publishCE_one [OF agent])
  have "length (map ce_type (ces_sent [e])) = 1" unfolding e(3) by simp
  then have l: "length (ces_sent [e]) = 1" by (simp only: length_map)
  have "sp_calls (es @ [e]) = []" using tr(2) e(2) by (simp only: sp_calls_append append.simps)
  moreover have "length (ces_sent (es @ [e])) = 1" using tr(3) l by (simp only: ces_append append.simps)
  ultimately show ?thesis unfolding request_post_def request_seg_def
    using tr(1) e(1) same by (intro conjI exI [of _ "es @ [e]"]) simp_all
qed

lemma request_post_silent:
  assumes "r_trace s1 = r_trace s @ es" "sp_calls es = []" "ces_sent es = []"
    and "r_registry s1 = r_registry s" "r_tracker s1 = r_tracker s" "r_claimed s1 = r_claimed s" "r_inFlight s1 = r_inFlight s"
    and "r \<noteq> None \<or> dropped"
  shows "request_post cfg s isCreate p eventID s1 r dropped"
  unfolding request_post_def request_seg_def using assms by (intro conjI exI [of _ es]) simp_all

definition request_dropped :: "router_state \<Rightarrow> bool \<Rightarrow> payload \<Rightarrow> bool" where
  "request_dropped s isCreate p \<longleftrightarrow> p_ResourceID p \<noteq> '''' \<and> p_ServiceType p \<noteq> '''' \<and> request_denied s isCreate p"

lemma request_post_deny:
  "request_post cfg (s\<lparr>r_deny := l, r_disk := d\<rparr>) isCreate p eventID s' r False \<Longrightarrow> \<not> request_denied s isCreate p \<Longrightarrow>
   request_post cfg s isCreate p eventID s' r False"
  by (auto simp: request_post_def request_seg_def)

lemma HandleRequest_effect:
  assumes agent: "cfg_agentName cfg \<noteq> ''''" and parse: "parseRequestCE msg = Some (isCreate, p, eventID)"
    and run: "HandleRequest env cfg s msg = (s', r)"
  shows "request_post cfg s isCreate p eventID s' r (request_dropped s isCreate p)"
proof (cases "p_ResourceID p = '''' \<or> p_ServiceType p = ''''")
  case True
  then have "s' = publishCE env cfg s TypeError (error_data cfg '''' INVALID_PAYLOAD InvalidPayload_message)" "r = None"
    "\<not> request_dropped s isCreate p"
    using run parse by (auto simp: HandleRequest_def request_dropped_def)
  then show ?thesis using request_post_answer [OF agent, of s s "[]"] by simp
next
  case valid: False
  let ?deny = "fst (if isCreate then lru_consume (r_deny s) (p_ResourceID p) else (r_deny s, False))"
  show ?thesis
  proof (cases "request_denied s isCreate p")
    case True
    then have "s' = s\<lparr>r_deny := ?deny\<rparr>" "r = None" "request_dropped s isCreate p"
      using run parse valid
      by (auto simp: HandleRequest_def request_denied_def request_dropped_def lru_consume_def Let_def)
    then show ?thesis by (intro request_post_silent [where es = "[]"]) simp_all
  next
    case False
    then have keep: "\<not> request_dropped s isCreate p" by (simp add: request_dropped_def)
    have deny: "(if isCreate then lru_consume (r_deny s) (p_ResourceID p) else (r_deny s, False)) = (r_deny s, False)"
      using False by (auto simp: request_denied_def lru_consume_def)
    obtain d res where res: "ResolveProvider (x_io env) (r_registry s) (r_disk s) (r_tracker s) (p_ServiceType p) = (d, res)"
      by fastforce
    let ?s = "s\<lparr>r_disk := d\<rparr>"
    note run' = run [unfolded HandleRequest_def parse option.case prod.case deny Let_def]
    show ?thesis
    proof (cases res)
      case NoProvider
      then have "\<exists>ty dt. s' = publishCE env cfg ?s ty dt" "r = None" using run' valid res by auto
      then show ?thesis using request_post_answer [OF agent, of ?s s "[]"] keep by auto
    next
      case (StoreFailed e)
      then have "s' = ?s" "r = Some (HandlerStoreError e)" using run' valid res by auto
      then show ?thesis using keep by (intro request_post_silent [where es = "[]"]) simp_all
    next
      case (Resolved sp status)
      consider (una) "status = Unavailable \<or> status \<noteq> Unhealthy \<and> \<not> cfg_forwarder cfg"
        | (unh) "status = Unhealthy" | (rdy) "status = Ready" "cfg_forwarder cfg"
        by (cases status) auto
      then show ?thesis
      proof cases
        case una
        then have "\<exists>ty dt. s' = publishCE env cfg ?s ty dt" "r = None" using run' valid res Resolved by auto
        then show ?thesis using request_post_answer [OF agent, of ?s s "[]"] keep by auto
      next
        case unh
        let ?s1 = "?s\<lparr>r_trace := r_trace s @ [RawPublished (cfg_retryTopic cfg) msg (x_pub env (r_trace s))]\<rparr>"
        have "(\<exists>ty dt. s' = publishCE env cfg ?s1 ty dt) \<and> r = None \<or> s' = ?s1 \<and> r = Some HandlerPublishError"
          using unh run' valid res Resolved by (auto simp: Publish_def Let_def split: if_splits)
        then show ?thesis
          using request_post_answer [OF agent, of ?s1 s "[RawPublished (cfg_retryTopic cfg) msg (x_pub env (r_trace s))]"]
            request_post_silent [of ?s1 s "[RawPublished (cfg_retryTopic cfg) msg (x_pub env (r_trace s))]"] keep
          by auto
      next
        case rdy
        then have f: "forwardWithRetry env cfg ?s sp isCreate p eventID = (s', r)"
          using run' valid res Resolved by auto
        then show ?thesis
          using forwardWithRetry_effect [OF f agent] False ResolveProvider_ready [of _ _ _ _ _ d sp status] res Resolved rdy keep
            request_post_deny [where s = s and l = "r_deny s" and d = d]
          by (auto simp: request_denied_def)
      qed
    qed
  qed
qed


text \<open>C10: every request is answered exactly once or redelivered: \<open>HandleRequest\<close> sends exactly one CloudEvent
  (a failed publish is logged, not retried) when it returns without error for a request it understands and does not drop (a create whose resource
  is in the deny list), and none when it returns an error, drops the request, or cannot parse it.\<close>

theorem HandleRequest_one_answer:
  assumes "cfg_agentName cfg \<noteq> ''''" and "HandleRequest env cfg s msg = (s', r)"
  shows "\<exists>seg. r_trace s' = r_trace s @ seg \<and>
    length (ces_sent seg) =
      (case parseRequestCE msg of
         None \<Rightarrow> 0
       | Some (isCreate, p, eventID) \<Rightarrow> if r = None \<and> \<not> request_dropped s isCreate p then 1 else 0)"
proof (cases "parseRequestCE msg")
  case None
  then show ?thesis using assms(2) by (auto simp: HandleRequest_def)
next
  case (Some x)
  obtain isCreate p eventID where x: "x = (isCreate, p, eventID)" by (cases x)
  show ?thesis
    using HandleRequest_effect [OF assms(1) Some [unfolded x] assms(2)] Some x by (auto simp: request_post_def)
qed

section \<open>Effects of a cancel\<close>

fun disposals :: "trace \<Rightarrow> (nat \<times> disposition) list" where
  "disposals [] = []"
| "disposals (Disposed i d ok # tr) = (i, d) # disposals tr"
| "disposals (_ # tr) = disposals tr"

lemma disposals_append [simp]: "disposals (a @ b) = disposals a @ disposals b"
  by (induction a rule: disposals.induct) auto

lemma purge_loop_effect:
  "purge_loop env i ms tr = (tr', r) \<Longrightarrow>
   \<exists>seg. tr' = tr @ seg \<and> sp_calls seg = [] \<and> ces_sent seg = [] \<and>
     (r = None \<longrightarrow> disposals seg =
        map (\<lambda>m. (rm_id m, if rm_ResourceID m = i then Ack else Nak storeErrorRetryDelay)) ms)"
proof (induction ms arbitrary: tr tr' r)
  case (Cons m ms)
  let ?e = "Disposed (rm_id m) (if rm_ResourceID m = i then Ack else Nak storeErrorRetryDelay) (x_ack env tr)"
  show ?case
  proof (cases "x_ack env tr")
    case True
    then have "purge_loop env i ms (tr @ [?e]) = (tr', r)" using Cons.prems by (auto simp: Let_def split: if_splits)
    from Cons.IH [OF this] obtain seg where "tr' = (tr @ [?e]) @ seg" "sp_calls seg = []" "ces_sent seg = []"
      "r = None \<longrightarrow> disposals seg = map (\<lambda>m. (rm_id m, if rm_ResourceID m = i then Ack else Nak storeErrorRetryDelay)) ms"
      by blast
    then show ?thesis by (intro exI [of _ "?e # seg"]) auto
  next
    case False
    then have "tr' = tr @ [?e]" "r \<noteq> None" using Cons.prems by (auto simp: Let_def split: if_splits)
    then show ?thesis by (intro exI [of _ "[?e]"]) auto
  qed
qed simp

text \<open>What \<open>HandleCancel\<close> relies on: fetching the retry messages changes nothing but the trace, where it can
  only leave terminated messages.\<close>

fun term_effect :: "effect \<Rightarrow> bool" where
  "term_effect (Disposed _ Term _) = True"
| "term_effect _ = False"

lemma term_effect_silent: "list_all term_effect seg \<Longrightarrow> sp_calls seg = [] \<and> ces_sent seg = []"
proof (induction seg)
  case (Cons e seg)
  then show ?case by (cases e rule: term_effect.cases) simp_all
qed simp

lemma term_effect_disposals: "list_all term_effect seg \<Longrightarrow> \<forall>x \<in> set (disposals seg). snd x = Term"
proof (induction seg)
  case (Cons e seg)
  then show ?case by (cases e rule: term_effect.cases) simp_all
qed simp

abbreviation live_disposals :: "trace \<Rightarrow> (nat \<times> disposition) list" where
  "live_disposals seg \<equiv> filter (\<lambda>x. snd x \<noteq> Term) (disposals seg)"

definition purge_plan :: "string \<Rightarrow> retry_message list \<Rightarrow> (nat \<times> disposition) list" where
  "purge_plan i ms = map (\<lambda>m. (rm_id m, if rm_ResourceID m = i then Ack else Nak storeErrorRetryDelay)) ms"

lemma purge_plan_live: "filter (\<lambda>x. snd x \<noteq> Term) (purge_plan i ms) = purge_plan i ms"
  by (induction ms) (auto simp: purge_plan_def)

locale retry_topic =
  fixes rc :: retry_consumer
  assumes fetch_effect: "\<exists>seg. fst (rc s) = s\<lparr>r_trace := r_trace s @ seg\<rparr> \<and> list_all term_effect seg"
begin

lemma purge_effect:
  assumes "purgeFromRetryTopic env rc s i = (s', e)"
  shows "\<exists>seg. s' = s\<lparr>r_trace := r_trace s @ seg\<rparr> \<and> sp_calls seg = [] \<and> ces_sent seg = [] \<and>
    (e = None \<longrightarrow> live_disposals seg = purge_plan i (the (snd (rc s))))"
proof -
  obtain seg where seg: "fst (rc s) = s\<lparr>r_trace := r_trace s @ seg\<rparr>" "list_all term_effect seg" using fetch_effect by blast
  show ?thesis
  proof (cases "snd (rc s)")
    case None
    then have "s' = fst (rc s)" "e \<noteq> None" using assms by (auto simp: purgeFromRetryTopic_def case_prod_unfold)
    then show ?thesis using seg term_effect_silent [OF seg(2)] by (intro exI [of _ seg]) auto
  next
    case (Some ms)
    obtain tr where p: "purge_loop env i ms (r_trace s @ seg) = (tr, e)" "s' = (fst (rc s))\<lparr>r_trace := tr\<rparr>"
      using assms Some seg(1) by (cases "purge_loop env i ms (r_trace s @ seg)") (auto simp: purgeFromRetryTopic_def case_prod_unfold Let_def)
    from purge_loop_effect [OF p(1)] obtain seg' where "tr = (r_trace s @ seg) @ seg'" "sp_calls seg' = []" "ces_sent seg' = []"
      "e = None \<longrightarrow> disposals seg' = purge_plan i ms" unfolding purge_plan_def by blast
    moreover have "live_disposals seg = []" using term_effect_disposals [OF seg(2)] by (simp add: filter_empty_conv)
    ultimately show ?thesis
      using Some seg p(2) term_effect_silent [OF seg(2)] by (intro exI [of _ "seg @ seg'"]) (auto simp: purge_plan_live)
  qed
qed

lemma cancel_purges:
  assumes "q = (case rc' of None \<Rightarrow> (s, None) | Some rc \<Rightarrow> purgeFromRetryTopic env rc s i)" and "rc' \<in> {None, Some rc}"
  shows "\<exists>seg. fst q = s\<lparr>r_trace := r_trace s @ seg\<rparr> \<and> sp_calls seg = [] \<and> ces_sent seg = [] \<and>
    (snd q = None \<longrightarrow> live_disposals seg = (if rc' = None then [] else purge_plan i (the (snd (rc s)))))"
proof (cases rc')
  case None
  then show ?thesis using assms(1) by (intro exI [of _ "[]"]) simp
next
  case (Some rc'')
  then have "purgeFromRetryTopic env rc s i = (fst q, snd q)" using assms by simp
  then show ?thesis using purge_effect Some by simp
qed

text \<open>The same for the whole handler.\<close>

lemma cancel_effect:
  assumes agent: "cfg_agentName cfg \<noteq> ''''" and parse: "parseCancelCE msg = Some (p, eventID)"
    and valid: "p_ResourceID p \<noteq> ''''" "p_ServiceType p \<noteq> ''''" and run: "HandleCancel env cfg rc' s msg = (s', r)"
    and free: "\<not> lru_mem (r_claimed s) (p_ResourceID p)" and rc': "rc' \<in> {None, Some rc}"
    and t: "t = s\<lparr>r_deny := fst (lru_insert (r_deny s) (p_ResourceID p))\<rparr>"
  shows "\<exists>seg. s' = t\<lparr>r_trace := r_trace s @ seg\<rparr> \<and> sp_calls seg = [] \<and>
    map ce_type (ces_sent seg) = (if r = None then [TypeCancelAcked] else []) \<and>
    (r = None \<longrightarrow> live_disposals seg = (if rc' = None then [] else purge_plan (p_ResourceID p) (the (snd (rc t)))))"
proof -
  let ?q = "case rc' of None \<Rightarrow> (t, None) | Some rc \<Rightarrow> purgeFromRetryTopic env rc t (p_ResourceID p)"
  from cancel_purges [OF refl rc', of t env "p_ResourceID p"] obtain seg where
    seg: "fst ?q = t\<lparr>r_trace := r_trace s @ seg\<rparr>" "sp_calls seg = []" "ces_sent seg = []"
      "snd ?q = None \<longrightarrow> live_disposals seg = (if rc' = None then [] else purge_plan (p_ResourceID p) (the (snd (rc t))))"
    by (auto simp: t)
  have "s\<lparr>r_claimed := fst (lru_contains (r_claimed s) (p_ResourceID p)), r_deny := fst (lru_insert (r_deny s) (p_ResourceID p))\<rparr> = t"
    using free by (simp add: lru_contains_def t)
  then have run': "(case snd ?q of Some e \<Rightarrow> (fst ?q, Some e) | None \<Rightarrow> (publishCE env cfg (fst ?q) TypeCancelAcked
      (CancelAckData (responseCtx cfg (p_ResourceID p)) (p_ServiceType p)), None)) = (s', r)"
    using run valid free unfolding HandleCancel_def parse option.case prod.case
    by (simp add: lru_contains_def Let_def case_prod_unfold)
  show ?thesis
  proof (cases "snd ?q")
    case (Some e)
    then have "s' = fst ?q" "r = Some e" using run' by simp_all
    then show ?thesis using seg by (intro exI [of _ seg]) simp
  next
    case None
    then have s': "s' = publishCE env cfg (fst ?q) TypeCancelAcked (CancelAckData (responseCtx cfg (p_ResourceID p)) (p_ServiceType p))"
      "r = None" using run' by auto
    obtain e where e: "r_trace s' = r_trace (fst ?q) @ [e]" "sp_calls [e] = []" "map ce_type (ces_sent [e]) = [TypeCancelAcked]"
      unfolding s' by (rule publishCE_one [OF agent])
    then have "disposals [e] = []" by (cases e) auto
    moreover have "s' = t\<lparr>r_trace := r_trace s @ seg @ [e]\<rparr>"
      using s'(1) e(1) seg(1) by (simp add: publishCE_def)
    ultimately show ?thesis
      using seg s'(2) None e sp_calls_append [of seg "[e]"] ces_append [of seg "[e]"] disposals_append [of seg "[e]"]
      by (intro exI [of _ "seg @ [e]"]) simp
  qed
qed

end

lemma HandleCancel_claimed:
  assumes agent: "cfg_agentName cfg \<noteq> ''''" and parse: "parseCancelCE msg = Some (p, eventID)"
    and valid: "p_ResourceID p \<noteq> ''''" "p_ServiceType p \<noteq> ''''" and run: "HandleCancel env cfg rc' s msg = (s', r)"
    and claimed: "lru_mem (r_claimed s) (p_ResourceID p)"
  shows "\<exists>seg. r_trace s' = r_trace s @ seg \<and> sp_calls seg = [] \<and> map ce_type (ces_sent seg) = [TypeCancelRejected] \<and>
    disposals seg = [] \<and> r_deny s' = r_deny s \<and> r = None"
proof -
  let ?s = "s\<lparr>r_claimed := fst (lru_contains (r_claimed s) (p_ResourceID p))\<rparr>"
  obtain d where s': "s' = publishCE env cfg ?s TypeCancelRejected d" "r = None"
    using run parse valid claimed by (auto simp: HandleCancel_def lru_contains_def Let_def)
  obtain e where e: "r_trace s' = r_trace ?s @ [e]" "sp_calls [e] = []" "map ce_type (ces_sent [e]) = [TypeCancelRejected]"
    unfolding s' by (rule publishCE_one [OF agent])
  moreover from e(3) have "disposals [e] = []" by (cases e) auto
  ultimately show ?thesis using s' by (intro exI [of _ "[e]"]) simp
qed

section \<open>Sample runs\<close>

definition sample_fwd_env :: "int \<Rightarrow> fwd_env" where
  "sample_fwd_env code =
     \<lparr>x_http = (\<lambda>_ _. HttpResponse code ''body'' ''status''), x_embedded = (\<lambda>_. None), x_ctx = (\<lambda>_. None), x_wait = (\<lambda>_ _. None),
      x_rand = (\<lambda>_. 0), x_pub = (\<lambda>_. True), x_ack = (\<lambda>_. True), x_io = (\<lambda>_. None)\<rparr>"

definition sample_cfg :: router_cfg where
  "sample_cfg = \<lparr>cfg_agentName = ''a'', cfg_topicName = ''t'', cfg_retryTopic = ''t-retry'',
     cfg_policy = \<lparr>rp_MaxAttempts = 2, rp_Backoff = 1, rp_MaxBackoff = 8\<rparr>, cfg_forwarder = True\<rparr>"

definition sample_router :: router_state where
  "sample_router = NewRouter (fst (Claim NewRegistry ''db'' ''database'')) (fs_init (Decoded [sample_provider]))
     (SetState NewInMemoryHealthTracker ''id-1'' Ready 7) 2"

definition sample_payload :: payload where
  "sample_payload = \<lparr>p_ResourceID = ''r1'', p_ServiceType = ''database'', p_Spec = None\<rparr>"

abbreviation "sample_create \<equiv> CloudEvent TypeRequestCreate ''e1'' (Some sample_payload)"
abbreviation "sample_cancel \<equiv> CloudEvent TypeRequestCancel ''e2'' (Some sample_payload)"

lemmas sample_router_defs = sample_fwd_env_def sample_cfg_def sample_router_def sample_payload_def NewRouter_def
  parseRequestCE_def parseCancelCE_def request_type_defs sample_provider_def

lemmas request_run_defs = HandleRequest_def ResolveProvider_def fs_GetByName_def findBy_def readFile_def fault_now_def
  fs_init_def tick_def Claim_def NewRegistry_def Lookup_def SetState_def GetState_def NewInMemoryHealthTracker_def
  lru_new_def lru_consume_def lru_mem_def lru_insert_def lru_touch_def lru_remove_def Let_def

lemmas forward_run_defs = forwardWithRetry_def forward_claimed_def ForwardWithRetry_def fwd_loop.simps ForwardToSP_def
  fwd_dispatch_def createExternal_def doRequest_def sp_request_of_def router_params_def publishCE_def PublishCE_def
  FormatSource_def Let_def claimedResourcesSetMaxSize_def kl_AddIfAbsent_def NewKeyLock_def lru_new_def lru_consume_def lru_mem_def lru_insert_def lru_touch_def

lemma sample_parse:
  "parseRequestCE sample_create = Some (True, sample_payload, ''e1'')" "parseCancelCE sample_cancel = Some (sample_payload, ''e2'')"
  by (simp_all add: sample_router_defs)

lemma sample_find:
  "ResolveProvider (\<lambda>_. None) (r_registry sample_router) (r_disk sample_router) (r_tracker sample_router) ''database'' =
     (tick (r_disk sample_router), Resolved sample_provider Ready)"
  using sample_provider_valid by (simp add: sample_router_defs request_run_defs)

definition sample_served :: router_state where
  "sample_served = fst (HandleRequest (sample_fwd_env 201) sample_cfg sample_router sample_create)"

lemma sample_served_calls:
  "HandleRequest (sample_fwd_env 201) sample_cfg sample_router sample_create = (sample_served, None)"
  "map snd (sp_calls (r_trace sample_served)) = [None]"
proof -
  let ?r = "HandleRequest (sample_fwd_env 201) sample_cfg sample_router sample_create"
  let ?s = "sample_router\<lparr>r_disk := tick (r_disk sample_router)\<rparr>"
  have "?r = forwardWithRetry (sample_fwd_env 201) sample_cfg ?s sample_provider True sample_payload ''e1''"
    using sample_find by (simp add: HandleRequest_def sample_parse)
      (simp add: sample_router_defs lru_consume_def lru_mem_def lru_new_def)
  moreover have "snd (forwardWithRetry (sample_fwd_env 201) sample_cfg ?s sample_provider True sample_payload ''e1'') = None"
    "map snd (sp_calls (r_trace (fst (forwardWithRetry (sample_fwd_env 201) sample_cfg ?s sample_provider True sample_payload ''e1'')))) = [None]"
    by (simp_all add: forward_run_defs sample_router_defs)
  ultimately show "?r = (sample_served, None)" "map snd (sp_calls (r_trace sample_served)) = [None]"
    by (simp_all add: sample_served_def prod_eq_iff)
qed


theorem HandleRequest_one_answer_witness: "length (ces_sent (r_trace sample_served)) = 1"
proof -
  have "cfg_agentName sample_cfg \<noteq> ''''" by (simp add: sample_cfg_def)
  from HandleRequest_one_answer [OF this sample_served_calls(1)] show ?thesis
    by (auto simp: sample_parse request_dropped_def request_denied_def)
      (auto simp: sample_router_defs lru_mem_def lru_new_def)
qed

end
