(* ===== verification/Retry_Processor.thy ===== *)
theory Retry_Processor
  imports Router "HOL-Library.Word" "HOL-Library.Multiset"
begin

text \<open>
  \<open>internal/routing/retry/processor.go\<close>: the retry topic, drained when a provider changes its health
  status and when the agent restarts.  The processor shares the deny list, the claimed resources, the
  in-flight lock, the provider store and the health tracker with the router, so it works on the same
  \<open>router_state\<close>; its own dependencies \<open>AgentName\<close>, \<open>Topics.Main\<close>, \<open>Topics.Retry\<close>, \<open>Forwarder\<close> and
  \<open>RetryPolicy\<close> are the fields of \<open>router_cfg\<close>.  The two sets that are \<open>nil\<close>-safe in the code are always set,
  as \<open>main.go\<close> sets them.  The context of a forward (with \<open>HandlerTimeout\<close>) is \<open>x_ctx\<close>.
\<close>

section \<open>Messages and fetching\<close>

record js_msg =
  m_id :: nat
  m_data :: ce_message

text \<open>What JetStream answers to one \<open>Fetch\<close>: the context is done before it, the request fails, or a batch of
  messages arrives, with \<open>batch.Error()\<close>.\<close>

datatype fetch_answer = CtxDone | FetchFailed | Batch "js_msg list" bool

record js_view =
  js_present :: bool \<comment> \<open>\<open>js()\<close> is not \<open>nil\<close>\<close>
  js_consumer :: bool \<comment> \<open>\<open>js.Consumer\<close> succeeds\<close>
  js_info :: "(64 word \<times> 64 word) option" \<comment> \<open>\<open>NumPending\<close> and \<open>uint64(NumAckPending)\<close>\<close>
  js_fetch :: "nat \<Rightarrow> fetch_answer" \<comment> \<open>the answer to the \<open>k\<close>-th \<open>Fetch\<close>\<close>

function fetch_loop :: "(nat \<Rightarrow> fetch_answer) \<Rightarrow> nat \<Rightarrow> nat \<Rightarrow> js_msg list \<Rightarrow> js_msg list \<times> bool" where
  "fetch_loop fetch pending k collected =
     (if length collected < pending then
        case fetch k of
          CtxDone \<Rightarrow> (collected, True)
        | FetchFailed \<Rightarrow> (collected, False)
        | Batch ms failed \<Rightarrow>
            if failed then (collected @ ms, False)
            else if ms = [] then (collected, True)
            else fetch_loop fetch pending (Suc k) (collected @ ms)
      else (collected, True))"
  by pat_completeness auto

termination
  by (relation "measure (\<lambda>(fetch, pending, k, collected). pending - length collected)") (auto simp: neq_Nil_conv)

declare fetch_loop.simps [simp del]

text \<open>The result is the messages and whether there was no error.  The sum of the two counters wraps around
  as in the code; a slice length is always below \<open>2 ^ 63\<close>.\<close>

definition fetchAllFromConsumer :: "js_view \<Rightarrow> js_msg list \<times> bool" where
  "fetchAllFromConsumer v =
     (if \<not> js_present v then ([], True)
      else if \<not> js_consumer v then ([], False)
      else case js_info v of
             None \<Rightarrow> ([], False)
           | Some (numPending, numAckPending) \<Rightarrow>
               let pending = numPending + numAckPending
               in if pending = 0 then ([], True) else fetch_loop (js_fetch v) (unat pending) 0 [])"

record ce_result =
  ce_resourceID :: string
  ce_serviceType :: string
  ce_eventID :: string
  ce_ceType :: string
  ce_spec :: "json option"

definition parseCE :: "ce_message \<Rightarrow> ce_result option" where
  "parseCE data =
     (case data of
        MalformedCE \<Rightarrow> None
      | CloudEvent ty i d \<Rightarrow>
          if ty = TypeRequestCreate \<or> ty = TypeRequestDelete \<or> ty = TypeRequestCancel
          then map_option (\<lambda>p. \<lparr>ce_resourceID = p_ResourceID p, ce_serviceType = p_ServiceType p, ce_eventID = i,
                              ce_ceType = ty, ce_spec = p_Spec p\<rparr>) d
          else None)"

type_synonym parsed_message = "js_msg \<times> ce_result"

definition dispose :: "fwd_env \<Rightarrow> router_state \<Rightarrow> js_msg \<Rightarrow> disposition \<Rightarrow> router_state" where
  "dispose env s m d = s\<lparr>r_trace := r_trace s @ [Disposed (m_id m) d (x_ack env (r_trace s))]\<rparr>"

fun parseMessages :: "fwd_env \<Rightarrow> router_state \<Rightarrow> js_msg list \<Rightarrow> router_state \<times> parsed_message list" where
  "parseMessages env s [] = (s, [])"
| "parseMessages env s (m # ms) =
     (case parseCE (m_data m) of
        None \<Rightarrow> parseMessages env (dispose env s m Term) ms
      | Some res \<Rightarrow> (case parseMessages env s ms of (s, items) \<Rightarrow> (s, (m, res) # items)))"

definition heartbeatAll :: "fwd_env \<Rightarrow> router_state \<Rightarrow> js_msg list \<Rightarrow> router_state" where
  "heartbeatAll env s ms = foldl (\<lambda>s m. dispose env s m InProgress) s ms"

text \<open>\<open>FetchRetryMessages\<close> is the retry consumer of the router.\<close>

definition FetchRetryMessages :: "fwd_env \<Rightarrow> js_view \<Rightarrow> retry_consumer" where
  "FetchRetryMessages env v s =
     (case fetchAllFromConsumer v of
        (msgs, ok) \<Rightarrow>
          if \<not> ok then (s, None)
          else case parseMessages env s msgs of
                 (s, items) \<Rightarrow> (s, Some (map (\<lambda>(m, res). \<lparr>rm_id = m_id m, rm_ResourceID = ce_resourceID res\<rparr>) items)))"

section \<open>Create and delete pairs\<close>

text \<open>\<open>order\<close> is the order in which Go iterates over the map of resource ids.\<close>

definition creates_of :: "parsed_message list \<Rightarrow> string \<Rightarrow> parsed_message list" where
  "creates_of items i = filter (\<lambda>x. ce_resourceID (snd x) = i \<and> ce_ceType (snd x) = TypeRequestCreate) items"

definition deletes_of :: "parsed_message list \<Rightarrow> string \<Rightarrow> parsed_message list" where
  "deletes_of items i = filter (\<lambda>x. ce_resourceID (snd x) = i \<and> ce_ceType (snd x) = TypeRequestDelete) items"

definition paired :: "parsed_message list \<Rightarrow> string \<Rightarrow> bool" where
  "paired items i \<longleftrightarrow> creates_of items i \<noteq> [] \<and> deletes_of items i \<noteq> []"

definition dedup_one :: "fwd_env \<Rightarrow> router_cfg \<Rightarrow> parsed_message list \<Rightarrow> router_state \<Rightarrow> string \<Rightarrow> router_state" where
  "dedup_one env cfg items s resID =
     (if paired items resID
      then publishCE env cfg
             (foldl (\<lambda>s x. dispose env s (fst x) Ack) s (creates_of items resID @ deletes_of items resID))
             TypeDeletionAcked (DeletionAckData (responseCtx cfg resID) ''DELETED'')
      else s)"

definition deduped :: "parsed_message list \<Rightarrow> parsed_message \<Rightarrow> bool" where
  "deduped items x \<longleftrightarrow>
     paired items (ce_resourceID (snd x)) \<and> (ce_ceType (snd x) = TypeRequestCreate \<or> ce_ceType (snd x) = TypeRequestDelete)"

definition dedupCreateDeletePairs :: "fwd_env \<Rightarrow> router_cfg \<Rightarrow> (string list \<Rightarrow> string list) \<Rightarrow> router_state \<Rightarrow> parsed_message list \<Rightarrow>
    router_state \<times> parsed_message list" where
  "dedupCreateDeletePairs env cfg order s items =
     (foldl (dedup_one env cfg items) s (order (remdups (map (\<lambda>x. ce_resourceID (snd x)) items))),
      filter (\<lambda>x. \<not> deduped items x) items)"

section \<open>Forwarding one message\<close>

definition publishAckCE :: "fwd_env \<Rightarrow> router_cfg \<Rightarrow> router_state \<Rightarrow> ce_result \<Rightarrow> router_state" where
  "publishAckCE env cfg s res =
     (if ce_ceType res = TypeRequestDelete
      then publishCE env cfg s TypeDeletionAcked (DeletionAckData (responseCtx cfg (ce_resourceID res)) ''DELETING'')
      else publishCE env cfg s TypeCreationAcked (CreationAckData (responseCtx cfg (ce_resourceID res)) ''PROVISIONING''))"

definition retry_params :: "ce_result \<Rightarrow> forward_params" where
  "retry_params res =
     \<lparr>fp_ResourceID = ce_resourceID res, fp_ServiceType = ce_serviceType res, fp_Spec = ce_spec res, fp_EventID = ce_eventID res,
      fp_IsCreate = (ce_ceType res \<noteq> TypeRequestDelete)\<rparr>"

definition forward_locked :: "fwd_env \<Rightarrow> router_cfg \<Rightarrow> router_state \<Rightarrow> stored_provider \<Rightarrow> ce_result \<Rightarrow> router_state \<times> bool" where
  "forward_locked env cfg s sp res =
     (let i = ce_resourceID res;
          (claimed, newlyAdded) = lru_insert (r_claimed s) i;
          s = s\<lparr>r_claimed := claimed\<rparr>;
          (deny, denied) = (if ce_ceType res = TypeRequestCreate then lru_contains (r_deny s) i else (r_deny s, False));
          s = s\<lparr>r_deny := deny\<rparr>
      in if denied then (unclaim newlyAdded i s, True)
         else case ForwardWithRetry env (r_trace s) sp (retry_params res) (cfg_policy cfg) of
                (tr, None) \<Rightarrow> (publishAckCE env cfg (s\<lparr>r_trace := tr\<rparr>) res, True)
              | (tr, Some e) \<Rightarrow>
                  let s = unclaim newlyAdded i (s\<lparr>r_trace := tr\<rparr>)
                  in if x_ctx env tr \<noteq> None then (s, False)
                     else (publishCE env cfg s TypeError
                             (TerminalProviderErrorData e (ce_serviceType res) (responseCtx cfg i)), True))"

definition forwardRequest :: "fwd_env \<Rightarrow> router_cfg \<Rightarrow> router_state \<Rightarrow> stored_provider \<Rightarrow> ce_result \<Rightarrow> router_state \<times> bool" where
  "forwardRequest env cfg s sp res =
     (if \<not> cfg_forwarder cfg
      then (publishCE env cfg s TypeError (error_data cfg (ce_resourceID res) SP_UNAVAILABLE ''forwarder not configured''), True)
      else
        let (lock, acquired) = kl_AddIfAbsent (r_inFlight s) (ce_resourceID res)
        in if \<not> acquired then (s, False)
           else map_prod (release_inFlight (ce_resourceID res)) id
                  (forward_locked env cfg (s\<lparr>r_inFlight := lock\<rparr>) sp res))"

definition requeueToRetryTopic :: "fwd_env \<Rightarrow> router_cfg \<Rightarrow> router_state \<Rightarrow> js_msg \<Rightarrow> bool \<Rightarrow> router_state" where
  "requeueToRetryTopic env cfg s m fromRetryTopic =
     (if fromRetryTopic then dispose env s m (Nak storeErrorRetryDelay)
      else let (tr, ok) = Publish env (r_trace s) (cfg_retryTopic cfg) (m_data m); s = s\<lparr>r_trace := tr\<rparr>
           in if ok then dispose env s m Ack else s)"

definition reject_unavailable :: "fwd_env \<Rightarrow> router_cfg \<Rightarrow> router_state \<Rightarrow> ce_result \<Rightarrow> router_state" where
  "reject_unavailable env cfg s res =
     publishCE env cfg s TypeError (error_data cfg (ce_resourceID res) SP_UNAVAILABLE
       (''provider unavailable for service type: '' @ ce_serviceType res))"

definition routeMessage :: "fwd_env \<Rightarrow> router_cfg \<Rightarrow> router_state \<Rightarrow> js_msg \<Rightarrow> ce_result \<Rightarrow> bool \<Rightarrow> router_state" where
  "routeMessage env cfg s m res fromRetryTopic =
     (case ResolveProvider (x_io env) (r_registry s) (r_disk s) (r_tracker s) (ce_serviceType res) of
        (d, r) \<Rightarrow>
          let s = s\<lparr>r_disk := d\<rparr>
          in case r of
               StoreFailed e \<Rightarrow> dispose env s m (Nak storeErrorRetryDelay)
             | NoProvider \<Rightarrow> requeueToRetryTopic env cfg s m fromRetryTopic
             | Resolved sp status \<Rightarrow>
                 (case status of
                    Ready \<Rightarrow>
                      (case forwardRequest env cfg s sp res of
                         (s, False) \<Rightarrow> requeueToRetryTopic env cfg s m fromRetryTopic
                       | (s, True) \<Rightarrow> dispose env s m Ack)
                  | Unavailable \<Rightarrow> dispose env (reject_unavailable env cfg s res) m Ack
                  | Unhealthy \<Rightarrow> requeueToRetryTopic env cfg s m fromRetryTopic))"

text \<open>The check against the deny list that guards every loop over messages: \<open>Contains\<close>, evaluated for creates only.\<close>

definition deny_check :: "router_state \<Rightarrow> ce_result \<Rightarrow> router_state \<times> bool" where
  "deny_check s res =
     (if ce_ceType res = TypeRequestCreate
      then case lru_contains (r_deny s) (ce_resourceID res) of (deny, denied) \<Rightarrow> (s\<lparr>r_deny := deny\<rparr>, denied)
      else (s, False))"

section \<open>Transitions\<close>

definition transition_item :: "fwd_env \<Rightarrow> router_cfg \<Rightarrow> stored_provider \<Rightarrow> router_state \<Rightarrow> parsed_message \<Rightarrow> router_state" where
  "transition_item env cfg sp s x =
     (case x of (m, res) \<Rightarrow>
        case deny_check s res of
          (s, True) \<Rightarrow> dispose env s m Ack
        | (s, False) \<Rightarrow>
            if ce_serviceType res \<noteq> sp_ServiceType sp
            then routeMessage env cfg (dispose env s m InProgress) m res True
            else case ResolveProvider (x_io env) (r_registry s) (r_disk s) (r_tracker s) (ce_serviceType res) of
                   (d, r) \<Rightarrow>
                     let s = s\<lparr>r_disk := d\<rparr>
                     in case r of
                          StoreFailed e \<Rightarrow> dispose env s m (Nak storeErrorRetryDelay)
                        | NoProvider \<Rightarrow> dispose env (reject_unavailable env cfg s res) m Ack
                        | Resolved _ currentStatus \<Rightarrow>
                            if currentStatus = Unavailable then dispose env (reject_unavailable env cfg s res) m Ack
                            else case forwardRequest env cfg (dispose env s m InProgress) sp res of
                                   (s, False) \<Rightarrow> dispose env s m (Nak storeErrorRetryDelay)
                                 | (s, True) \<Rightarrow> dispose env s m Ack)"

definition processTransitionItems :: "fwd_env \<Rightarrow> router_cfg \<Rightarrow> router_state \<Rightarrow> stored_provider \<Rightarrow> parsed_message list \<Rightarrow> router_state" where
  "processTransitionItems env cfg s sp items =
     foldl (transition_item env cfg sp) (heartbeatAll env s (map fst items)) items"

datatype processor_error = ProcStoreError store_error | ProcFetchError

definition ProcessOnTransition :: "fwd_env \<Rightarrow> router_cfg \<Rightarrow> (string list \<Rightarrow> string list) \<Rightarrow> js_view \<Rightarrow> router_state \<Rightarrow> string \<Rightarrow> provider_status \<Rightarrow>
    router_state \<times> processor_error option" where
  "ProcessOnTransition env cfg order v s providerID to =
     (if to \<noteq> Ready \<and> to \<noteq> Unavailable then (s, None)
      else case fs_GetByID (x_io env) (r_disk s) providerID of
             (d, Inl e) \<Rightarrow> (s\<lparr>r_disk := d\<rparr>, Some (ProcStoreError e))
           | (d, Inr None) \<Rightarrow> (s\<lparr>r_disk := d\<rparr>, None)
           | (d, Inr (Some sp)) \<Rightarrow>
               let s = s\<lparr>r_disk := d\<rparr>
               in case fetchAllFromConsumer v of
                    (msgs, ok) \<Rightarrow>
                      if \<not> ok then (s, Some ProcFetchError)
                      else let (s, items) = parseMessages env s msgs;
                               (s, items) = dedupCreateDeletePairs env cfg order s items
                           in (processTransitionItems env cfg s sp items, None))"

section \<open>Restart\<close>

definition drain_cancel :: "fwd_env \<Rightarrow> router_state \<Rightarrow> js_msg \<Rightarrow> router_state" where
  "drain_cancel env s m =
     (case parseCE (m_data m) of
        None \<Rightarrow> dispose env s m Term
      | Some res \<Rightarrow> dispose env (s\<lparr>r_deny := fst (lru_insert (r_deny s) (ce_resourceID res))\<rparr>) m Ack)"

definition drainCancelsToDenyList :: "fwd_env \<Rightarrow> js_view \<Rightarrow> router_state \<Rightarrow> router_state \<times> processor_error option" where
  "drainCancelsToDenyList env v s =
     (case fetchAllFromConsumer v of
        (msgs, ok) \<Rightarrow> if \<not> ok then (s, Some ProcFetchError) else (foldl (drain_cancel env) s msgs, None))"

text \<open>The guard and the routing that \<open>drainMainTopic\<close> and \<open>drainRetryTopicWithDedup\<close> share.\<close>

definition drain_routed :: "fwd_env \<Rightarrow> router_cfg \<Rightarrow> bool \<Rightarrow> router_state \<Rightarrow> parsed_message \<Rightarrow> router_state" where
  "drain_routed env cfg fromRetryTopic s x =
     (case x of (m, res) \<Rightarrow>
        case deny_check s res of
          (s, True) \<Rightarrow> dispose env s m Ack
        | (s, False) \<Rightarrow> routeMessage env cfg (dispose env s m InProgress) m res fromRetryTopic)"

definition drain_main :: "fwd_env \<Rightarrow> router_cfg \<Rightarrow> router_state \<Rightarrow> js_msg \<Rightarrow> router_state" where
  "drain_main env cfg s m =
     (case parseCE (m_data m) of
        None \<Rightarrow> dispose env s m Term
      | Some res \<Rightarrow> drain_routed env cfg False s (m, res))"

definition drainMainTopic :: "fwd_env \<Rightarrow> router_cfg \<Rightarrow> js_view \<Rightarrow> router_state \<Rightarrow> router_state \<times> processor_error option" where
  "drainMainTopic env cfg v s =
     (case fetchAllFromConsumer v of
        (msgs, ok) \<Rightarrow>
          if \<not> ok then (s, Some ProcFetchError)
          else (foldl (drain_main env cfg) (heartbeatAll env s msgs) msgs, None))"

definition drainRetryTopicWithDedup :: "fwd_env \<Rightarrow> router_cfg \<Rightarrow> (string list \<Rightarrow> string list) \<Rightarrow> js_view \<Rightarrow> router_state \<Rightarrow>
    router_state \<times> processor_error option" where
  "drainRetryTopicWithDedup env cfg order v s =
     (case fetchAllFromConsumer v of
        (msgs, ok) \<Rightarrow>
          if \<not> ok then (s, Some ProcFetchError)
          else let (s, items) = parseMessages env s msgs;
                   (s, items) = dedupCreateDeletePairs env cfg order s items
               in (foldl (drain_routed env cfg True) (heartbeatAll env s (map fst items)) items, None))"

definition ProcessOnRestart :: "fwd_env \<Rightarrow> router_cfg \<Rightarrow> (string list \<Rightarrow> string list) \<Rightarrow> js_view \<Rightarrow> js_view \<Rightarrow> js_view \<Rightarrow> router_state \<Rightarrow>
    router_state \<times> processor_error option" where
  "ProcessOnRestart env cfg order cancelV mainV retryV s =
     (case drainCancelsToDenyList env cancelV s of
        (s, Some e) \<Rightarrow> (s, Some e)
      | (s, None) \<Rightarrow>
          (case drainMainTopic env cfg mainV s of
             (s, Some e) \<Rightarrow> (s, Some e)
           | (s, None) \<Rightarrow> drainRetryTopicWithDedup env cfg order retryV s))"

section \<open>Lifecycle\<close>

text \<open>\<open>Stop\<close> and \<open>RunTransition\<close> on the fields that \<open>mu\<close> guards: the stopped flag and the goroutines that
  \<open>Stop\<close> waits for.\<close>

record processor_life =
  pl_stopped :: bool
  pl_running :: nat

definition NewProcessor :: processor_life where
  "NewProcessor = \<lparr>pl_stopped = False, pl_running = 0\<rparr>"

definition RunTransition :: "processor_life \<Rightarrow> processor_life \<times> bool" where
  "RunTransition p = (if pl_stopped p then (p, False) else (p\<lparr>pl_running := pl_running p + 1\<rparr>, True))"

definition transition_done :: "processor_life \<Rightarrow> processor_life" where
  "transition_done p = p\<lparr>pl_running := pl_running p - 1\<rparr>"

definition proc_Stop :: "processor_life \<Rightarrow> processor_life" where
  "proc_Stop p = p\<lparr>pl_stopped := True\<rparr>"

definition Stop_returns :: "processor_life \<Rightarrow> bool" where
  "Stop_returns p \<longleftrightarrow> pl_running p = 0"

section \<open>Segments of the trace\<close>

text \<open>The dispositions that end a delivery, and the messages moved to another topic.\<close>

definition finals :: "trace \<Rightarrow> (nat \<times> disposition) list" where
  "finals seg = filter (\<lambda>x. snd x \<noteq> InProgress) (disposals seg)"

fun moved :: "trace \<Rightarrow> (string \<times> ce_message) list" where
  "moved [] = []"
| "moved (RawPublished t m ok # seg) = (if ok then (t, m) # moved seg else moved seg)"
| "moved (_ # seg) = moved seg"

lemma moved_append [simp]: "moved (a @ b) = moved a @ moved b"
  by (induction a rule: moved.induct) auto

lemma finals_append [simp]: "finals (a @ b) = finals a @ finals b"
  by (simp add: finals_def)

lemma finals_Cons [simp]: "finals (Disposed i d ok # seg) = (if d = InProgress then finals seg else (i, d) # finals seg)" "finals [] = []"
  by (simp_all add: finals_def)

text \<open>\<open>runs s seg s'\<close>: between \<open>s\<close> and \<open>s'\<close> the trace grows by \<open>seg\<close>, and what other messages depend on stays:
  registry, health, the resources in flight and the members of the deny list.\<close>

definition runs :: "router_state \<Rightarrow> trace \<Rightarrow> router_state \<Rightarrow> bool" where
  "runs s seg s' \<longleftrightarrow> r_trace s' = r_trace s @ seg \<and> r_registry s' = r_registry s \<and> r_tracker s' = r_tracker s \<and>
     kl_items (r_inFlight s') = kl_items (r_inFlight s) \<and> (\<forall>j. lru_mem (r_deny s') j \<longleftrightarrow> lru_mem (r_deny s) j)"

lemma runs_trans: "runs s a t \<Longrightarrow> runs t b u \<Longrightarrow> runs s (a @ b) u"
  by (simp add: runs_def)

lemma runs_refl: "runs s [] s"
  by (simp add: runs_def)

lemma runs_dispose: "runs s [Disposed (m_id m) d (x_ack env (r_trace s))] (dispose env s m d)"
  by (simp add: runs_def dispose_def)

lemma runs_disk: "runs s [] (s\<lparr>r_disk := d\<rparr>)"
  by (simp add: runs_def)

lemmas deny_lookup = lru_mem_contains lru_contains_res

lemma runs_deny_check:
  "runs s [] (fst (deny_check s res)) \<and> (snd (deny_check s res) \<longleftrightarrow> ce_ceType res = TypeRequestCreate \<and> lru_mem (r_deny s) (ce_resourceID res))"
  by (auto simp: runs_def deny_check_def case_prod_unfold deny_lookup)

text \<open>A segment that answers: no disposition, no provider call, one CloudEvent.\<close>

definition answer_seg :: "string \<Rightarrow> ce_data \<Rightarrow> trace \<Rightarrow> bool" where
  "answer_seg ty d seg \<longleftrightarrow> disposals seg = [] \<and> sp_calls seg = [] \<and> moved seg = [] \<and>
     map ce_type (ces_sent seg) = [ty] \<and> map ce_data (ces_sent seg) = [d]"

lemma runs_publishCE:
  assumes "cfg_agentName cfg \<noteq> ''''"
  shows "\<exists>seg. runs s seg (publishCE env cfg s ty d) \<and> answer_seg ty d seg"
proof -
  obtain ok where "r_trace (publishCE env cfg s ty d) = r_trace s @ [CEPublished
      \<lparr>ce_source = ''dcm/agents/'' @ cfg_agentName cfg, ce_type = ty, ce_subject = SubjectResponses, ce_data = d\<rparr> ok]"
    using publishCE_trace [OF assms] by blast
  then show ?thesis by (intro exI conjI) (auto simp: runs_def answer_seg_def)
qed

lemma answer_seg_one: "answer_seg ty d seg \<Longrightarrow> length (ces_sent seg) = 1"
  by (auto simp: answer_seg_def)

lemma fwd_effect_quiet: "list_all fwd_effect seg \<Longrightarrow> disposals seg = [] \<and> moved seg = []"
proof (induction seg)
  case (Cons e seg)
  then show ?case by (cases e) simp_all
qed simp

text \<open>What forwarding one message leaves: no disposition; one CloudEvent if it was dealt with and not dropped;
  calls to the provider only for this message, and none for a denied create or a resource in flight.\<close>

definition forward_seg :: "stored_provider \<Rightarrow> ce_result \<Rightarrow> bool \<Rightarrow> bool \<Rightarrow> bool \<Rightarrow> trace \<Rightarrow> bool" where
  "forward_seg sp res denied inflight ok seg \<longleftrightarrow>
     disposals seg = [] \<and> moved seg = [] \<and> length (ces_sent seg) = (if ok \<and> \<not> denied then 1 else 0) \<and>
     (\<forall>c \<in> set (sp_calls seg). fst c = sp_request_of sp (retry_params res)) \<and>
     (sp_calls seg \<noteq> [] \<longrightarrow> \<not> denied \<and> \<not> inflight)"

definition denied_in :: "router_state \<Rightarrow> ce_result \<Rightarrow> bool" where
  "denied_in s res \<longleftrightarrow> ce_ceType res = TypeRequestCreate \<and> lru_mem (r_deny s) (ce_resourceID res)"

lemma runs_denied: "runs s seg s' \<Longrightarrow> denied_in s' res = denied_in s res"
  by (simp add: runs_def denied_in_def)

lemma runs_unclaim [simp]: "runs s seg (unclaim b i s') \<longleftrightarrow> runs s seg s'"
  by (simp add: runs_def)

lemma runs_publishAckCE:
  assumes "cfg_agentName cfg \<noteq> ''''"
  shows "\<exists>seg ty d. runs s seg (publishAckCE env cfg s res) \<and> answer_seg ty d seg"
proof -
  note one = runs_publishCE [OF assms, of s env]
  show ?thesis
  proof (cases "ce_ceType res = TypeRequestDelete")
    case True
    then show ?thesis using one [of TypeDeletionAcked] by (simp add: publishAckCE_def) blast
  next
    case False
    then show ?thesis using one [of TypeCreationAcked] by (simp add: publishAckCE_def) blast
  qed
qed

lemma forward_segI:
  assumes "list_all fwd_effect seg" "fwd_calls_ok (sp_request_of sp (retry_params res)) n (sp_calls seg) fe"
    and "es = [] \<and> \<not> ok \<or> ok \<and> answer_seg ty d es"
  shows "forward_seg sp res False False ok (seg @ es)"
  using assms fwd_effect_quiet [OF assms(1)] fwd_effect_ces [OF assms(1)]
  by (auto simp: forward_seg_def answer_seg_def fwd_calls_ok_def dest: arg_cong [where f = length])

lemma forward_locked_seg:
  assumes agent: "cfg_agentName cfg \<noteq> ''''" and run: "forward_locked env cfg s sp res = (s', ok)"
  shows "\<exists>seg. runs s seg s' \<and> forward_seg sp res (denied_in s res) False ok seg"
proof -
  let ?i = "ce_resourceID res"
  let ?ins = "lru_insert (r_claimed s) ?i"
  let ?deny = "fst (if ce_ceType res = TypeRequestCreate then lru_contains (r_deny s) ?i else (r_deny s, False))"
  let ?s = "s\<lparr>r_claimed := fst ?ins, r_deny := ?deny\<rparr>"
  have s: "runs s [] ?s" by (simp add: runs_def deny_lookup)
  have denied: "snd (if ce_ceType res = TypeRequestCreate then lru_contains (r_deny s) ?i else (r_deny s, False)) = denied_in s res"
    by (simp add: denied_in_def deny_lookup)
  show ?thesis
  proof (cases "denied_in s res")
    case True
    then have "s' = unclaim (snd ?ins) ?i ?s" "ok = True"
      using run denied by (cases "ce_ceType res = TypeRequestCreate"; simp add: forward_locked_def Let_def case_prod_unfold)+
    then show ?thesis using s True by (intro exI [of _ "[]"]) (simp add: forward_seg_def)
  next
    case False
    obtain tr fe where f: "ForwardWithRetry env (r_trace s) sp (retry_params res) (cfg_policy cfg) = (tr, fe)" by fastforce
    from ForwardWithRetry_outcome [OF f] obtain seg where seg: "tr = r_trace s @ seg" "list_all fwd_effect seg"
      "fwd_calls_ok (sp_request_of sp (retry_params res)) (nat (max 1 (rp_MaxAttempts (cfg_policy cfg)))) (sp_calls seg) fe" by blast
    let ?t = "?s\<lparr>r_trace := tr\<rparr>"
    have t: "runs s seg ?t" using s seg(1) by (simp add: runs_def)
    have run': "(case fe of None \<Rightarrow> (publishAckCE env cfg ?t res, True)
        | Some e \<Rightarrow> if x_ctx env tr \<noteq> None then (unclaim (snd ?ins) ?i ?t, False)
            else (publishCE env cfg (unclaim (snd ?ins) ?i ?t) TypeError
                    (TerminalProviderErrorData e (ce_serviceType res) (responseCtx cfg ?i)), True)) = (s', ok)"
      using run denied False f
      by (cases "ce_ceType res = TypeRequestCreate"; cases fe; cases "x_ctx env tr") (simp_all add: forward_locked_def Let_def case_prod_unfold)
    consider (acked) "s' = publishAckCE env cfg ?t res" "ok" | (stopped) "s' = unclaim (snd ?ins) ?i ?t" "\<not> ok"
      | (failed) e where "s' = publishCE env cfg (unclaim (snd ?ins) ?i ?t) TypeError
            (TerminalProviderErrorData e (ce_serviceType res) (responseCtx cfg ?i))" "ok"
      using run' by (cases fe) (auto split: if_splits)
    then have "\<exists>es ty d. runs ?t es s' \<and> (es = [] \<and> \<not> ok \<or> ok \<and> answer_seg ty d es)"
    proof cases
      case acked
      then show ?thesis using runs_publishAckCE [OF agent, of ?t env res] by blast
    next
      case stopped
      then show ?thesis by (intro exI [of _ "[]"]) (simp add: runs_refl)
    next
      case (failed e)
      from runs_publishCE [OF agent, of "unclaim (snd ?ins) ?i ?t" env] obtain es where
        "runs (unclaim (snd ?ins) ?i ?t) es s'" "answer_seg TypeError (TerminalProviderErrorData e (ce_serviceType res) (responseCtx cfg ?i)) es"
        unfolding failed(1) by blast
      moreover have "runs ?t [] (unclaim (snd ?ins) ?i ?t)" by (simp add: runs_refl)
      ultimately show ?thesis using failed(2) runs_trans by fastforce
    qed
    then obtain es ty d where es: "runs ?t es s'" "es = [] \<and> \<not> ok \<or> ok \<and> answer_seg ty d es" by blast
    show ?thesis using runs_trans [OF t es(1)] forward_segI [OF seg(2,3) es(2)] False by auto
  qed
qed

lemma forwardRequest_seg:
  assumes agent: "cfg_agentName cfg \<noteq> ''''" and run: "forwardRequest env cfg s sp res = (s', ok)" and free: "\<not> denied_in s res"
  shows "\<exists>seg. runs s seg s' \<and> forward_seg sp res False (ce_resourceID res \<in> kl_items (r_inFlight s)) ok seg"
proof -
  let ?i = "ce_resourceID res"
  consider (none) "\<not> cfg_forwarder cfg" | (busy) "cfg_forwarder cfg" "?i \<in> kl_items (r_inFlight s)"
    | (go) "cfg_forwarder cfg" "?i \<notin> kl_items (r_inFlight s)" by blast
  then show ?thesis
  proof cases
    case none
    then have r: "s' = publishCE env cfg s TypeError (error_data cfg ?i SP_UNAVAILABLE ''forwarder not configured'')" "ok"
      using run by (simp_all add: forwardRequest_def)
    from runs_publishCE [OF agent, of s env] obtain seg where
      "runs s seg s'" "answer_seg TypeError (error_data cfg ?i SP_UNAVAILABLE ''forwarder not configured'') seg" unfolding r by blast
    then show ?thesis using r(2) answer_seg_one by (intro exI [of _ seg]) (auto simp: forward_seg_def answer_seg_def)
  next
    case busy
    then have "s' = s" "\<not> ok" using run by (simp_all add: forwardRequest_def kl_AddIfAbsent_def)
    then show ?thesis by (intro exI [of _ "[]"]) (simp add: runs_refl forward_seg_def)
  next
    case go
    let ?s = "s\<lparr>r_inFlight := fst (kl_AddIfAbsent (r_inFlight s) ?i)\<rparr>"
    obtain s1 where f: "forward_locked env cfg ?s sp res = (s1, ok)" and s': "s' = release_inFlight ?i s1"
      using run go kl.acquire_result [of "r_inFlight s" ?i]
      by (cases "forward_locked env cfg ?s sp res") (auto simp: forwardRequest_def case_prod_unfold Let_def)
    from forward_locked_seg [OF agent f] free obtain seg where
      seg: "runs ?s seg s1" "forward_seg sp res False False ok seg" by (auto simp: denied_in_def)
    have "kl_items (r_inFlight s') = kl_items (r_inFlight s)"
      using kl.acquire_held [of "r_inFlight s" ?i] kl.release_held [of "r_inFlight s1" ?i] seg(1) s' go
      by (auto simp: runs_def release_inFlight_def)
    then have "runs s seg s'" using seg(1) s' by (auto simp: runs_def)
    then show ?thesis using seg(2) go by (intro exI [of _ seg]) simp
  qed
qed

definition message_outcome :: "(stored_provider \<Rightarrow> bool) \<Rightarrow> router_cfg \<Rightarrow> bool \<Rightarrow> bool \<Rightarrow> parsed_message \<Rightarrow> trace \<Rightarrow> bool" where
  "message_outcome allowed cfg fromRetry denied x seg \<longleftrightarrow>
     (finals seg = [(m_id (fst x), Ack)] \<and> moved seg = [] \<and> length (ces_sent seg) = (if denied then 0 else 1) \<or>
      finals seg = [(m_id (fst x), Nak storeErrorRetryDelay)] \<and> moved seg = [] \<and> ces_sent seg = [] \<and> \<not> denied \<or>
      \<not> fromRetry \<and> \<not> denied \<and> ces_sent seg = [] \<and>
        (finals seg = [(m_id (fst x), Ack)] \<and> moved seg = [(cfg_retryTopic cfg, m_data (fst x))] \<or> finals seg = [] \<and> moved seg = [])) \<and>
     (\<forall>c \<in> set (sp_calls seg). \<exists>sp. allowed sp \<and> fst c = sp_request_of sp (retry_params (snd x))) \<and>
     (denied \<longrightarrow> sp_calls seg = [])"

text \<open>What a provider has to be for \<open>routeMessage\<close> to call it.\<close>

definition serves :: "router_state \<Rightarrow> ce_result \<Rightarrow> stored_provider \<Rightarrow> bool" where
  "serves s res sp \<longleftrightarrow> Lookup (r_registry s) (ce_serviceType res) = Some (sp_Name sp) \<and>
     map_option hs_status (GetState (r_tracker s) (sp_ID sp)) = Some Ready"

lemma requeue_outcome:
  assumes "disposals seg = []" "moved seg = []" "ces_sent seg = []" "runs s seg t"
    and "\<forall>c \<in> set (sp_calls seg). \<exists>sp. allowed sp \<and> fst c = sp_request_of sp (retry_params res)"
  shows "\<exists>seg'. runs s seg' (requeueToRetryTopic env cfg t m fromRetry) \<and> message_outcome allowed cfg fromRetry False (m, res) seg'"
proof (cases fromRetry)
  case True
  then show ?thesis using runs_trans [OF assms(4) runs_dispose [of t m "Nak storeErrorRetryDelay" env]] assms
    by (intro exI conjI) (auto simp: requeueToRetryTopic_def message_outcome_def finals_def)
next
  case False
  let ?e = "RawPublished (cfg_retryTopic cfg) (m_data m) (x_pub env (r_trace t))"
  let ?t = "t\<lparr>r_trace := r_trace t @ [?e]\<rparr>"
  have t: "runs s (seg @ [?e]) ?t" using assms(4) by (simp add: runs_def)
  show ?thesis
  proof (cases "x_pub env (r_trace t)")
    case True
    then show ?thesis using runs_trans [OF t runs_dispose [of ?t m Ack env]] assms False
      by (intro exI conjI) (auto simp: requeueToRetryTopic_def Publish_def Let_def message_outcome_def finals_def)
  next
    case no: False
    then show ?thesis using t assms False
      by (intro exI conjI) (auto simp: requeueToRetryTopic_def Publish_def Let_def message_outcome_def finals_def)
  qed
qed

text \<open>A message disposed of after a segment without disposition.\<close>

lemma dispose_outcome:
  assumes "runs s seg t" "disposals seg = []" "moved seg = []"
    and "d = Ack \<and> length (ces_sent seg) = 1 \<or> d = Nak storeErrorRetryDelay \<and> ces_sent seg = []"
    and "\<forall>c \<in> set (sp_calls seg). \<exists>sp. allowed sp \<and> fst c = sp_request_of sp (retry_params res)"
  shows "\<exists>seg'. runs s seg' (dispose env t m d) \<and> message_outcome allowed cfg fromRetry False (m, res) seg'"
  using runs_trans [OF assms(1) runs_dispose [of t m d env]] assms(2-)
  by (intro exI conjI) (auto simp: message_outcome_def finals_def)

lemma reject_outcome:
  assumes agent: "cfg_agentName cfg \<noteq> ''''"
  shows "\<exists>seg'. runs s seg' (dispose env (reject_unavailable env cfg s res) m Ack) \<and>
    message_outcome allowed cfg fromRetry False (m, res) seg'"
proof -
  from runs_publishCE [OF agent, of s env TypeError] obtain seg ty d where
    seg: "runs s seg (reject_unavailable env cfg s res)" "answer_seg ty d seg" unfolding reject_unavailable_def by blast
  then show ?thesis using answer_seg_one [OF seg(2)]
    by (intro dispose_outcome [OF seg(1)]) (auto simp: answer_seg_def)
qed

lemma forward_outcome:
  assumes agent: "cfg_agentName cfg \<noteq> ''''" and f: "forwardRequest env cfg s sp res = (t, ok)" and free: "\<not> denied_in s res"
    and sp: "allowed sp"
  shows "\<exists>seg. runs s seg t \<and> disposals seg = [] \<and> moved seg = [] \<and> length (ces_sent seg) = (if ok then 1 else 0) \<and>
    (\<forall>c \<in> set (sp_calls seg). \<exists>sp. allowed sp \<and> fst c = sp_request_of sp (retry_params res))"
proof -
  from forwardRequest_seg [OF agent f free] obtain seg where
    "runs s seg t" "forward_seg sp res False (ce_resourceID res \<in> kl_items (r_inFlight s)) ok seg" by blast
  then show ?thesis using sp by (intro exI [of _ seg]) (auto simp: forward_seg_def)
qed

lemma outcome_prefix:
  assumes "runs s pre t" "finals pre = []" "moved pre = []" "ces_sent pre = []" "sp_calls pre = []"
    and "\<exists>seg. runs t seg u \<and> message_outcome allowed cfg fromRetry denied x seg"
  shows "\<exists>seg. runs s seg u \<and> message_outcome allowed cfg fromRetry denied x seg"
proof -
  from assms(6) obtain seg where "runs t seg u" "message_outcome allowed cfg fromRetry denied x seg" by blast
  then show ?thesis using assms(1-5) runs_trans by (intro exI [of _ "pre @ seg"]) (auto simp: message_outcome_def)
qed

lemma routeMessage_outcome:
  assumes agent: "cfg_agentName cfg \<noteq> ''''" and free: "\<not> denied_in s res"
  shows "\<exists>seg. runs s seg (routeMessage env cfg s m res fromRetry) \<and> message_outcome (serves s res) cfg fromRetry False (m, res) seg"
proof -
  obtain d r where res: "ResolveProvider (x_io env) (r_registry s) (r_disk s) (r_tracker s) (ce_serviceType res) = (d, r)"
    by fastforce
  let ?s = "s\<lparr>r_disk := d\<rparr>"
  have s: "runs s [] ?s" by (rule runs_disk)
  show ?thesis
  proof (cases r)
    case NoProvider
    then show ?thesis using requeue_outcome [of "[]", OF _ _ _ s] res by (simp add: routeMessage_def)
  next
    case (StoreFailed e)
    then show ?thesis using dispose_outcome [OF s, of "Nak storeErrorRetryDelay"] res by (simp add: routeMessage_def)
  next
    case (Resolved sp status)
    show ?thesis
    proof (cases status)
      case Ready
      obtain t ok where f: "forwardRequest env cfg ?s sp res = (t, ok)" by fastforce
      have "serves s res sp" using ResolveProvider_ready [OF res [unfolded Resolved]] Ready by (simp add: serves_def)
      from forward_outcome [OF agent f, where allowed = "serves s res", OF _ this] free obtain seg where
        seg: "runs ?s seg t" "disposals seg = []" "moved seg = []" "length (ces_sent seg) = (if ok then 1 else 0)"
          "\<forall>c \<in> set (sp_calls seg). \<exists>sp. serves s res sp \<and> fst c = sp_request_of sp (retry_params res)"
        by (auto simp: denied_in_def)
      have t: "runs s seg t" using runs_trans [OF s seg(1)] by simp
      show ?thesis
      proof (cases ok)
        case True
        then show ?thesis using dispose_outcome [OF t seg(2,3) _ seg(5), of Ack] seg(4) f res Resolved Ready
          by (simp add: routeMessage_def)
      next
        case False
        then show ?thesis using requeue_outcome [OF seg(2,3) _ t seg(5)] seg(4) f res Resolved Ready
          by (simp add: routeMessage_def)
      qed
    next
      case Unhealthy
      then show ?thesis using requeue_outcome [of "[]", OF _ _ _ s] res Resolved by (simp add: routeMessage_def)
    next
      case Unavailable
      then show ?thesis using outcome_prefix [OF s] reject_outcome [OF agent, of ?s] res Resolved by (simp add: routeMessage_def)
    qed
  qed
qed

section \<open>Outcome of each message\<close>

lemma denied_outcome:
  "runs s [] t \<Longrightarrow> \<exists>seg. runs s seg (dispose env t m Ack) \<and> message_outcome allowed cfg fromRetry True (m, res) seg"
  using runs_trans [OF _ runs_dispose [of t m Ack env], of s "[]"]
  by (intro exI conjI) (auto simp: message_outcome_def)

lemma heartbeat_prefix:
  "runs s [] t \<Longrightarrow> runs s [Disposed (m_id m) InProgress (x_ack env (r_trace t))] (dispose env t m InProgress)"
  using runs_trans [OF _ runs_dispose [of t m InProgress env], of s "[]"] by simp

lemma serves_runs: "runs s seg t \<Longrightarrow> serves t res = serves s res"
  by (rule ext) (simp add: runs_def serves_def)

lemma routed_outcome:
  assumes agent: "cfg_agentName cfg \<noteq> ''''" and free: "\<not> denied_in s res" and t: "runs s [] t"
  shows "\<exists>seg. runs s seg (routeMessage env cfg (dispose env t m InProgress) m res fromRetry) \<and>
    message_outcome (serves s res) cfg fromRetry False (m, res) seg"
proof -
  let ?t = "dispose env t m InProgress"
  note hb = heartbeat_prefix [OF t, of m env]
  have "\<not> denied_in ?t res" using free runs_denied [OF hb] by simp
  from routeMessage_outcome [OF agent this, of env m fromRetry] show ?thesis
    unfolding serves_runs [OF hb] by (intro outcome_prefix [OF hb]) simp_all
qed

lemma deny_check_cases:
  obtains t where "deny_check s res = (t, denied_in s res)" "runs s [] t"
  using runs_deny_check [of s res] by (cases "deny_check s res") (auto simp: denied_in_def)

lemma drain_routed_outcome:
  assumes agent: "cfg_agentName cfg \<noteq> ''''"
  shows "\<exists>seg. runs s seg (drain_routed env cfg fromRetry s (m, res)) \<and>
    message_outcome (serves s res) cfg fromRetry (denied_in s res) (m, res) seg"
proof -
  obtain t where t: "deny_check s res = (t, denied_in s res)" "runs s [] t" by (rule deny_check_cases)
  show ?thesis
  proof (cases "denied_in s res")
    case True
    then show ?thesis using denied_outcome [OF t(2), of env m "serves s res" cfg fromRetry res] t(1) by (simp add: drain_routed_def)
  next
    case False
    then show ?thesis using routed_outcome [OF agent False t(2)] t(1) by (simp add: drain_routed_def)
  qed
qed

text \<open>A transition of \<open>sp\<close> may also call \<open>sp\<close> itself, for a message of its service type.\<close>

definition serves_or_is :: "stored_provider \<Rightarrow> router_state \<Rightarrow> ce_result \<Rightarrow> stored_provider \<Rightarrow> bool" where
  "serves_or_is sp s res sp' \<longleftrightarrow> serves s res sp' \<or> sp' = sp \<and> ce_serviceType res = sp_ServiceType sp"

lemma outcome_mono:
  "message_outcome allowed cfg fromRetry denied x seg \<Longrightarrow> (\<And>sp. allowed sp \<Longrightarrow> allowed' sp) \<Longrightarrow>
   message_outcome allowed' cfg fromRetry denied x seg"
  unfolding message_outcome_def by blast

lemma transition_item_outcome:
  assumes agent: "cfg_agentName cfg \<noteq> ''''"
  shows "\<exists>seg. runs s seg (transition_item env cfg sp s (m, res)) \<and>
    message_outcome (serves_or_is sp s res) cfg True (denied_in s res) (m, res) seg"
proof -
  obtain t where t: "deny_check s res = (t, denied_in s res)" "runs s [] t" by (rule deny_check_cases)
  consider (denied) "denied_in s res" | (other) "\<not> denied_in s res" "ce_serviceType res \<noteq> sp_ServiceType sp"
    | (own) "\<not> denied_in s res" "ce_serviceType res = sp_ServiceType sp" by blast
  then show ?thesis
  proof cases
    case denied
    then show ?thesis using denied_outcome [OF t(2)] t(1) by (simp add: transition_item_def)
  next
    case other
    from routed_outcome [OF agent other(1) t(2), of env m True] obtain seg where
      "runs s seg (routeMessage env cfg (dispose env t m InProgress) m res True)"
      "message_outcome (serves s res) cfg True False (m, res) seg" by blast
    then show ?thesis using other t(1) outcome_mono [of "serves s res" cfg True False "(m, res)" seg "serves_or_is sp s res"]
      by (intro exI [of _ seg]) (simp add: transition_item_def serves_or_is_def)
  next
    case own
    obtain d r where res: "ResolveProvider (x_io env) (r_registry t) (r_disk t) (r_tracker t) (ce_serviceType res) = (d, r)"
      by fastforce
    let ?t = "t\<lparr>r_disk := d\<rparr>"
    have t': "runs s [] ?t" using runs_trans [OF t(2) runs_disk] by simp
    note hb = heartbeat_prefix [OF t', of m env]
    obtain u ok where f: "forwardRequest env cfg (dispose env ?t m InProgress) sp res = (u, ok)" by fastforce
    have go: "\<exists>seg. runs s seg (dispose env u m (if ok then Ack else Nak storeErrorRetryDelay)) \<and>
        message_outcome (serves_or_is sp s res) cfg True False (m, res) seg"
    proof (rule outcome_prefix [OF hb])
      have "\<not> denied_in (dispose env ?t m InProgress) res" using own(1) runs_denied [OF hb] by simp
      from forward_outcome [OF agent f this, of "serves_or_is sp s res"] own(2) obtain seg where
        "runs (dispose env ?t m InProgress) seg u" "disposals seg = []" "moved seg = []"
        "length (ces_sent seg) = (if ok then 1 else 0)"
        "\<forall>c \<in> set (sp_calls seg). \<exists>sp'. serves_or_is sp s res sp' \<and> fst c = sp_request_of sp' (retry_params res)"
        by (auto simp: serves_or_is_def)
      then show "\<exists>seg. runs (dispose env ?t m InProgress) seg (dispose env u m (if ok then Ack else Nak storeErrorRetryDelay)) \<and>
          message_outcome (serves_or_is sp s res) cfg True False (m, res) seg"
        by (intro dispose_outcome) auto
    qed simp_all
    have rej: "\<exists>seg. runs s seg (dispose env (reject_unavailable env cfg ?t res) m Ack) \<and>
        message_outcome (serves_or_is sp s res) cfg True False (m, res) seg"
      by (rule outcome_prefix [OF t' _ _ _ _ reject_outcome [OF agent]]) simp_all
    show ?thesis
    proof (cases r)
      case (StoreFailed e)
      then show ?thesis using dispose_outcome [OF t', of "Nak storeErrorRetryDelay"] own t(1) res by (simp add: transition_item_def)
    next
      case (Resolved sp' status)
      then show ?thesis using go rej own t(1) res f
        by (cases ok) (simp_all add: transition_item_def Let_def)
    qed (use rej own t(1) res in \<open>simp add: transition_item_def\<close>)
  qed
qed

lemma fold_runs_from:
  assumes "\<And>t x pre. x \<in> set xs \<Longrightarrow> runs s pre t \<Longrightarrow> \<exists>seg. runs t seg (f t x) \<and> Q x seg" and "runs s pre t"
  shows "\<exists>segs. runs t (concat segs) (foldl f t xs) \<and> list_all2 Q xs segs"
  using assms
proof (induction xs arbitrary: t pre)
  case Nil
  then show ?case by (intro exI [of _ "[]"]) (simp add: runs_refl)
next
  case (Cons x xs)
  from Cons.prems(1) [of x, OF _ Cons.prems(2)] obtain seg where seg: "runs t seg (f t x)" "Q x seg" by auto
  have "runs s (pre @ seg) (f t x)" using runs_trans [OF Cons.prems(2) seg(1)] .
  moreover have "\<And>u y pre. y \<in> set xs \<Longrightarrow> runs s pre u \<Longrightarrow> \<exists>seg. runs u seg (f u y) \<and> Q y seg" using Cons.prems(1) by simp
  ultimately obtain segs where "runs (f t x) (concat segs) (foldl f (f t x) xs)" "list_all2 Q xs segs"
    using Cons.IH by blast
  then show ?case using seg runs_trans [OF seg(1)] by (intro exI [of _ "seg # segs"]) simp
qed

lemmas fold_runs = fold_runs_from [OF _ runs_refl]

abbreviation silent :: "trace \<Rightarrow> bool" where
  "silent seg \<equiv> sp_calls seg = [] \<and> ces_sent seg = [] \<and> moved seg = []"

lemma heartbeatAll_runs: "\<exists>seg. runs s seg (heartbeatAll env s ms) \<and> silent seg \<and> finals seg = []"
proof (induction ms arbitrary: s)
  case Nil
  then show ?case by (intro exI [of _ "[]"]) (simp add: heartbeatAll_def runs_refl)
next
  case (Cons m ms)
  obtain seg where "runs (dispose env s m InProgress) seg (heartbeatAll env (dispose env s m InProgress) ms)" "silent seg" "finals seg = []"
    using Cons.IH by blast
  then show ?case using runs_trans [OF runs_dispose [of s m InProgress env]]
    by (intro exI [of _ "[Disposed (m_id m) InProgress (x_ack env (r_trace s))] @ seg"]) (simp add: heartbeatAll_def)
qed

text \<open>Messages that do not parse are terminated, the others become items in order.\<close>

definition items_of :: "js_msg list \<Rightarrow> parsed_message list" where
  "items_of msgs = List.map_filter (\<lambda>m. map_option (Pair m) (parseCE (m_data m))) msgs"

definition unparsed :: "js_msg list \<Rightarrow> js_msg list" where
  "unparsed msgs = filter (\<lambda>m. parseCE (m_data m) = None) msgs"

lemma dispose_trace: "dispose env s m d = s\<lparr>r_trace := r_trace s @ [Disposed (m_id m) d (x_ack env (r_trace s))]\<rparr>"
  by (simp add: dispose_def)

lemma parseMessages_runs:
  "\<exists>seg. fst (parseMessages env s msgs) = s\<lparr>r_trace := r_trace s @ seg\<rparr> \<and> list_all term_effect seg \<and>
     disposals seg = map (\<lambda>m. (m_id m, Term)) (unparsed msgs) \<and> snd (parseMessages env s msgs) = items_of msgs"
proof (induction msgs arbitrary: s)
  case Nil
  then show ?case by (intro exI [of _ "[]"]) (simp add: items_of_def unparsed_def map_filter_simps)
next
  case (Cons m msgs)
  show ?case
  proof (cases "parseCE (m_data m)")
    case None
    let ?e = "Disposed (m_id m) Term (x_ack env (r_trace s))"
    from Cons.IH [of "dispose env s m Term"] obtain seg where
      "fst (parseMessages env (dispose env s m Term) msgs) = s\<lparr>r_trace := r_trace s @ ?e # seg\<rparr>" "list_all term_effect seg"
      "disposals seg = map (\<lambda>m. (m_id m, Term)) (unparsed msgs)" "snd (parseMessages env (dispose env s m Term) msgs) = items_of msgs"
      by (auto simp: dispose_trace)
    then show ?thesis using None by (intro exI [of _ "?e # seg"]) (simp add: items_of_def unparsed_def map_filter_simps)
  next
    case (Some res)
    then show ?thesis using Cons.IH [of s] by (auto simp: items_of_def unparsed_def map_filter_simps case_prod_unfold)
  qed
qed

lemma terms_runs: "t = s\<lparr>r_trace := r_trace s @ seg\<rparr> \<Longrightarrow> runs s seg t"
  by (simp add: runs_def)

lemma terms_silent: "list_all term_effect seg \<Longrightarrow> silent seg"
proof (induction seg)
  case (Cons e seg)
  then show ?case by (cases e rule: term_effect.cases) simp_all
qed simp

interpretation rp: retry_topic "FetchRetryMessages env v" for env v
proof
  fix s
  show "\<exists>seg. fst (FetchRetryMessages env v s) = s\<lparr>r_trace := r_trace s @ seg\<rparr> \<and> list_all term_effect seg"
  proof (cases "snd (fetchAllFromConsumer v)")
    case True
    then show ?thesis using parseMessages_runs [of env s "fst (fetchAllFromConsumer v)"]
      by (auto simp: FetchRetryMessages_def case_prod_unfold)
  next
    case False
    then show ?thesis by (intro exI [of _ "[]"]) (simp add: FetchRetryMessages_def case_prod_unfold)
  qed
qed

definition deleted_answers :: "router_cfg \<Rightarrow> string list \<Rightarrow> ce_data list" where
  "deleted_answers cfg ids = map (\<lambda>i. DeletionAckData (responseCtx cfg i) ''DELETED'') ids"

definition pair_acks :: "parsed_message list \<Rightarrow> string list \<Rightarrow> (nat \<times> disposition) list" where
  "pair_acks items ids = concat (map (\<lambda>i. map (\<lambda>x. (m_id (fst x), Ack)) (creates_of items i @ deletes_of items i)) ids)"

lemma ack_all_runs:
  "\<exists>seg. runs s seg (foldl (\<lambda>s x. dispose env s (fst x) Ack) s xs) \<and> silent seg \<and> disposals seg = map (\<lambda>x. (m_id (fst x), Ack)) xs"
proof (induction xs arbitrary: s)
  case Nil
  then show ?case by (intro exI [of _ "[]"]) (simp add: runs_refl)
next
  case (Cons x xs)
  obtain seg where seg: "runs (dispose env s (fst x) Ack) seg (foldl (\<lambda>s x. dispose env s (fst x) Ack) (dispose env s (fst x) Ack) xs)"
    "silent seg" "disposals seg = map (\<lambda>x. (m_id (fst x), Ack)) xs"
    using Cons.IH by blast
  then show ?case using runs_trans [OF runs_dispose [of s "fst x" Ack env] seg(1)]
    by (intro exI [of _ "[Disposed (m_id (fst x)) Ack (x_ack env (r_trace s))] @ seg"]) simp
qed

lemma dedup_one_runs:
  assumes agent: "cfg_agentName cfg \<noteq> ''''" and p: "paired items i"
  shows "\<exists>seg. runs s seg (dedup_one env cfg items s i) \<and> sp_calls seg = [] \<and> moved seg = [] \<and>
    disposals seg = pair_acks items [i] \<and> map ce_data (ces_sent seg) = deleted_answers cfg [i]"
proof -
  let ?xs = "creates_of items i @ deletes_of items i"
  let ?t = "foldl (\<lambda>s x. dispose env s (fst x) Ack) s ?xs"
  obtain a where a: "runs s a ?t" "silent a" "disposals a = map (\<lambda>x. (m_id (fst x), Ack)) ?xs" using ack_all_runs by blast
  from runs_publishCE [OF agent, of ?t env TypeDeletionAcked] obtain b where
    b: "runs ?t b (dedup_one env cfg items s i)"
      "answer_seg TypeDeletionAcked (DeletionAckData (responseCtx cfg i) ''DELETED'') b"
    using p unfolding dedup_one_def by auto
  then show ?thesis using a runs_trans [OF a(1) b(1)]
    by (intro exI [of _ "a @ b"]) (simp add: answer_seg_def pair_acks_def deleted_answers_def)
qed

lemma dedup_runs:
  assumes agent: "cfg_agentName cfg \<noteq> ''''"
  shows "\<exists>seg. runs s seg (foldl (dedup_one env cfg items) s ids) \<and> sp_calls seg = [] \<and> moved seg = [] \<and>
    disposals seg = pair_acks items (filter (paired items) ids) \<and>
    map ce_data (ces_sent seg) = deleted_answers cfg (filter (paired items) ids)"
proof (induction ids arbitrary: s)
  case Nil
  then show ?case by (intro exI [of _ "[]"]) (simp add: runs_refl pair_acks_def deleted_answers_def)
next
  case (Cons i ids)
  let ?t = "dedup_one env cfg items s i"
  obtain a where a: "runs s a ?t" "sp_calls a = []" "moved a = []" "disposals a = pair_acks items (filter (paired items) [i])"
    "map ce_data (ces_sent a) = deleted_answers cfg (filter (paired items) [i])"
  proof (cases "paired items i")
    case True
    then show ?thesis using dedup_one_runs [OF agent True, of s env] that by auto
  next
    case False
    then have "?t = s" by (simp add: dedup_one_def)
    then show ?thesis using False by (intro that [of "[]"]) (simp_all add: runs_refl pair_acks_def deleted_answers_def)
  qed
  obtain b where "runs ?t b (foldl (dedup_one env cfg items) ?t ids)" "sp_calls b = []" "moved b = []"
    "disposals b = pair_acks items (filter (paired items) ids)"
    "map ce_data (ces_sent b) = deleted_answers cfg (filter (paired items) ids)"
    using Cons.IH by blast
  then show ?case using a runs_trans [OF a(1)]
    by (intro exI [of _ "a @ b"]) (auto simp: pair_acks_def deleted_answers_def)
qed

section \<open>Batches\<close>

text \<open>What draining one batch of retry messages leaves: unparsable messages are terminated; the creates and deletes
  of a resource that has both are acknowledged and answered once per resource; every other message has
  its own outcome, in order.\<close>

definition batch_settled :: "(parsed_message \<Rightarrow> trace \<Rightarrow> bool) \<Rightarrow> router_cfg \<Rightarrow> js_msg list \<Rightarrow> trace \<Rightarrow> bool" where
  "batch_settled Q cfg msgs tr \<longleftrightarrow>
     (\<exists>pre segs ids. tr = pre @ concat segs \<and> distinct ids \<and> set ids = {i. paired (items_of msgs) i} \<and>
        finals pre = map (\<lambda>m. (m_id m, Term)) (unparsed msgs) @ pair_acks (items_of msgs) ids \<and>
        map ce_data (ces_sent pre) = deleted_answers cfg ids \<and> sp_calls pre = [] \<and> moved pre = [] \<and>
        list_all2 Q (filter (\<lambda>x. \<not> deduped (items_of msgs) x) (items_of msgs)) segs)"

lemma paired_ids: "{i. paired items i} \<subseteq> set (map (\<lambda>x. ce_resourceID (snd x)) items)"
  by (auto simp: paired_def creates_of_def filter_empty_conv)

lemma finals_id: "list_all (\<lambda>x. snd x \<noteq> InProgress) (disposals seg) \<Longrightarrow> finals seg = disposals seg"
  by (simp add: finals_def list_all_iff)

lemma batch_effect:
  assumes agent: "cfg_agentName cfg \<noteq> ''''" and order: "\<And>xs. mset (order xs) = mset xs"
    and step: "\<And>t x pre. x \<in> set (items_of msgs) \<Longrightarrow> runs s pre t \<Longrightarrow> \<exists>seg. runs t seg (f t x) \<and> Q x seg"
    and parse: "parseMessages env s msgs = (s1, items)" and dedup: "dedupCreateDeletePairs env cfg order s1 items = (s2, rest)"
  shows "\<exists>tr. runs s tr (foldl f (heartbeatAll env s2 (map fst rest)) rest) \<and> batch_settled Q cfg msgs tr"
proof -
  from parseMessages_runs [of env s msgs] parse obtain a where
    a: "runs s a s1" "silent a" "disposals a = map (\<lambda>m. (m_id m, Term)) (unparsed msgs)" and items: "items = items_of msgs"
    using terms_runs terms_silent by fastforce
  let ?all = "remdups (map (\<lambda>x. ce_resourceID (snd x)) items)"
  let ?ids = "filter (paired items) (order ?all)"
  have d: "s2 = foldl (dedup_one env cfg items) s1 (order ?all)" "rest = filter (\<lambda>x. \<not> deduped items x) items"
    using dedup by (simp_all add: dedupCreateDeletePairs_def)
  from dedup_runs [OF agent, of s1 env items "order ?all"] obtain b where
    b: "runs s1 b s2" "sp_calls b = []" "moved b = []" "disposals b = pair_acks items ?ids"
      "map ce_data (ces_sent b) = deleted_answers cfg ?ids" unfolding d(1) by blast
  obtain c where c: "runs s2 c (heartbeatAll env s2 (map fst rest))" "silent c" "finals c = []" using heartbeatAll_runs by blast
  have t: "runs s (a @ b @ c) (heartbeatAll env s2 (map fst rest))" using runs_trans [OF a(1) runs_trans [OF b(1) c(1)]] .
  have "\<exists>segs. runs (heartbeatAll env s2 (map fst rest)) (concat segs) (foldl f (heartbeatAll env s2 (map fst rest)) rest) \<and>
      list_all2 Q rest segs"
  proof (rule fold_runs_from [OF _ t])
    fix u x pre
    assume "x \<in> set rest" "runs s pre u"
    then show "\<exists>seg. runs u seg (f u x) \<and> Q x seg" using step [of x pre u] d(2) items by simp
  qed
  then obtain segs where
    segs: "runs (heartbeatAll env s2 (map fst rest)) (concat segs) (foldl f (heartbeatAll env s2 (map fst rest)) rest)"
      "list_all2 Q rest segs" by blast
  have "mset (order ?all) = mset ?all" by (rule order)
  then have o: "distinct (order ?all)" "set (order ?all) = set ?all"
    using distinct_remdups mset_eq_imp_distinct_iff mset_eq_setD by blast+
  have ids: "distinct ?ids" "set ?ids = {i. paired items i}"
    using o paired_ids [of items] by (auto simp: subset_iff)
  have "finals b = disposals b" by (rule finals_id) (auto simp: b(4) pair_acks_def list_all_iff)
  moreover have "finals a = disposals a" by (rule finals_id) (auto simp: a(3) list_all_iff)
  ultimately have "finals (a @ b @ c) = map (\<lambda>m. (m_id m, Term)) (unparsed msgs) @ pair_acks items ?ids"
    using a(3) b(4) c(3) by simp
  then have "batch_settled Q cfg msgs ((a @ b @ c) @ concat segs)"
    unfolding batch_settled_def using ids segs(2) a b c d(2) items
    by (intro exI [of _ "a @ b @ c"] exI [of _ segs] exI [of _ ?ids]) simp
  then show ?thesis using runs_trans [OF t segs(1)] by blast
qed

lemma mset_by_key:
  "distinct ids \<Longrightarrow> (\<Sum>i\<leftarrow>ids. mset (filter (\<lambda>x. k x = i \<and> P x) xs)) = mset (filter (\<lambda>x. k x \<in> set ids \<and> P x) xs)"
proof (induction ids)
  case (Cons i ids)
  have "mset (filter (\<lambda>x. k x \<in> set (i # ids) \<and> P x) xs) =
      mset (filter (\<lambda>x. k x = i \<and> P x) xs) + mset (filter (\<lambda>x. k x \<in> set ids \<and> P x) xs)"
    using Cons.prems by (induction xs) auto
  then show ?case using Cons by simp
qed simp

lemma mset_split: "(\<And>x. P x \<Longrightarrow> \<not> Q x) \<Longrightarrow> mset (filter P xs) + mset (filter Q xs) = mset (filter (\<lambda>x. P x \<or> Q x) xs)"
  by (induction xs) auto

lemma mset_compl: "mset (filter P xs) + mset (filter (\<lambda>x. \<not> P x) xs) = mset xs"
  by (induction xs) simp_all

lemma pair_acks_mset:
  assumes "distinct ids" "set ids = {i. paired items i}"
  shows "mset (map fst (pair_acks items ids)) = mset (map (\<lambda>x. m_id (fst x)) (filter (deduped items) items))"
proof -
  let ?P = "\<lambda>x. ce_ceType (snd x) = TypeRequestCreate \<or> ce_ceType (snd x) = TypeRequestDelete"
  have one: "mset (creates_of items i) + mset (deletes_of items i) = mset (filter (\<lambda>x. ce_resourceID (snd x) = i \<and> ?P x) items)" for i
    unfolding creates_of_def deletes_of_def
    by (subst mset_split) (auto simp: request_type_defs conj_disj_distribL)
  have "mset (map fst (pair_acks items ids)) = image_mset (\<lambda>x. m_id (fst x)) (\<Sum>i\<leftarrow>ids. mset (creates_of items i) + mset (deletes_of items i))"
    unfolding pair_acks_def by (induction ids) (auto simp: comp_def)
  also have "\<dots> = image_mset (\<lambda>x. m_id (fst x)) (mset (filter (\<lambda>x. ce_resourceID (snd x) \<in> set ids \<and> ?P x) items))"
    using mset_by_key [OF assms(1), of "\<lambda>x. ce_resourceID (snd x)" ?P items] by (simp add: one)
  finally show ?thesis unfolding assms(2) deduped_def by simp
qed

lemma items_mset: "mset (unparsed msgs) + mset (map fst (items_of msgs)) = mset msgs"
  by (induction msgs) (auto simp: unparsed_def items_of_def map_filter_simps split: option.splits)

lemma finals_concat: "finals (concat segs) = concat (map finals segs)"
  by (induction segs) simp_all

lemma batch_once:
  assumes "batch_settled Q cfg msgs tr" and Q: "\<And>x seg. Q x seg \<Longrightarrow> map fst (finals seg) = [m_id (fst x)]"
  shows "mset (map fst (finals tr)) = mset (map m_id msgs)"
proof -
  let ?items = "items_of msgs"
  let ?rest = "filter (\<lambda>x. \<not> deduped ?items x) ?items"
  from assms(1) obtain pre segs ids where tr: "tr = pre @ concat segs" and ids: "distinct ids" "set ids = {i. paired ?items i}"
    and pre: "finals pre = map (\<lambda>m. (m_id m, Term)) (unparsed msgs) @ pair_acks ?items ids" and segs: "list_all2 Q ?rest segs"
    unfolding batch_settled_def by blast
  have "map fst (finals (concat segs)) = map (\<lambda>x. m_id (fst x)) ?rest"
    using segs by (induction rule: list_all2_induct) (simp_all add: Q)
  then have "mset (map fst (finals tr)) = mset (map m_id (unparsed msgs)) + mset (map fst (pair_acks ?items ids)) +
      mset (map (\<lambda>x. m_id (fst x)) ?rest)"
    using tr pre by (simp add: comp_def del: mset_map)
  also have "\<dots> = image_mset m_id (mset (unparsed msgs)) +
      image_mset (\<lambda>x. m_id (fst x)) (mset (filter (deduped ?items) ?items) + mset ?rest)"
    unfolding pair_acks_mset [OF ids] by (simp only: mset_map image_mset_union add.assoc)
  also have "\<dots> = image_mset m_id (mset (unparsed msgs) + mset (map fst ?items))"
    unfolding mset_compl by (simp add: image_mset.compositionality comp_def)
  finally show ?thesis unfolding items_mset by simp
qed

section \<open>Properties\<close>

text \<open>C13: a transition of a provider to \<open>Ready\<close> or \<open>Unavailable\<close> settles every message fetched from the retry topic
  exactly once, whatever the providers, the store, the message server and the context answer: unparsable messages are
  terminated, the creates and deletes of a resource that has both cancel out with one \<open>DELETED\<close> answer, and every other
  message is acknowledged with exactly one answer (none if it is a denied create, for which no provider is
  called) or put back after ten seconds without an answer.  An answer is sent once; a failed publish is only logged.\<close>

theorem ProcessOnTransition_settles:
  assumes agent: "cfg_agentName cfg \<noteq> ''''" and order: "\<And>xs. mset (order xs) = mset xs"
    and to: "to = Ready \<or> to = Unavailable" and sp: "snd (fs_GetByID (x_io env) (r_disk s) providerID) = Inr (Some sp)"
    and fetch: "fetchAllFromConsumer v = (msgs, True)"
    and run: "ProcessOnTransition env cfg order v s providerID to = (s', r)"
  shows "r = None \<and> (\<exists>tr. r_trace s' = r_trace s @ tr \<and> mset (map fst (finals tr)) = mset (map m_id msgs) \<and>
    batch_settled (\<lambda>x. message_outcome (serves_or_is sp s (snd x)) cfg True (denied_in s (snd x)) x) cfg msgs tr)"
proof -
  let ?Q = "\<lambda>x. message_outcome (serves_or_is sp s (snd x)) cfg True (denied_in s (snd x)) x"
  let ?s = "s\<lparr>r_disk := fst (fs_GetByID (x_io env) (r_disk s) providerID)\<rparr>"
  obtain s1 items where p: "parseMessages env ?s msgs = (s1, items)" by fastforce
  obtain s2 rest where d: "dedupCreateDeletePairs env cfg order s1 items = (s2, rest)" by fastforce
  have "\<exists>tr. runs ?s tr (foldl (transition_item env cfg sp) (heartbeatAll env s2 (map fst rest)) rest) \<and> batch_settled ?Q cfg msgs tr"
  proof (rule batch_effect [OF agent order _ p d])
    fix t pre and x :: parsed_message
    assume "runs ?s pre t"
    then have t: "runs s pre t" by (simp add: runs_def)
    obtain m res where x: "x = (m, res)" by (cases x)
    have "serves_or_is sp t res = serves_or_is sp s res" using serves_runs [OF t] by (simp add: serves_or_is_def fun_eq_iff)
    then show "\<exists>seg. runs t seg (transition_item env cfg sp t x) \<and> ?Q x seg"
      using transition_item_outcome [OF agent, of t env sp m res] runs_denied [OF t] x by simp
  qed
  then obtain tr where tr: "runs ?s tr (foldl (transition_item env cfg sp) (heartbeatAll env s2 (map fst rest)) rest)" "batch_settled ?Q cfg msgs tr"
    by blast
  have "(s', r) = (foldl (transition_item env cfg sp) (heartbeatAll env s2 (map fst rest)) rest, None)"
    using run to sp fetch p d
    by (cases "fs_GetByID (x_io env) (r_disk s) providerID") (auto simp: ProcessOnTransition_def processTransitionItems_def)
  moreover have "mset (map fst (finals tr)) = mset (map m_id msgs)"
    by (rule batch_once [OF tr(2)]) (auto simp: message_outcome_def)
  ultimately show ?thesis using tr by (auto simp: runs_def)
qed

text \<open>The fetch loop: \<open>n\<close> full batches are followed by the answer that ends it.\<close>

definition batch_msgs :: "fetch_answer \<Rightarrow> js_msg list" where
  "batch_msgs a = (case a of Batch ms _ \<Rightarrow> ms | _ \<Rightarrow> [])"

definition batches :: "(nat \<Rightarrow> fetch_answer) \<Rightarrow> nat \<Rightarrow> js_msg list" where
  "batches fetch n = concat (map (\<lambda>k. batch_msgs (fetch k)) [0..<n])"

definition fetch_result :: "(nat \<Rightarrow> fetch_answer) \<Rightarrow> nat \<Rightarrow> nat \<Rightarrow> js_msg list \<times> bool \<Rightarrow> bool" where
  "fetch_result fetch pending n r \<longleftrightarrow>
     (\<forall>k < n. \<exists>ms. fetch k = Batch ms False \<and> ms \<noteq> []) \<and>
     (r = (batches fetch n, True) \<and> (pending \<le> length (batches fetch n) \<or> fetch n = CtxDone \<or> fetch n = Batch [] False) \<or>
      r = (batches fetch (Suc n), False) \<and> (fetch n = FetchFailed \<or> (\<exists>ms. fetch n = Batch ms True)))"

lemma fetch_loop_result:
  assumes "\<forall>i < k. \<exists>ms. fetch i = Batch ms False \<and> ms \<noteq> []" "collected = batches fetch k" "k \<le> pending" "k \<le> length collected"
  shows "\<exists>n \<le> pending. fetch_result fetch pending n (fetch_loop fetch pending k collected)"
  using assms
proof (induction fetch pending k collected rule: fetch_loop.induct)
  case (1 fetch pending k collected)
  show ?case
  proof (cases "length collected < pending")
    case False
    then show ?thesis using 1 by (intro exI [of _ k]) (simp add: fetch_result_def fetch_loop.simps)
  next
    case more: True
    show ?thesis
    proof (cases "\<exists>ms. fetch k = Batch ms False \<and> ms \<noteq> []")
      case True
      then obtain ms where ms: "fetch k = Batch ms False" "ms \<noteq> []" by blast
      have "\<exists>n \<le> pending. fetch_result fetch pending n (fetch_loop fetch pending (Suc k) (collected @ ms))"
      proof (rule 1(1) [OF more ms(1) _ ms(2)])
        show "\<forall>i < Suc k. \<exists>ms. fetch i = Batch ms False \<and> ms \<noteq> []" using 1(2) ms by (auto simp: less_Suc_eq)
        show "collected @ ms = batches fetch (Suc k)" using 1(3) ms by (simp add: batches_def batch_msgs_def)
        show "Suc k \<le> pending" "Suc k \<le> length (collected @ ms)" using 1(5) more ms(2) by (auto simp: neq_Nil_conv)
      qed simp
      then show ?thesis using more ms by (subst fetch_loop.simps) simp
    next
      case False
      then show ?thesis using 1(2,3,4) more
        by (intro exI [of _ k], subst fetch_loop.simps)
          (cases "fetch k"; auto simp: fetch_result_def batches_def batch_msgs_def)
    qed
  qed
qed

text \<open>C15: fetching terminates: \<open>fetchAllFromConsumer\<close> returns after at most \<open>pending\<close> calls of \<open>Fetch\<close> that
  deliver messages and one that does not.  It returns without error exactly the messages of all full batches, and
  then it has at least as many as were pending, or the context was done, or a \<open>Fetch\<close> found nothing more; an
  error is reported with all messages delivered so far.\<close>

theorem fetchAllFromConsumer_bounded:
  assumes "js_present v" "js_consumer v" "js_info v = Some (numPending, numAckPending)"
  shows "\<exists>n \<le> unat (numPending + numAckPending). fetch_result (js_fetch v) (unat (numPending + numAckPending)) n (fetchAllFromConsumer v)"
proof (cases "numPending + numAckPending = 0")
  case True
  then show ?thesis using assms by (simp add: fetchAllFromConsumer_def fetch_result_def batches_def)
next
  case False
  then show ?thesis
    using fetch_loop_result [of 0 "js_fetch v" "[]" "unat (numPending + numAckPending)"] assms
    by (simp add: fetchAllFromConsumer_def batches_def Let_def)
qed

definition sample_view :: "js_msg list \<Rightarrow> js_view" where
  "sample_view ms = \<lparr>js_present = True, js_consumer = True, js_info = Some (of_nat (length ms), 0),
     js_fetch = (\<lambda>k. if k = 0 then Batch ms False else Batch [] False)\<rparr>"

theorem fetchAllFromConsumer_bounded_witness:
  "\<exists>n. n \<le> 1 \<and> fetch_result (js_fetch (sample_view [\<lparr>m_id = 1, m_data = MalformedCE\<rparr>])) 1 n
     (fetchAllFromConsumer (sample_view [\<lparr>m_id = 1, m_data = MalformedCE\<rparr>]))"
  using fetchAllFromConsumer_bounded [of "sample_view [\<lparr>m_id = 1, m_data = MalformedCE\<rparr>]" 1 0]
  by (simp add: sample_view_def)

text \<open>The deny list is only consulted for creates, and a cancel that reaches the retry topic is not one: when
  \<open>forwardRequest\<close> gets a cancel for a cancelled resource it asks the provider to create that resource.\<close>

theorem forwardRequest_cancel_creates:
  "\<exists>s res. ce_ceType res = TypeRequestCancel \<and> lru_mem (r_deny s) (ce_resourceID res) \<and>
     map fst (sp_calls (r_trace (fst (forwardRequest (sample_fwd_env 201) sample_cfg s sample_provider res)))) =
       [CreateResource (sp_Endpoint sample_provider) False (ce_resourceID res) (ce_serviceType res) (ce_spec res) (ce_eventID res)]"
proof -
  let ?s = "sample_router\<lparr>r_deny := fst (lru_insert (lru_new 2) ''r1'')\<rparr>"
  let ?res = "\<lparr>ce_resourceID = ''r1'', ce_serviceType = ''database'', ce_eventID = ''e2'', ce_ceType = TypeRequestCancel, ce_spec = None\<rparr>"
  have "lru_mem (r_deny ?s) ''r1''" by (simp add: lru_mem_insert)
  moreover have "map fst (sp_calls (r_trace (fst (forwardRequest (sample_fwd_env 201) sample_cfg ?s sample_provider ?res)))) =
      [CreateResource (sp_Endpoint sample_provider) False ''r1'' ''database'' None ''e2'']"
    by (simp add: forwardRequest_def forward_locked_def retry_params_def publishAckCE_def request_type_defs forward_run_defs sample_router_defs)
  ultimately show ?thesis by (intro exI [of _ ?s] exI [of _ ?res]) simp
qed

text \<open>The sample transition: a create and a delete of one resource, and a create of another one.\<close>

definition sample_request :: "nat \<Rightarrow> string \<Rightarrow> string \<Rightarrow> js_msg" where
  "sample_request n ty i =
     \<lparr>m_id = n, m_data = CloudEvent ty ''e'' (Some \<lparr>p_ResourceID = i, p_ServiceType = ''database'', p_Spec = None\<rparr>)\<rparr>"

definition sample_batch :: "js_msg list" where
  "sample_batch = [sample_request 1 TypeRequestCreate ''r1'', sample_request 2 TypeRequestDelete ''r1'', sample_request 3 TypeRequestCreate ''r2'']"

lemma sample_fetch: "fetchAllFromConsumer (sample_view sample_batch) = (sample_batch, True)"
  by (simp add: fetchAllFromConsumer_def sample_view_def sample_batch_def fetch_loop.simps [of _ _ 0] fetch_loop.simps [of _ _ "Suc 0"])

theorem ProcessOnTransition_settles_witness:
  "\<exists>tr. r_trace (fst (ProcessOnTransition (sample_fwd_env 201) sample_cfg id (sample_view sample_batch) sample_router ''id-1'' Ready)) = tr \<and>
     mset (map fst (finals tr)) = {#1, 2, 3#}"
proof -
  let ?r = "ProcessOnTransition (sample_fwd_env 201) sample_cfg id (sample_view sample_batch) sample_router ''id-1'' Ready"
  have "snd (fs_GetByID (x_io (sample_fwd_env 201)) (r_disk sample_router) ''id-1'') = Inr (Some sample_provider)"
    using sample_provider_valid by (simp add: fs_GetByID_def findBy_def readFile_def fault_now_def fs_init_def sample_router_defs)
  moreover have "cfg_agentName sample_cfg \<noteq> ''''" "r_trace sample_router = []" by (simp_all add: sample_router_defs)
  ultimately show ?thesis
    using sample_fetch ProcessOnTransition_settles [of sample_cfg id Ready "sample_fwd_env 201" sample_router "''id-1''" sample_provider
        "sample_view sample_batch" sample_batch "fst ?r" "snd ?r"]
    by (auto simp: sample_batch_def sample_request_def)
qed

end
