(* ===== verification/Routing_Runs.thy ===== *)
theory Routing_Runs
  imports Retry_Processor
begin

text \<open>
  Runs of the router together with the retry processor: sequences of requests, cancels and health
  transitions on the shared state, and the restart.  The router's retry consumer is the processor's
  \<open>FetchRetryMessages\<close>, through the interpretation \<open>rp\<close> of \<open>retry_topic\<close>.
\<close>

section \<open>Operations on the deny list\<close>

datatype router_op =
    RequestOp ce_message
  | CancelOp "js_view option" ce_message \<comment> \<open>the retry topic, once the consumer is set\<close>
  | TransitionOp "string list \<Rightarrow> string list" js_view string provider_status

definition consumer_of :: "fwd_env \<Rightarrow> js_view option \<Rightarrow> retry_consumer option" where
  "consumer_of env v = map_option (FetchRetryMessages env) v"

fun router_step :: "fwd_env \<Rightarrow> router_cfg \<Rightarrow> router_state \<Rightarrow> router_op \<Rightarrow> router_state" where
  "router_step env cfg s (RequestOp msg) = fst (HandleRequest env cfg s msg)"
| "router_step env cfg s (CancelOp v msg) = fst (HandleCancel env cfg (consumer_of env v) s msg)"
| "router_step env cfg s (TransitionOp order v providerID to) = fst (ProcessOnTransition env cfg order v s providerID to)"

definition created_in :: "parsed_message list \<Rightarrow> string set" where
  "created_in items = {ce_resourceID (snd x) | x. x \<in> set items \<and> ce_ceType (snd x) = TypeRequestCreate}"

text \<open>The creates that reach the router, and the resources that are cancelled or looked up on the retry topic.\<close>

definition created_ids :: "router_op \<Rightarrow> string set" where
  "created_ids op =
     (case op of
        RequestOp msg \<Rightarrow> (case parseRequestCE msg of Some (True, p, _) \<Rightarrow> {p_ResourceID p} | _ \<Rightarrow> {})
      | _ \<Rightarrow> {})"

definition used_ids :: "router_op \<Rightarrow> string set" where
  "used_ids op =
     (case op of
        RequestOp _ \<Rightarrow> {}
      | CancelOp _ msg \<Rightarrow> (case parseCancelCE msg of Some (p, _) \<Rightarrow> {p_ResourceID p} | None \<Rightarrow> {})
      | TransitionOp _ v _ _ \<Rightarrow> created_in (items_of (fst (fetchAllFromConsumer v))))"

definition deny_ops :: "router_op \<Rightarrow> rs_op set" where
  "deny_ops op = OpConsume ` created_ids op \<union> OpAdd ` used_ids op \<union> OpContains ` used_ids op"

text \<open>\<open>touches D s s'\<close>: on the way from \<open>s\<close> to \<open>s'\<close> only operations of \<open>D\<close> are applied to the deny list.\<close>

definition touches :: "rs_op set \<Rightarrow> router_state \<Rightarrow> router_state \<Rightarrow> bool" where
  "touches D s s' \<longleftrightarrow> (\<exists>dops. r_deny s' = foldl lru_step (r_deny s) dops \<and> set dops \<subseteq> D)"

lemma touches_same: "r_deny s' = r_deny s \<Longrightarrow> touches D s s'"
  unfolding touches_def by (intro exI [of _ "[]"]) simp

lemma touches_step: "r_deny s' = lru_step (r_deny s) x \<Longrightarrow> x \<in> D \<Longrightarrow> touches D s s'"
  unfolding touches_def by (intro exI [of _ "[x]"]) simp

lemma touches_trans:
  assumes "touches D s t" "touches D t u"
  shows "touches D s u"
proof -
  from assms(1) obtain a where a: "r_deny t = foldl lru_step (r_deny s) a" "set a \<subseteq> D" unfolding touches_def by blast
  from assms(2) obtain b where "r_deny u = foldl lru_step (r_deny t) b" "set b \<subseteq> D" unfolding touches_def by blast
  then show ?thesis using a unfolding touches_def by (intro exI [of _ "a @ b"]) simp
qed

lemma touches_fold:
  assumes "\<And>t x. x \<in> set xs \<Longrightarrow> touches D t (f t x)"
  shows "touches D s (foldl f s xs)"
  using assms
proof (induction xs arbitrary: s)
  case (Cons x xs)
  have "touches D s (f s x)" using Cons.prems by simp
  moreover have "touches D (f s x) (foldl f (f s x) xs)" using Cons by simp
  ultimately show ?case using touches_trans by simp
qed (simp add: touches_same)

section \<open>Requests and cancels\<close>

lemma forward_claimed_deny: "r_deny (fst (forward_claimed env cfg s sp isCreate p eventID newlyAdded)) = r_deny s"
  by (auto simp: forward_claimed_def Let_def split: prod.splits option.splits)

lemma forwardWithRetry_touches:
  assumes "isCreate \<longrightarrow> OpConsume (p_ResourceID p) \<in> D"
  shows "touches D s (fst (forwardWithRetry env cfg s sp isCreate p eventID))"
proof -
  have "r_deny (fst (forwardWithRetry env cfg s sp isCreate p eventID)) \<in>
      {r_deny s} \<union> (if isCreate then {lru_step (r_deny s) (OpConsume (p_ResourceID p))} else {})"
    by (auto simp: forwardWithRetry_def Let_def forward_claimed_deny split: prod.splits)
  then show ?thesis using assms touches_same [of _ s] touches_step [of _ s "OpConsume (p_ResourceID p)"] by (cases isCreate) auto
qed

lemma HandleRequest_touches: "touches (deny_ops (RequestOp msg)) s (fst (HandleRequest env cfg s msg))"
proof (cases "parseRequestCE msg")
  case None
  then show ?thesis by (simp add: HandleRequest_def touches_same)
next
  case (Some x)
  obtain isCreate p eventID where x: "x = (isCreate, p, eventID)" by (cases x)
  let ?l = "fst (if isCreate then lru_consume (r_deny s) (p_ResourceID p) else (r_deny s, False))"
  have D: "isCreate \<longrightarrow> OpConsume (p_ResourceID p) \<in> deny_ops (RequestOp msg)"
    using Some x by (simp add: deny_ops_def created_ids_def)
  have step: "touches (deny_ops (RequestOp msg)) s t" if "r_deny t = ?l" for t
    using that D touches_same [of t s] touches_step [of t s "OpConsume (p_ResourceID p)"] by (cases isCreate) auto
  have "r_deny (fst (HandleRequest env cfg s msg)) \<in> {r_deny s, ?l} \<or>
      (\<exists>d sp. HandleRequest env cfg s msg = forwardWithRetry env cfg (s\<lparr>r_deny := ?l, r_disk := d\<rparr>) sp isCreate p eventID)"
  proof (cases "snd (ResolveProvider (x_io env) (r_registry s) (r_disk s) (r_tracker s) (p_ServiceType p))")
    case (Resolved sp status)
    then show ?thesis
      by (cases isCreate) (auto simp: HandleRequest_def Some x Publish_def Let_def case_prod_unfold)
  qed (simp_all add: HandleRequest_def Some x Let_def case_prod_unfold)
  then show ?thesis
  proof
    assume "\<exists>d sp. HandleRequest env cfg s msg = forwardWithRetry env cfg (s\<lparr>r_deny := ?l, r_disk := d\<rparr>) sp isCreate p eventID"
    then obtain d sp where f: "HandleRequest env cfg s msg =
        forwardWithRetry env cfg (s\<lparr>r_deny := ?l, r_disk := d\<rparr>) sp isCreate p eventID" by blast
    have "touches (deny_ops (RequestOp msg)) s (s\<lparr>r_deny := ?l, r_disk := d\<rparr>)" by (rule step) simp
    then show ?thesis unfolding f using touches_trans forwardWithRetry_touches [OF D] by blast
  qed (use step touches_same in auto)
qed

lemma purge_deny [simp]:
  "r_deny (fst (purgeFromRetryTopic env (FetchRetryMessages env v) s i)) = r_deny s"
proof -
  obtain s' e where p: "purgeFromRetryTopic env (FetchRetryMessages env v) s i = (s', e)" by fastforce
  from rp.purge_effect [OF p] show ?thesis using p by auto
qed

lemma consumer_cases: "consumer_of env v \<in> {None, Some (FetchRetryMessages env (the v))}"
  by (cases v) (simp_all add: consumer_of_def)

lemma HandleCancel_denies:
  assumes parse: "parseCancelCE msg = Some (p, eventID)" and valid: "p_ResourceID p \<noteq> ''''" "p_ServiceType p \<noteq> ''''"
    and free: "\<not> lru_mem (r_claimed s) (p_ResourceID p)"
  shows "r_deny (fst (HandleCancel env cfg (consumer_of env v) s msg)) = fst (lru_insert (r_deny s) (p_ResourceID p))"
proof (cases v)
  case None
  then show ?thesis using assms by (simp add: HandleCancel_def lru_contains_def consumer_of_def)
next
  case (Some v)
  let ?s = "s\<lparr>r_claimed := r_claimed s, r_deny := fst (lru_insert (r_deny s) (p_ResourceID p))\<rparr>"
  obtain t e where q: "purgeFromRetryTopic env (FetchRetryMessages env v) ?s (p_ResourceID p) = (t, e)" by fastforce
  then have "r_deny t = r_deny ?s" using purge_deny [of env v ?s "p_ResourceID p"] by simp
  then show ?thesis using assms Some q by (cases e) (simp_all add: HandleCancel_def lru_contains_def consumer_of_def)
qed

lemma HandleCancel_touches: "touches (deny_ops (CancelOp v msg)) s (fst (HandleCancel env cfg (consumer_of env v) s msg))"
proof (cases "parseCancelCE msg")
  case None
  then show ?thesis by (simp add: HandleCancel_def touches_same)
next
  case (Some x)
  obtain p eventID where x: "x = (p, eventID)" by (cases x)
  have D: "OpAdd (p_ResourceID p) \<in> deny_ops (CancelOp v msg)" using Some x by (simp add: deny_ops_def used_ids_def)
  show ?thesis
  proof (cases "p_ResourceID p = '''' \<or> p_ServiceType p = '''' \<or> lru_mem (r_claimed s) (p_ResourceID p)")
    case True
    then show ?thesis using Some x by (intro touches_same) (auto simp: HandleCancel_def lru_contains_def Let_def)
  next
    case False
    then show ?thesis
      using HandleCancel_denies [OF Some [unfolded x], of s env cfg v] D by (intro touches_step [OF _ D]) simp
  qed
qed

section \<open>Transitions\<close>

lemma keeps_deny [simp]:
  "r_deny (dispose env s m d) = r_deny s"
  "r_deny (publishAckCE env cfg s res) = r_deny s"
  "r_deny (reject_unavailable env cfg s res) = r_deny s"
  by (simp_all add: dispose_def publishAckCE_def reject_unavailable_def)

lemma requeue_deny [simp]: "r_deny (requeueToRetryTopic env cfg s m fromRetry) = r_deny s"
  by (simp add: requeueToRetryTopic_def Let_def case_prod_unfold)

lemma folds_deny [simp]:
  "r_deny (foldl (\<lambda>s m. dispose env s (g m) d) s ms) = r_deny s"
  by (induction ms arbitrary: s) simp_all

lemma heartbeatAll_deny [simp]: "r_deny (heartbeatAll env s ms) = r_deny s"
  using folds_deny [of env "\<lambda>m. m"] by (simp add: heartbeatAll_def)

lemma parseMessages_deny [simp]: "r_deny (fst (parseMessages env s msgs)) = r_deny s"
  using parseMessages_runs [of env s msgs] by auto

lemma dedup_deny [simp]: "r_deny (fst (dedupCreateDeletePairs env cfg order s items)) = r_deny s"
proof -
  have "r_deny (foldl (dedup_one env cfg items) s ids) = r_deny s" for ids
    by (induction ids arbitrary: s) (simp_all add: dedup_one_def)
  then show ?thesis by (simp add: dedupCreateDeletePairs_def)
qed

text \<open>\<open>D\<close> allows the lookups of the creates among \<open>items\<close>.\<close>

lemma deny_check_touches:
  assumes "ce_ceType res = TypeRequestCreate \<longrightarrow> OpContains (ce_resourceID res) \<in> D"
  shows "touches D s (fst (deny_check s res))"
  using assms touches_step [of "fst (deny_check s res)" s "OpContains (ce_resourceID res)" D] touches_same [of s s D]
  by (cases "ce_ceType res = TypeRequestCreate") (simp_all add: deny_check_def case_prod_unfold)

lemma forwardRequest_touches:
  assumes D: "ce_ceType res = TypeRequestCreate \<longrightarrow> OpContains (ce_resourceID res) \<in> D"
  shows "touches D s (fst (forwardRequest env cfg s sp res))"
proof -
  have "r_deny (fst (forward_locked env cfg t sp res)) \<in>
      (if ce_ceType res = TypeRequestCreate then {lru_step (r_deny t) (OpContains (ce_resourceID res))} else {r_deny t})" for t
    by (cases "ce_ceType res = TypeRequestCreate")
      (auto simp: forward_locked_def Let_def split: prod.splits option.splits)
  from this [of "s\<lparr>r_inFlight := fst (kl_AddIfAbsent (r_inFlight s) (ce_resourceID res))\<rparr>"]
  have "r_deny (fst (forwardRequest env cfg s sp res)) \<in> {r_deny s} \<union>
      (if ce_ceType res = TypeRequestCreate then {lru_step (r_deny s) (OpContains (ce_resourceID res))} else {})"
    by (simp add: forwardRequest_def Let_def case_prod_unfold split: if_splits)
  then show ?thesis using D touches_same [of _ s] touches_step [of _ s "OpContains (ce_resourceID res)"]
    by (cases "ce_ceType res = TypeRequestCreate") auto
qed

lemma routeMessage_touches:
  assumes D: "ce_ceType res = TypeRequestCreate \<longrightarrow> OpContains (ce_resourceID res) \<in> D"
  shows "touches D s (routeMessage env cfg s m res fromRetry)"
proof -
  obtain d r where res: "ResolveProvider (x_io env) (r_registry s) (r_disk s) (r_tracker s) (ce_serviceType res) = (d, r)"
    by fastforce
  show ?thesis
  proof (cases "\<exists>sp. r = Resolved sp Ready")
    case True
    then obtain sp where r: "r = Resolved sp Ready" by blast
    obtain t ok where f: "forwardRequest env cfg (s\<lparr>r_disk := d\<rparr>) sp res = (t, ok)" by fastforce
    have "touches D (s\<lparr>r_disk := d\<rparr>) t" using forwardRequest_touches [OF D, of "s\<lparr>r_disk := d\<rparr>" env cfg sp] f by simp
    then have "touches D s t" by (simp add: touches_def)
    moreover have "r_deny (routeMessage env cfg s m res fromRetry) = r_deny t"
      using res r f by (cases ok) (simp_all add: routeMessage_def)
    ultimately show ?thesis by (simp add: touches_def)
  next
    case False
    then have "r_deny (routeMessage env cfg s m res fromRetry) = r_deny s"
      using res by (cases r) (auto simp: routeMessage_def Let_def split: provider_status.splits)
    then show ?thesis by (rule touches_same)
  qed
qed

lemma transition_item_touches:
  assumes D: "ce_ceType res = TypeRequestCreate \<longrightarrow> OpContains (ce_resourceID res) \<in> D"
  shows "touches D s (transition_item env cfg sp s (m, res))"
proof -
  obtain t denied where t: "deny_check s res = (t, denied)" by fastforce
  have st: "touches D s t" using deny_check_touches [OF D, of s] t by simp
  obtain d r where res: "ResolveProvider (x_io env) (r_registry t) (r_disk t) (r_tracker t) (ce_serviceType res) = (d, r)"
    by fastforce
  let ?u = "dispose env (t\<lparr>r_disk := d\<rparr>) m InProgress"
  obtain u ok where f: "forwardRequest env cfg ?u sp res = (u, ok)" by fastforce
  have fu: "touches D t u" using forwardRequest_touches [OF D, of ?u env cfg sp] f by (simp add: touches_def)
  have rt: "touches D t (routeMessage env cfg (dispose env t m InProgress) m res True)"
    using routeMessage_touches [OF D, of "dispose env t m InProgress" env cfg m True] by (simp add: touches_def)
  have "r_deny (transition_item env cfg sp s (m, res)) \<in>
      {r_deny t, r_deny u, r_deny (routeMessage env cfg (dispose env t m InProgress) m res True)}"
    using t res f
    by (cases denied; cases "ce_serviceType res = sp_ServiceType sp"; cases r; cases ok) (simp_all add: transition_item_def Let_def)
  then have "touches D t (transition_item env cfg sp s (m, res))"
    using fu rt touches_same [of "transition_item env cfg sp s (m, res)" t D] by (auto simp: touches_def)
  then show ?thesis using touches_trans [OF st] by blast
qed

lemma ProcessOnTransition_touches:
  "touches (deny_ops (TransitionOp order v providerID to)) s (fst (ProcessOnTransition env cfg order v s providerID to))"
proof -
  let ?D = "deny_ops (TransitionOp order v providerID to)" and ?items = "items_of (fst (fetchAllFromConsumer v))"
  have D: "ce_ceType res = TypeRequestCreate \<longrightarrow> OpContains (ce_resourceID res) \<in> ?D" if "(m, res) \<in> set ?items" for m res
  proof
    assume "ce_ceType res = TypeRequestCreate"
    then have "ce_resourceID res \<in> created_in ?items" using that by (force simp: created_in_def)
    then show "OpContains (ce_resourceID res) \<in> ?D" by (simp add: deny_ops_def used_ids_def)
  qed
  have items: "snd (parseMessages env t (fst (fetchAllFromConsumer v))) = ?items" for t
    using parseMessages_runs by blast
  have fold: "touches ?D t (foldl (transition_item env cfg sp) (heartbeatAll env t ms) rest)" if "set rest \<subseteq> set ?items" for t sp ms rest
  proof -
    have "touches ?D (heartbeatAll env t ms) (foldl (transition_item env cfg sp) (heartbeatAll env t ms) rest)"
    proof (rule touches_fold)
      fix t x
      assume "x \<in> set rest"
      moreover obtain m res where "x = (m, res)" by (cases x)
      ultimately show "touches ?D t (transition_item env cfg sp t x)"
        using that D [of m res] transition_item_touches [of res ?D t env cfg sp m] by blast
    qed
    then show ?thesis by (simp add: touches_def)
  qed
  let ?t = "\<lambda>d. fst (dedupCreateDeletePairs env cfg order (fst (parseMessages env (s\<lparr>r_disk := d\<rparr>) (fst (fetchAllFromConsumer v)))) ?items)"
  have p: "touches ?D s (processTransitionItems env cfg (?t d) sp (filter (\<lambda>x. \<not> deduped ?items x) ?items))" for d sp
    using fold [of "filter (\<lambda>x. \<not> deduped ?items x) ?items" "?t d" sp] by (auto simp: processTransitionItems_def touches_def)
  let ?r = "fst (ProcessOnTransition env cfg order v s providerID to)"
  have "r_deny ?r = r_deny s \<or> (\<exists>d sp. ?r = processTransitionItems env cfg (?t d) sp (filter (\<lambda>x. \<not> deduped ?items x) ?items))"
    using items
    by (simp add: ProcessOnTransition_def Let_def case_prod_unfold dedupCreateDeletePairs_def split: sum.splits option.splits) blast
  then show ?thesis using touches_same [of ?r s ?D] p by auto
qed

lemma router_run_touches: "touches (\<Union> (deny_ops ` set ops)) s (foldl (router_step env cfg) s ops)"
proof (rule touches_fold)
  fix t op
  assume "op \<in> set ops"
  moreover have "touches (deny_ops op) t (router_step env cfg t op)"
    using HandleRequest_touches HandleCancel_touches ProcessOnTransition_touches by (cases op) simp_all
  ultimately show "touches (\<Union> (deny_ops ` set ops)) t (router_step env cfg t op)"
    unfolding touches_def by blast
qed

section \<open>Cancels\<close>

text \<open>A cancel is rejected exactly when the resource is already claimed by a provider.  Otherwise the resource
  is put into the deny list; every message of it that waits on the retry topic is acknowledged away and all
  other parsable ones are put back; and the cancel is acknowledged to the control plane exactly when all of that
  went through.  No provider is called.\<close>

theorem HandleCancel_spec:
  assumes agent: "cfg_agentName cfg \<noteq> ''''" and parse: "parseCancelCE msg = Some (p, eventID)"
    and valid: "p_ResourceID p \<noteq> ''''" "p_ServiceType p \<noteq> ''''" and fetch: "fetchAllFromConsumer v = (msgs, True)"
    and run: "HandleCancel env cfg (Some (FetchRetryMessages env v)) s msg = (s', r)"
  shows "\<exists>seg. r_trace s' = r_trace s @ seg \<and> sp_calls seg = [] \<and>
    (if lru_mem (r_claimed s) (p_ResourceID p)
     then r = None \<and> map ce_type (ces_sent seg) = [TypeCancelRejected] \<and> disposals seg = [] \<and> r_deny s' = r_deny s
     else lru_mem (r_deny s') (p_ResourceID p) \<and>
       map ce_type (ces_sent seg) = (if r = None then [TypeCancelAcked] else []) \<and>
       (r = None \<longrightarrow> live_disposals seg = map (\<lambda>(m, res). (m_id m,
          if ce_resourceID res = p_ResourceID p then Ack else Nak storeErrorRetryDelay)) (items_of msgs)))"
proof (cases "lru_mem (r_claimed s) (p_ResourceID p)")
  case True
  then show ?thesis using HandleCancel_claimed [OF agent parse valid run True] by auto
next
  case False
  let ?t = "s\<lparr>r_deny := fst (lru_insert (r_deny s) (p_ResourceID p))\<rparr>"
  from rp.cancel_effect [OF agent parse valid run False _ refl] obtain seg where
    seg: "s' = ?t\<lparr>r_trace := r_trace s @ seg\<rparr>" "sp_calls seg = []"
      "map ce_type (ces_sent seg) = (if r = None then [TypeCancelAcked] else [])"
      "r = None \<longrightarrow> live_disposals seg = purge_plan (p_ResourceID p) (the (snd (FetchRetryMessages env v ?t)))"
    by auto
  have "snd (FetchRetryMessages env v ?t) = Some (map (\<lambda>(m, res). \<lparr>rm_id = m_id m, rm_ResourceID = ce_resourceID res\<rparr>) (items_of msgs))"
    using fetch parseMessages_runs [of env ?t msgs] by (auto simp: FetchRetryMessages_def case_prod_unfold)
  then show ?thesis
    using seg False by (intro exI [of _ seg]) (simp add: lru_mem_insert purge_plan_def case_prod_unfold comp_def)
qed

lemma deny_ops_uses: "x \<in> deny_ops op \<Longrightarrow> rs_op_uses x \<subseteq> used_ids op"
  by (auto simp: deny_ops_def)

lemma finite_used_ids: "finite (used_ids op)"
proof -
  have "finite (created_in items)" for items
    unfolding created_in_def by (rule finite_surj [of "set items" _ "\<lambda>x. ce_resourceID (snd x)"]) force+
  then show ?thesis by (auto simp: used_ids_def split: router_op.splits option.splits)
qed

lemma touches_retains:
  assumes inv: "lru_inv l" and run: "r_deny s = fst (lru_insert l i)" "touches (\<Union> (deny_ops ` set ops)) s t"
    and between: "i \<notin> \<Union> (created_ids ` set ops)" and room: "card (\<Union> (used_ids ` set ops) - {i}) < lru_max l"
  shows "lru_mem (r_deny t) i"
proof -
  from run(2) obtain dops where dops: "r_deny t = foldl lru_step (r_deny s) dops" "set dops \<subseteq> \<Union> (deny_ops ` set ops)"
    unfolding touches_def by blast
  have "rs_op_uses x \<subseteq> \<Union> (used_ids ` set ops)" if x: "x \<in> set dops" for x
  proof -
    from subsetD [OF dops(2) x] obtain op where "op \<in> set ops" "x \<in> deny_ops op" by (elim UN_E)
    then show ?thesis using deny_ops_uses [of x op] by blast
  qed
  then have uses: "\<Union> (rs_op_uses ` set dops) - {i} \<subseteq> \<Union> (used_ids ` set ops) - {i}" by blast
  show ?thesis unfolding dops(1) run(1)
  proof (rule lru_run_retains [where S = "{}"])
    show "lru_inv (fst (lru_insert l i))" using lru_step_inv [OF inv, of "OpAdd i"] by simp
    show "set (lru_ahead (fst (lru_insert l i)) i) \<subseteq> {}" by (simp add: lru_ahead_def lru_insert_def lru_touch_def)
    show "OpConsume i \<notin> set dops" "OpRemove i \<notin> set dops" using dops(2) between by (auto simp: deny_ops_def)
    show "card ({} \<union> \<Union> (rs_op_uses ` set dops) - {i}) < lru_max (fst (lru_insert l i))"
      using card_mono [OF _ uses] finite_used_ids room by (simp add: lru_insert_def lru_touch_def)
  qed (simp_all add: lru_mem_insert)
qed

text \<open>C11: an acknowledged cancel holds.  Once the cancel of a resource has not been rejected, a later create for it is
  dropped without calling any provider or publishing anything, whatever requests, cancels and health
  transitions are handled in between, as long as none of the requests is a create for that resource and
  they cancel or look up fewer other resources than the deny list has room for.\<close>

theorem cancel_then_create_dropped:
  assumes inv: "lru_inv (r_deny s)"
    and cancel: "parseCancelCE cmsg = Some (q, ev)" "p_ResourceID q \<noteq> ''''" "p_ServiceType q \<noteq> ''''"
    and unclaimed: "\<not> lru_mem (r_claimed s) (p_ResourceID q)"
    and create: "parseRequestCE msg = Some (True, p, eventID)" "p_ResourceID p = p_ResourceID q" "p_ServiceType p \<noteq> ''''"
    and between: "p_ResourceID q \<notin> \<Union> (created_ids ` set ops)"
    and room: "card (\<Union> (used_ids ` set ops) - {p_ResourceID q}) < lru_max (r_deny s)"
    and late: "t = foldl (router_step env cfg) (router_step env cfg s (CancelOp v cmsg)) ops"
  shows "\<exists>t'. HandleRequest env cfg t msg = (t', None) \<and> r_trace t' = r_trace t \<and> r_claimed t' = r_claimed t"
proof -
  have "lru_mem (r_deny t) (p_ResourceID q)"
    unfolding late
    by (rule touches_retains [OF inv _ router_run_touches between room]) (simp add: HandleCancel_denies [OF cancel unclaimed])
  then show ?thesis unfolding HandleRequest_def create(1) using create(2,3) cancel(2) by (simp add: lru_consume_def)
qed

section \<open>Restart\<close>



















section \<open>Sample runs\<close>

lemma sample_router_lru: "lru_inv (r_deny sample_router)" "lru_max (r_deny sample_router) = 2" "r_trace sample_router = []"
  "\<not> lru_mem (r_claimed sample_router) ''r1''" "cfg_agentName sample_cfg \<noteq> ''''"
  by (simp_all add: sample_router_defs lru_inv_def lru_mem_def lru_new_def)

lemma sample_payload_fields: "p_ResourceID sample_payload = ''r1''" "p_ServiceType sample_payload = ''database''"
  by (simp_all add: sample_payload_def)

theorem HandleCancel_spec_witness:
  "\<exists>r. snd (HandleCancel (sample_fwd_env 201) sample_cfg (Some (FetchRetryMessages (sample_fwd_env 201) (sample_view sample_batch)))
      sample_router sample_cancel) = r \<and>
    lru_mem (r_deny (fst (HandleCancel (sample_fwd_env 201) sample_cfg
      (Some (FetchRetryMessages (sample_fwd_env 201) (sample_view sample_batch))) sample_router sample_cancel))) ''r1''"
  using HandleCancel_spec [OF sample_router_lru(5) sample_parse(2) _ _ sample_fetch prod.collapse [symmetric],
      where s = sample_router and env = "sample_fwd_env 201"]
    sample_router_lru(4) sample_payload_fields by auto

theorem cancel_then_create_dropped_witness:
  "\<exists>t'. HandleRequest (sample_fwd_env 201) sample_cfg
     (router_step (sample_fwd_env 201) sample_cfg
        (router_step (sample_fwd_env 201) sample_cfg sample_router (CancelOp None sample_cancel)) (RequestOp MalformedCE))
     sample_create = (t', None)"
proof -
  have "\<Union> (created_ids ` set [RequestOp MalformedCE]) = {}" "\<Union> (used_ids ` set [RequestOp MalformedCE]) = {}"
    by (simp_all add: created_ids_def used_ids_def parseRequestCE_def)
  then show ?thesis
    using cancel_then_create_dropped [OF sample_router_lru(1) sample_parse(2) _ _ _ sample_parse(1) _ _ _ _ refl,
        where ops = "[RequestOp MalformedCE]" and env = "sample_fwd_env 201" and cfg = sample_cfg and v = None]
      sample_router_lru(2,4) sample_payload_fields by auto
qed


end
