(* ===== verification/Messaging_Topics.thy ===== *)
theory Messaging_Topics
  imports Agent_Prelude "HOL-Library.Sublist"
begin

text \<open>
  \<open>internal/messaging/topics.go\<close>: the subjects and JetStream names derived from the agent's base topic name,
  and the validation of that name.  Lengths are byte lengths, which for the accepted characters are the
  lengths of the strings.
\<close>

section \<open>Derived names\<close>

definition RequestStreamName :: string where "RequestStreamName = ''dcm-agent-requests''"
definition requestSubjectPrefix :: string where "requestSubjectPrefix = ''dcm.agent.''"

record topic_names =
  tn_Base :: string
  tn_Main :: string
  tn_Cancel :: string
  tn_Retry :: string

definition DeriveTopicNames :: "string \<Rightarrow> string \<Rightarrow> topic_names" where
  "DeriveTopicNames agentName topicNameOverride =
     (let base = (if topicNameOverride \<noteq> '''' then topicNameOverride else agentName);
          main = requestSubjectPrefix @ base
      in \<lparr>tn_Base = base, tn_Main = main, tn_Cancel = main @ ''.cancel'', tn_Retry = base @ ''.retry''\<rparr>)"

definition MainConsumer :: "topic_names \<Rightarrow> string" where "MainConsumer t = tn_Base t @ ''-consumer''"
definition CancelConsumer :: "topic_names \<Rightarrow> string" where "CancelConsumer t = tn_Base t @ ''-cancel-consumer''"
definition RetryStream :: "topic_names \<Rightarrow> string" where "RetryStream t = tn_Base t @ ''-retry''"
definition RetryConsumer :: "topic_names \<Rightarrow> string" where "RetryConsumer t = tn_Base t @ ''-retry-consumer''"

lemmas js_name_defs = MainConsumer_def CancelConsumer_def RetryStream_def RetryConsumer_def

section \<open>Validation\<close>

datatype topic_error =
    TopicEmpty
  | TopicTooLong
  | TopicInvalidChars
  | TopicEmptyToken
  | TopicReserved
  | TopicHasDots
  | TopicTooLongForJetStream

definition topic_char :: "char \<Rightarrow> bool" where
  "topic_char c \<longleftrightarrow> is_upper c \<or> is_lower c \<or> is_digit c \<or> c = CHR ''.'' \<or> c = CHR ''_'' \<or> c = CHR ''-''"

definition validTopicNameRe :: "string \<Rightarrow> bool" where
  "validTopicNameRe s \<longleftrightarrow> s \<noteq> [] \<and> list_all topic_char s"

definition contains_sub :: "string \<Rightarrow> string \<Rightarrow> bool" where
  "contains_sub s t \<longleftrightarrow> list_ex (prefix t) (suffixes s)"

definition reservedBase :: string where "reservedBase = ''dcm.agent''"

definition ValidateTopicName :: "string \<Rightarrow> topic_error option" where
  "ValidateTopicName name =
     (if name = '''' then Some TopicEmpty
      else if length name > 255 then Some TopicTooLong
      else if \<not> validTopicNameRe name then Some TopicInvalidChars
      else if prefix ''.'' name \<or> suffix ''.'' name \<or> contains_sub name ''..'' then Some TopicEmptyToken
      else if name = reservedBase \<or> prefix requestSubjectPrefix name then Some TopicReserved
      else None)"

definition jsMaxNameLen :: nat where "jsMaxNameLen = 255"
definition longestJetStreamSuffix :: string where "longestJetStreamSuffix = ''-cancel-consumer''"

definition ValidateJetStreamSafeName :: "string \<Rightarrow> topic_error option" where
  "ValidateJetStreamSafeName name =
     (if CHR ''.'' \<in> set name then Some TopicHasDots
      else if length name + length longestJetStreamSuffix > jsMaxNameLen then Some TopicTooLongForJetStream
      else None)"

text \<open>The wildcard subject \<open>dcm.agent.>\<close> matches a subject with at least one more token after the prefix.\<close>

definition cp_wildcard :: "string \<Rightarrow> bool" where
  "cp_wildcard subject \<longleftrightarrow> prefix requestSubjectPrefix subject \<and> length requestSubjectPrefix < length subject"

text \<open>What NATS accepts as the name of a stream or of a durable consumer: nothing empty, no separator, at most 255 bytes.\<close>

definition js_name_ok :: "string \<Rightarrow> bool" where
  "js_name_ok s \<longleftrightarrow> s \<noteq> [] \<and> length s \<le> jsMaxNameLen \<and> list_all (\<lambda>c. topic_char c \<and> c \<noteq> CHR ''.'') s"

section \<open>Properties\<close>

lemma valid_base:
  assumes "ValidateTopicName base = None" "ValidateJetStreamSafeName base = None"
  shows "base \<noteq> []" "list_all (\<lambda>c. topic_char c \<and> c \<noteq> CHR ''.'') base" "length base \<le> 239"
  using assms
  by (auto simp: ValidateTopicName_def ValidateJetStreamSafeName_def validTopicNameRe_def jsMaxNameLen_def
      longestJetStreamSuffix_def list_all_iff split: if_splits)

text \<open>A base name that both validations accept keeps the subjects and names apart: the request and the cancel subject
  lie under the control plane's wildcard \<open>dcm.agent.>\<close> and differ, the retry subject does not, and the two
  durable consumers on the request stream, the retry stream and its consumer have legal JetStream names (no dots, at
  most 255 bytes) with the two consumers of the request stream different.\<close>

theorem topic_names_separate:
  assumes "t = DeriveTopicNames agentName topicNameOverride" "ValidateTopicName (tn_Base t) = None" "ValidateJetStreamSafeName (tn_Base t) = None"
  shows "cp_wildcard (tn_Main t) \<and> cp_wildcard (tn_Cancel t) \<and> \<not> cp_wildcard (tn_Retry t) \<and> tn_Main t \<noteq> tn_Cancel t \<and>
    list_all js_name_ok [MainConsumer t, CancelConsumer t, RetryStream t, RetryConsumer t] \<and> MainConsumer t \<noteq> CancelConsumer t"
proof -
  note b = valid_base [OF assms(2,3)]
  have dots: "CHR ''.'' \<notin> set (tn_Base t)" using b(2) by (auto simp: list_all_iff)
  have main: "tn_Main t = requestSubjectPrefix @ tn_Base t" "tn_Cancel t = tn_Main t @ ''.cancel''" "tn_Retry t = tn_Base t @ ''.retry''"
    using assms(1) by (simp_all add: DeriveTopicNames_def Let_def)
  have "\<not> prefix requestSubjectPrefix (tn_Retry t)"
  proof
    assume "prefix requestSubjectPrefix (tn_Retry t)"
    then obtain c where c: "tn_Base t @ ''.retry'' = ''dcm.agent.'' @ c"
      using main(3) by (auto simp: requestSubjectPrefix_def prefix_def)
    have "takeWhile (\<lambda>x. x \<noteq> CHR ''.'') (tn_Base t @ ''.retry'') = tn_Base t"
      using dots by (subst takeWhile_append2) auto
    then have "tn_Base t = ''dcm''" unfolding c by simp
    then show False using c by simp
  qed
  then show ?thesis
    using main b by (auto simp: cp_wildcard_def js_name_ok_def js_name_defs jsMaxNameLen_def list_all_iff topic_char_def
        is_lower_def is_upper_def is_digit_def)
qed

theorem topic_names_separate_witness:
  "cp_wildcard (tn_Main (DeriveTopicNames ''a'' ''env-1'')) \<and> \<not> cp_wildcard (tn_Retry (DeriveTopicNames ''a'' ''env-1''))"
  using topic_names_separate [OF refl, of "''a''" "''env-1''"]
  by (simp add: DeriveTopicNames_def Let_def ValidateTopicName_def ValidateJetStreamSafeName_def validTopicNameRe_def contains_sub_def
      topic_char_def is_lower_def is_upper_def is_digit_def reservedBase_def requestSubjectPrefix_def jsMaxNameLen_def
      longestJetStreamSuffix_def suffix_def)

text \<open>The names are not unique across agents: two agents with different valid base names can own the same
  durable consumer on the control plane's request stream, one as its cancel consumer and the other as its main
  consumer.\<close>

theorem consumer_names_collide:
  "\<exists>a b. a \<noteq> b \<and> ValidateTopicName a = None \<and> ValidateJetStreamSafeName a = None \<and> ValidateTopicName b = None \<and>
     ValidateJetStreamSafeName b = None \<and> CancelConsumer (DeriveTopicNames a '''') = MainConsumer (DeriveTopicNames b '''')"
proof (intro exI conjI)
  show "''foo'' \<noteq> ''foo-cancel''" by simp
  show "CancelConsumer (DeriveTopicNames ''foo'' '''') = MainConsumer (DeriveTopicNames ''foo-cancel'' '''')"
    by (simp add: DeriveTopicNames_def js_name_defs Let_def)
qed (simp_all add: ValidateTopicName_def ValidateJetStreamSafeName_def validTopicNameRe_def contains_sub_def
      topic_char_def is_lower_def is_upper_def is_digit_def reservedBase_def requestSubjectPrefix_def jsMaxNameLen_def
      longestJetStreamSuffix_def suffix_def)

end
