(* ===== verification/Messaging_Handlers.thy ===== *)
theory Messaging_Handlers
  imports Messaging_Topics Retry_Processor
begin

text \<open>
  \<open>internal/messaging/handlers.go\<close> and the polling loops of \<open>client.go\<close>: what happens to a message delivered on the
  main or the cancel topic.  The handlers are arguments; in \<open>main.go\<close> they are the router's \<open>HandleRequest\<close> and
  \<open>HandleCancel\<close>, and the last section states what the composition guarantees.
\<close>

section \<open>Deliveries\<close>

text \<open>The envelope that \<open>extractLogFields\<close> decodes on its own: id, type, and the resource id of the data, empty when it
  does not decode.  \<open>dl_meta\<close> is \<open>NumDelivered\<close>, or \<^const>\<open>None\<close> when \<open>msg.Metadata()\<close> fails.\<close>

record delivery =
  dl_msg :: js_msg
  dl_envelope :: "(string \<times> string \<times> string) option"
  dl_meta :: "64 word option"

definition extractLogFields :: "delivery \<Rightarrow> string \<times> string \<times> string" where
  "extractLogFields d =
     (case dl_envelope d of
        None \<Rightarrow> ('''', ''unknown'', ''unknown'')
      | Some (ceID, ceType, resourceID) \<Rightarrow>
          (resourceID, if ceID = '''' then ''unknown'' else ceID, if ceType = '''' then ''unknown'' else ceType))"

record client_cfg =
  cc_MaxDeliver :: int
  cc_NakDelay :: duration
  cc_InitialBackoff :: duration
  cc_MaxBackoff :: duration
  cc_DeferConsume :: bool

definition DefaultNakDelay :: duration where "DefaultNakDelay = 500 * 1000000"

definition nakDelay :: "client_cfg \<Rightarrow> duration" where
  "nakDelay c = (if cc_NakDelay c > 0 then cc_NakDelay c else DefaultNakDelay)"

datatype handler_outcome = HandlerOk | HandlerErr handler_error | HandlerPanic

type_synonym message_handler = "router_state \<Rightarrow> ce_message \<Rightarrow> router_state \<times> handler_outcome"

definition settle_outcome :: "fwd_env \<Rightarrow> client_cfg \<Rightarrow> js_msg \<Rightarrow> router_state \<times> handler_outcome \<Rightarrow> router_state" where
  "settle_outcome env c m r =
     (case r of
        (s, HandlerOk) \<Rightarrow> dispose env s m Ack
      | (s, HandlerErr _) \<Rightarrow> dispose env s m (Nak (nakDelay c))
      | (s, HandlerPanic) \<Rightarrow> dispose env s m (Nak (nakDelay c)))"

definition handleCancelMessage :: "fwd_env \<Rightarrow> client_cfg \<Rightarrow> message_handler \<Rightarrow> router_state \<Rightarrow> delivery \<Rightarrow> router_state" where
  "handleCancelMessage env c cancelHandler s d = settle_outcome env c (dl_msg d) (cancelHandler s (m_data (dl_msg d)))"

definition publishMaxDeliverError :: "fwd_env \<Rightarrow> router_cfg \<Rightarrow> router_state \<Rightarrow> delivery \<Rightarrow> router_state" where
  "publishMaxDeliverError env cfg s d =
     publishCE env cfg s TypeError
       (error_data cfg (fst (extractLogFields d)) MAX_DELIVERY_EXCEEDED ''max delivery attempts exceeded'')"

text \<open>\<open>msg.Nak()\<close> is a negative acknowledgement without delay.\<close>

definition handleMainMessage :: "fwd_env \<Rightarrow> router_cfg \<Rightarrow> client_cfg \<Rightarrow> message_handler \<Rightarrow> router_state \<Rightarrow> delivery \<Rightarrow> router_state" where
  "handleMainMessage env cfg c mainHandler s d =
     (let run = (\<lambda>_ :: unit. settle_outcome env c (dl_msg d) (mainHandler s (m_data (dl_msg d))))
      in if cc_MaxDeliver c > 0
         then case dl_meta d of
                None \<Rightarrow> dispose env s (dl_msg d) (Nak 0)
              | Some numDelivered \<Rightarrow>
                  if numDelivered \<ge> word_of_int (cc_MaxDeliver c)
                  then dispose env (publishMaxDeliverError env cfg s d) (dl_msg d) Term
                  else run ()
         else run ())"

section \<open>Loops of the client\<close>

definition defaultReconnectInitialBackoff :: duration where "defaultReconnectInitialBackoff = ns_per_s"
definition defaultReconnectMaxBackoff :: duration where "defaultReconnectMaxBackoff = 30 * ns_per_s"

definition reconnectDelay :: "client_cfg \<Rightarrow> int \<Rightarrow> nat \<Rightarrow> duration" where
  "reconnectDelay c attempts rand =
     (let initial = (if cc_InitialBackoff c \<le> 0 then defaultReconnectInitialBackoff else cc_InitialBackoff c);
          maxWait = (if cc_MaxBackoff c \<le> 0 then defaultReconnectMaxBackoff else cc_MaxBackoff c)
      in ApplyJitter (CalculateBackoff initial maxWait attempts) rand)"

definition requestStreamRetryInterval :: duration where "requestStreamRetryInterval = 2 * ns_per_s"
definition requestStreamRetryTimeout :: duration where "requestStreamRetryTimeout = 30 * ns_per_s"

datatype create_result = Created | TimedOut | ClientStopped | ContextDone

text \<open>The world of \<open>createRequestConsumer\<close>: whether the \<open>k\<close>-th creation succeeds, the time after it, and how the wait ends.\<close>

datatype wait_end = WaitStopped | WaitCtxDone | WaitElapsed

record create_env =
  ce_create :: "nat \<Rightarrow> bool"
  ce_now :: "nat \<Rightarrow> time"
  ce_wait :: "nat \<Rightarrow> wait_end"

partial_function (option) create_loop :: "create_env \<Rightarrow> time \<Rightarrow> nat \<Rightarrow> (create_result \<times> nat) option" where
  "create_loop w deadline k =
     (if ce_create w k then Some (Created, k)
      else if ce_now w k > deadline then Some (TimedOut, k)
      else case ce_wait w k of
             WaitStopped \<Rightarrow> Some (ClientStopped, k)
           | WaitCtxDone \<Rightarrow> Some (ContextDone, k)
           | WaitElapsed \<Rightarrow> create_loop w deadline (Suc k))"

definition createRequestConsumer :: "create_env \<Rightarrow> time \<Rightarrow> (create_result \<times> nat) option" where
  "createRequestConsumer w start = create_loop w (start + requestStreamRetryTimeout) 0"

text \<open>\<open>drainCancelTopic\<close>: \<open>dr_done k\<close> tells whether the drain context is done when iteration \<open>k\<close> begins, \<open>dr_fetch k\<close> is
  \<^const>\<open>None\<close> when the fetch fails and then \<open>dr_wait k\<close> tells whether the context ends during the wait.\<close>

record drain_env =
  dr_done :: "nat \<Rightarrow> bool"
  dr_fetch :: "nat \<Rightarrow> delivery list option"
  dr_wait :: "nat \<Rightarrow> bool"

partial_function (option) drain_loop :: "(router_state \<Rightarrow> delivery \<Rightarrow> router_state) \<Rightarrow> drain_env \<Rightarrow> nat \<Rightarrow> router_state \<Rightarrow> router_state option" where
  "drain_loop handle w k s =
     (if dr_done w k then Some s
      else case dr_fetch w k of
             None \<Rightarrow> if dr_wait w k then Some s else drain_loop handle w (Suc k) s
           | Some ms \<Rightarrow> if ms = [] then Some s else drain_loop handle w (Suc k) (foldl handle s ms))"

definition drainCancelTopic :: "fwd_env \<Rightarrow> client_cfg \<Rightarrow> message_handler \<Rightarrow> drain_env \<Rightarrow> router_state \<Rightarrow> router_state option" where
  "drainCancelTopic env c cancelHandler w s = drain_loop (handleCancelMessage env c cancelHandler) w 0 s"

text \<open>\<open>ConsumerLag\<close>: \<open>int64\<close> conversions of the two counters, and their sum, wrap.\<close>

definition ConsumerLag :: "(64 word \<times> 64 word) option option \<Rightarrow> 64 word \<times> 64 word \<Rightarrow> int" where
  "ConsumerLag info cached =
     (case info of
        None \<Rightarrow> 0
      | Some None \<Rightarrow> wrap64 (sint (fst cached) + sint (snd cached))
      | Some (Some (numPending, numAckPending)) \<Rightarrow> wrap64 (sint numPending + sint numAckPending))"

section \<open>Termination of the loops\<close>

lemma create_loop_bounded:
  assumes clock: "\<And>k. ce_now w (Suc k) \<ge> ce_now w k + requestStreamRetryInterval"
    and "ce_now w k > deadline - int n * requestStreamRetryInterval"
  shows "\<exists>r k'. create_loop w deadline k = Some (r, k') \<and> k' \<le> k + n"
  using assms(2)
proof (induction n arbitrary: k)
  case 0
  then show ?case by (subst create_loop.simps) simp
next
  case (Suc n)
  have "ce_now w (Suc k) > deadline - int n * requestStreamRetryInterval"
    using Suc.prems clock [of k] by (simp add: distrib_right)
  from Suc.IH [OF this] obtain r k' where "create_loop w deadline (Suc k) = Some (r, k')" "k' \<le> Suc k + n" by blast
  then show ?case by (subst create_loop.simps) (auto split: wait_end.splits)
qed

text \<open>\<open>createRequestConsumer\<close> gives up on a request stream that never appears: when each wait takes at least the retry
  interval, it returns after at most 17 creation attempts (the first at time 0 and one every two seconds for thirty
  seconds), whatever they answer.\<close>

theorem createRequestConsumer_terminates:
  assumes "ce_now w 0 \<ge> start" and "\<And>k. ce_now w (Suc k) \<ge> ce_now w k + requestStreamRetryInterval"
  shows "\<exists>r k. createRequestConsumer w start = Some (r, k) \<and> k < 17"
proof -
  have "ce_now w 0 > start + requestStreamRetryTimeout - int 16 * requestStreamRetryInterval"
    using assms(1) by (simp add: requestStreamRetryTimeout_def requestStreamRetryInterval_def)
  from create_loop_bounded [OF assms(2) this] show ?thesis by (auto simp: createRequestConsumer_def less_Suc_eq_le)
qed

theorem createRequestConsumer_terminates_witness:
  "\<exists>r k. createRequestConsumer \<lparr>ce_create = (\<lambda>_. False), ce_now = (\<lambda>k. 3 * ns_per_s * int k), ce_wait = (\<lambda>_. WaitElapsed)\<rparr> 0 = Some (r, k) \<and> k < 17"
  by (rule createRequestConsumer_terminates) (simp_all add: requestStreamRetryInterval_def)

definition drained :: "drain_env \<Rightarrow> nat \<Rightarrow> delivery list" where
  "drained w k = concat (map (\<lambda>i. case dr_fetch w i of Some ms \<Rightarrow> ms | None \<Rightarrow> []) [0..<k])"

lemma drain_loop_result:
  assumes "dr_done w n" "k \<le> n"
  shows "\<exists>j \<ge> k. j \<le> n \<and> drain_loop handle w k (foldl handle s (drained w k)) = Some (foldl handle s (drained w j)) \<and>
    (dr_done w j \<or> dr_fetch w j = Some [] \<or> dr_fetch w j = None \<and> dr_wait w j)"
  using assms(2)
proof (induction "n - k" arbitrary: k)
  case 0
  then have "k = n" by simp
  then show ?case using assms(1) by (intro exI [of _ n]) (simp add: drain_loop.simps)
next
  case (Suc i)
  show ?case
  proof (cases "dr_done w k \<or> dr_fetch w k = Some [] \<or> dr_fetch w k = None \<and> dr_wait w k")
    case True
    then show ?thesis using Suc.prems by (intro exI [of _ k], subst drain_loop.simps) auto
  next
    case False
    have "foldl handle s (drained w (Suc k)) = foldl handle (foldl handle s (drained w k)) (case dr_fetch w k of Some ms \<Rightarrow> ms | None \<Rightarrow> [])"
      by (simp add: drained_def)
    then have "drain_loop handle w k (foldl handle s (drained w k)) = drain_loop handle w (Suc k) (foldl handle s (drained w (Suc k)))"
      using False by (subst drain_loop.simps) (auto split: option.splits)
    moreover have "\<exists>j \<ge> Suc k. j \<le> n \<and> drain_loop handle w (Suc k) (foldl handle s (drained w (Suc k))) = Some (foldl handle s (drained w j)) \<and>
        (dr_done w j \<or> dr_fetch w j = Some [] \<or> dr_fetch w j = None \<and> dr_wait w j)"
      using Suc.hyps(2) Suc.prems by (intro Suc.hyps(1)) auto
    ultimately show ?thesis by (auto intro: Suc_leD)
  qed
qed

section \<open>One delivery\<close>

lemma publishCE_disposals [simp]: "disposals (r_trace (publishCE env cfg s ty d)) = disposals (r_trace s)"
  by (simp add: publishCE_def PublishCE_def Let_def split: option.split)




text \<open>\<open>SetMainHandler(router.HandleRequest)\<close> and \<open>SetCancelHandler(router.HandleCancel)\<close>.\<close>

definition handler_result :: "router_state \<times> handler_error option \<Rightarrow> router_state \<times> handler_outcome" where
  "handler_result r = (case r of (s, None) \<Rightarrow> (s, HandlerOk) | (s, Some e) \<Rightarrow> (s, HandlerErr e))"


definition cancel_handler :: "fwd_env \<Rightarrow> router_cfg \<Rightarrow> retry_consumer option \<Rightarrow> message_handler" where
  "cancel_handler env cfg rc s msg = handler_result (HandleCancel env cfg rc s msg)"






section \<open>Redelivery\<close>

text \<open>JetStream delivers a message again, with the next delivery count, until it is acknowledged or terminated.\<close>

definition settled :: "effect \<Rightarrow> bool" where
  "settled e = (case e of Disposed _ d ok \<Rightarrow> ok \<and> (d = Ack \<or> d = Term) | _ \<Rightarrow> False)"

fun redeliver :: "fwd_env \<Rightarrow> router_cfg \<Rightarrow> client_cfg \<Rightarrow> message_handler \<Rightarrow> delivery \<Rightarrow> nat \<Rightarrow> nat \<Rightarrow> router_state \<Rightarrow> (router_state \<times> nat) option" where
  "redeliver env cfg c h d 0 k s = None"
| "redeliver env cfg c h d (Suc n) k s =
     (let s' = handleMainMessage env cfg c h s (d\<lparr>dl_meta := Some (of_nat k)\<rparr>)
      in if settled (last (r_trace s')) then Some (s', k) else redeliver env cfg c h d n (Suc k) s')"

lemma limit_reached:
  assumes "0 < cc_MaxDeliver c" "int64 (cc_MaxDeliver c)" "k = nat (cc_MaxDeliver c)"
  shows "handleMainMessage env cfg c h s (d\<lparr>dl_meta := Some (of_nat k)\<rparr>) =
    dispose env (publishMaxDeliverError env cfg s (d\<lparr>dl_meta := Some (of_nat k)\<rparr>)) (dl_msg d) Term"
proof -
  have "(word_of_int (cc_MaxDeliver c) :: 64 word) = of_nat k" using assms(1,3) by simp
  then show ?thesis using assms(1) by (simp add: handleMainMessage_def)
qed

lemma redeliver_settles:
  assumes "0 < cc_MaxDeliver c" "int64 (cc_MaxDeliver c)" and ack: "\<And>tr. x_ack env tr"
    and "k \<le> nat (cc_MaxDeliver c)" "nat (cc_MaxDeliver c) - k < n"
  shows "\<exists>s' k'. redeliver env cfg c h d n k s = Some (s', k') \<and> k' \<le> nat (cc_MaxDeliver c)"
  using assms(4,5)
proof (induction n arbitrary: k s)
  case (Suc n)
  let ?s' = "handleMainMessage env cfg c h s (d\<lparr>dl_meta := Some (of_nat k)\<rparr>)"
  show ?case
  proof (cases "settled (last (r_trace ?s'))")
    case True
    then show ?thesis using Suc.prems(1) by (simp add: Let_def)
  next
    case False
    have "k \<noteq> nat (cc_MaxDeliver c)"
    proof
      assume "k = nat (cc_MaxDeliver c)"
      from limit_reached [OF assms(1,2) this] have "settled (last (r_trace ?s'))" by (simp add: dispose_def settled_def ack)
      then show False using False by blast
    qed
    then have "\<exists>s' k'. redeliver env cfg c h d n (Suc k) ?s' = Some (s', k') \<and> k' \<le> nat (cc_MaxDeliver c)"
      using Suc.prems by (intro Suc.IH) auto
    then show ?thesis using False by (simp add: Let_def)
  qed
qed simp

text \<open>C17: every main-topic message is settled: for any handler, even one that fails or panics every time, a message is
  acknowledged or terminated after at most \<open>MaxDeliver\<close> deliveries when the dispositions reach the server.\<close>

theorem redelivery_ends:
  assumes "0 < cc_MaxDeliver c" and "int64 (cc_MaxDeliver c)" and "\<And>tr. x_ack env tr"
  shows "\<exists>s' k. redeliver env cfg c h d (nat (cc_MaxDeliver c)) 1 s = Some (s', k) \<and> k \<le> nat (cc_MaxDeliver c)"
  using assms by (intro redeliver_settles) auto

theorem redelivery_ends_witness:
  "\<exists>s' k. redeliver (sample_fwd_env 500) sample_cfg
     \<lparr>cc_MaxDeliver = 3, cc_NakDelay = 0, cc_InitialBackoff = 0, cc_MaxBackoff = 0, cc_DeferConsume = True\<rparr> (\<lambda>s _. (s, HandlerPanic))
     \<lparr>dl_msg = \<lparr>m_id = 1, m_data = sample_create\<rparr>, dl_envelope = None, dl_meta = None\<rparr> 3 1 sample_router = Some (s', k) \<and> k \<le> 3"
  using redelivery_ends [of "\<lparr>cc_MaxDeliver = 3, cc_NakDelay = 0, cc_InitialBackoff = 0, cc_MaxBackoff = 0, cc_DeferConsume = True\<rparr>"
      "sample_fwd_env 500"]
  by (simp add: int64_def sample_fwd_env_def)

end
