(* ===== verification/Messaging_Client.thy ===== *)
theory Messaging_Client
  imports Main
begin

text \<open>
  \<open>internal/messaging/client.go\<close>: setup, start of consumption and shutdown of the client, under all interleavings of
  the connection callbacks, the background retry, calls of \<open>StartConsuming\<close> and \<open>Stop\<close>.  A step is one
  section under \<open>mu\<close> or one access to an atomic flag; \<open>setupMu\<close> admits one setup attempt at a time.  Creating streams and
  consumers, starting a consume context and the ready callback may succeed or fail at will.
\<close>

section \<open>State\<close>

datatype runner = ConnRunner | BgRunner

text \<open>Where a setup attempt stands: creating streams and consumers (and draining the cancel topic), storing them, deciding in
  \<open>finishSetup\<close>, in the ready callback, in its \<open>StartConsuming\<close>, checking its effect, or in \<open>beginConsuming\<close> itself.\<close>

datatype setup_stage = Creating | Storing | Finishing | InReady | ReadyBegin | ReadyCheck | SetupBegin

datatype caller = SetupCall | ReadyCall | StarterCall

datatype stop_stage = NotStopping | Flagged | Draining "nat list" | StopDone

record client =
  k_defer :: bool
  k_js :: bool
  k_mainCons :: bool
  k_cancelCons :: bool
  k_consumers :: "nat list"
  k_consuming :: bool
  k_stopped :: bool
  k_requested :: bool \<comment> \<open>\<open>consumeRequested\<close>\<close>
  k_setupDone :: bool
  k_retrying :: bool
  k_setup :: "(runner \<times> setup_stage) option" \<comment> \<open>who holds \<open>setupMu\<close>\<close>
  k_mu :: "(caller \<times> nat \<times> nat) option" \<comment> \<open>inside \<open>beginConsuming\<close> with two new consume contexts\<close>
  k_starters :: nat \<comment> \<open>calls of \<open>StartConsuming\<close> that have latched their request and not yet begun\<close>
  k_failed :: nat \<comment> \<open>calls of \<open>doSetup\<close> whose attempt has failed\<close>
  k_bg :: nat \<comment> \<open>background retry goroutines\<close>
  k_stop :: stop_stage
  k_live :: "nat set" \<comment> \<open>running consume contexts\<close>
  k_next :: nat
  k_drained :: bool \<comment> \<open>the ready callback has drained the topics\<close>
  k_external :: bool \<comment> \<open>\<open>StartConsuming\<close> was called from elsewhere\<close>
  k_startFailed :: bool \<comment> \<open>and could not start the consume contexts\<close>

definition NewClient :: "bool \<Rightarrow> client" where
  "NewClient defer =
     \<lparr>k_defer = defer, k_js = False, k_mainCons = False, k_cancelCons = False, k_consumers = [], k_consuming = False,
      k_stopped = False, k_requested = False, k_setupDone = False, k_retrying = False, k_setup = None, k_mu = None, k_starters = 0,
      k_failed = 0, k_bg = 0, k_stop = NotStopping, k_live = {}, k_next = 0, k_drained = False, k_external = False, k_startFailed = False\<rparr>"

section \<open>Setup attempts\<close>

definition attempt_succeeds :: "client \<Rightarrow> client" where
  "attempt_succeeds c = c\<lparr>k_setupDone := True, k_setup := None\<rparr>"

text \<open>After a failed attempt \<open>doSetup\<close> takes \<open>setupMu\<close> again to start the background retry; the background retry goes on.\<close>

definition attempt_fails :: "runner \<Rightarrow> client \<Rightarrow> client" where
  "attempt_fails r c = (let c = c\<lparr>k_setup := None\<rparr> in if r = BgRunner then c else c\<lparr>k_failed := k_failed c + 1\<rparr>)"

text \<open>What a caller of \<open>beginConsuming\<close> does with its result.\<close>

definition begin_returns :: "caller \<Rightarrow> bool \<Rightarrow> client \<Rightarrow> client" where
  "begin_returns who ok c =
     (case who of
        StarterCall \<Rightarrow> c\<lparr>k_starters := k_starters c - 1, k_startFailed := (k_startFailed c \<or> \<not> ok)\<rparr>
      | ReadyCall \<Rightarrow> c\<lparr>k_setup := map_option (\<lambda>(r, _). (r, ReadyCheck)) (k_setup c)\<rparr>
      | SetupCall \<Rightarrow>
          (case k_setup c of
             None \<Rightarrow> c
           | Some (r, _) \<Rightarrow> if ok then attempt_succeeds c else attempt_fails r c))"

definition may_begin :: "caller \<Rightarrow> client \<Rightarrow> bool" where
  "may_begin who c \<longleftrightarrow> k_mu c = None \<and>
     (case who of
        StarterCall \<Rightarrow> k_starters c > 0
      | ReadyCall \<Rightarrow> \<exists>r. k_setup c = Some (r, ReadyBegin)
      | SetupCall \<Rightarrow> \<exists>r. k_setup c = Some (r, SetupBegin))"

definition begin_idle :: "client \<Rightarrow> bool" where
  "begin_idle c \<longleftrightarrow> k_consuming c \<or> k_stopped c \<or> \<not> k_mainCons c \<or> \<not> k_cancelCons c"

text \<open>The sections of \<open>Stop\<close>, run once: raise the flag, take the consume contexts under \<open>mu\<close>, drain them and close the connection,
  which ends them even when the drain has timed out.\<close>

definition Stop_next :: "client \<Rightarrow> client" where
  "Stop_next c =
     (case k_stop c of
        NotStopping \<Rightarrow> c\<lparr>k_stopped := True, k_stop := Flagged\<rparr>
      | Flagged \<Rightarrow> c\<lparr>k_consumers := [], k_stop := Draining (k_consumers c)\<rparr>
      | Draining ids \<Rightarrow> c\<lparr>k_live := k_live c - set ids, k_stop := StopDone\<rparr>
      | StopDone \<Rightarrow> c)"

section \<open>Steps\<close>

inductive client_step :: "client \<Rightarrow> client \<Rightarrow> bool" where
  setup_attempt: "k_setup c = None \<Longrightarrow> \<not> k_setupDone c \<Longrightarrow> \<not> k_stopped c \<Longrightarrow> r = BgRunner \<longrightarrow> k_bg c > 0 \<Longrightarrow>
    client_step c (c\<lparr>k_setup := Some (r, Creating)\<rparr>)"
| setup_failed: "k_failed c > 0 \<Longrightarrow> k_setup c = None \<Longrightarrow>
    client_step c (c\<lparr>k_failed := k_failed c - 1, k_retrying := True, k_bg := (if k_retrying c then k_bg c else k_bg c + 1)\<rparr>)"
| bg_ends: "k_bg c > 0 \<Longrightarrow> k_setup c = None \<Longrightarrow> k_setupDone c \<or> k_stopped c \<Longrightarrow>
    client_step c (c\<lparr>k_bg := k_bg c - 1, k_retrying := False\<rparr>)"
| create_fails: "k_setup c = Some (r, Creating) \<Longrightarrow> client_step c (attempt_fails r c)"
| create_ok: "k_setup c = Some (r, Creating) \<Longrightarrow> k_mu c = None \<Longrightarrow>
    client_step c (c\<lparr>k_mainCons := True, k_setup := Some (r, Storing)\<rparr>)"
| setup_store: "k_setup c = Some (r, Storing) \<Longrightarrow> k_mu c = None \<Longrightarrow>
    client_step c (if k_stopped c then attempt_fails r c
                   else c\<lparr>k_js := True, k_mainCons := True, k_cancelCons := True, k_setup := Some (r, Finishing)\<rparr>)"
| setup_finish: "k_setup c = Some (r, Finishing) \<Longrightarrow>
    client_step c (c\<lparr>k_setup := Some (r, if k_defer c \<and> \<not> k_requested c then InReady else SetupBegin)\<rparr>)"
| ready_nil: "k_setup c = Some (r, InReady) \<Longrightarrow> client_step c (c\<lparr>k_setup := Some (r, ReadyCheck)\<rparr>)"
| ready_start: "k_setup c = Some (r, InReady) \<Longrightarrow>
    client_step c (c\<lparr>k_drained := True, k_requested := True, k_setup := Some (r, ReadyBegin)\<rparr>)"
| ready_check: "k_setup c = Some (r, ReadyCheck) \<Longrightarrow> k_mu c = None \<Longrightarrow>
    client_step c (if k_requested c \<and> \<not> k_consuming c then attempt_fails r c else attempt_succeeds c)"
| start_request: "client_step c (c\<lparr>k_requested := True, k_starters := k_starters c + 1, k_external := True\<rparr>)"
| begin_nothing: "may_begin who c \<Longrightarrow> begin_idle c \<Longrightarrow> client_step c (begin_returns who True c)"
| begin_error: "may_begin who c \<Longrightarrow> \<not> begin_idle c \<Longrightarrow> client_step c (begin_returns who False c)"
| begin_contexts: "may_begin who c \<Longrightarrow> \<not> begin_idle c \<Longrightarrow>
    client_step c (c\<lparr>k_mu := Some (who, k_next c, k_next c + 1), k_live := k_live c \<union> {k_next c, k_next c + 1}, k_next := k_next c + 2\<rparr>)"
| begin_finish: "k_mu c = Some (who, a, b) \<Longrightarrow>
    client_step c (begin_returns who True
      (if k_stopped c then c\<lparr>k_mu := None, k_live := k_live c - {a, b}\<rparr>
       else c\<lparr>k_mu := None, k_consumers := k_consumers c @ [a, b], k_consuming := True\<rparr>))"
| stop_flag: "k_stop c = NotStopping \<Longrightarrow> client_step c (Stop_next c)"
| stop_snapshot: "k_stop c = Flagged \<Longrightarrow> k_mu c = None \<Longrightarrow> client_step c (Stop_next c)"
| stop_drained: "k_stop c = Draining ids \<Longrightarrow> client_step c (Stop_next c)"

inductive client_reach :: "bool \<Rightarrow> client \<Rightarrow> bool" for deferConsume where
  init: "client_reach deferConsume (NewClient deferConsume)"
| step: "client_reach deferConsume c \<Longrightarrow> client_step c c' \<Longrightarrow> client_reach deferConsume c'"

section \<open>Invariant\<close>

definition stopping_ids :: "client \<Rightarrow> nat set" where
  "stopping_ids c = (case k_stop c of Draining ids \<Rightarrow> set ids | _ \<Rightarrow> {})"

definition mu_ids :: "client \<Rightarrow> nat set" where
  "mu_ids c = (case k_mu c of Some (_, a, b) \<Rightarrow> {a, b} | None \<Rightarrow> {})"

text \<open>The consume contexts: the registered ones, those about to be registered, those being drained.\<close>

definition contexts_ok :: "client \<Rightarrow> bool" where
  "contexts_ok c \<longleftrightarrow> k_live c = set (k_consumers c) \<union> mu_ids c \<union> stopping_ids c \<and>
     (\<not> k_consuming c \<longrightarrow> k_consumers c = [] \<and> stopping_ids c = {}) \<and> (k_mu c \<noteq> None \<longrightarrow> \<not> k_consuming c) \<and>
     length (k_consumers c) \<le> 2 \<and> card (stopping_ids c) \<le> 2 \<and>
     (k_stop c \<noteq> NotStopping \<longrightarrow> k_stopped c) \<and>
     (k_stop c \<noteq> NotStopping \<and> k_stop c \<noteq> Flagged \<longrightarrow> k_consumers c = [] \<and> k_mu c = None) \<and>
     (k_consuming c \<and> \<not> k_stopped c \<longrightarrow> length (k_consumers c) = 2)"

definition stage_ok :: "client \<Rightarrow> bool" where
  "stage_ok c \<longleftrightarrow>
     (\<forall>r st. k_setup c = Some (r, st) \<longrightarrow> \<not> k_setupDone c \<and> (r = BgRunner \<longrightarrow> k_bg c > 0) \<and>
        (st \<notin> {Creating, Storing} \<longrightarrow> k_mainCons c \<and> k_cancelCons c) \<and> (st \<in> {InReady, ReadyBegin, ReadyCheck} \<longrightarrow> k_defer c)) \<and>
     (k_setupDone c \<longrightarrow> k_mainCons c \<and> k_cancelCons c) \<and> k_bg c \<le> 1 \<and> (k_bg c = 1 \<longleftrightarrow> k_retrying c)"

definition holder_ok :: "client \<Rightarrow> bool" where
  "holder_ok c \<longleftrightarrow>
     (\<forall>w a b. k_mu c = Some (w, a, b) \<longrightarrow> (w = SetupCall \<longrightarrow> map_option snd (k_setup c) = Some SetupBegin) \<and>
        (w = ReadyCall \<longrightarrow> map_option snd (k_setup c) = Some ReadyBegin) \<and> (w = StarterCall \<longrightarrow> k_starters c > 0))"

definition progress_ok :: "client \<Rightarrow> bool" where
  "progress_ok c \<longleftrightarrow>
     (k_setupDone c \<and> (\<not> k_defer c \<or> k_requested c) \<longrightarrow> k_consuming c \<or> k_stopped c \<or> k_starters c > 0 \<or> k_startFailed c) \<and>
     (k_starters c > 0 \<longrightarrow> k_external c) \<and> (k_startFailed c \<longrightarrow> k_external c) \<and>
     (k_defer c \<and> \<not> k_external c \<and> (k_requested c \<or> k_consuming c \<or> k_mu c \<noteq> None) \<longrightarrow> k_drained c) \<and>
     (map_option snd (k_setup c) = Some SetupBegin \<longrightarrow> k_defer c \<longrightarrow> k_requested c) \<and>
     (map_option snd (k_setup c) = Some ReadyBegin \<longrightarrow> k_requested c)"

definition client_inv :: "client \<Rightarrow> bool" where
  "client_inv c \<longleftrightarrow> contexts_ok c \<and> stage_ok c \<and> holder_ok c \<and> progress_ok c"

lemma Stop_next_simps [simp]:
  "k_stop c = NotStopping \<Longrightarrow> Stop_next c = c\<lparr>k_stopped := True, k_stop := Flagged\<rparr>"
  "k_stop c = Flagged \<Longrightarrow> Stop_next c = c\<lparr>k_consumers := [], k_stop := Draining (k_consumers c)\<rparr>"
  "k_stop c = Draining ids \<Longrightarrow> Stop_next c = c\<lparr>k_live := k_live c - set ids, k_stop := StopDone\<rparr>"
  by (simp_all add: Stop_next_def)

lemma attempt_fields [simp]:
  "k_setup (attempt_succeeds c) = None" "k_setupDone (attempt_succeeds c)"
  "k_setup (attempt_fails r c) = None" "k_setupDone (attempt_fails r c) = k_setupDone c"
  by (simp_all add: attempt_succeeds_def attempt_fails_def Let_def)

lemma attempt_frame:
  assumes "c' = attempt_succeeds c \<or> c' = attempt_fails r c"
  shows "k_live c' = k_live c" "k_bg c' = k_bg c" "k_retrying c' = k_retrying c" "k_consumers c' = k_consumers c" "k_mu c' = k_mu c" "k_consuming c' = k_consuming c" "k_stop c' = k_stop c"
    "k_stopped c' = k_stopped c" "k_mainCons c' = k_mainCons c" "k_cancelCons c' = k_cancelCons c" "k_defer c' = k_defer c"
    "k_requested c' = k_requested c" "k_starters c' = k_starters c" "k_drained c' = k_drained c" "k_external c' = k_external c"
    "k_startFailed c' = k_startFailed c"
  using assms by (elim disjE; simp add: attempt_succeeds_def attempt_fails_def Let_def)+

lemmas attempt_frames [simp] = attempt_frame [OF disjI1 [OF refl]] attempt_frame [OF disjI2 [OF refl]]

lemma begin_returns_simps [simp]:
  "begin_returns StarterCall ok c = c\<lparr>k_starters := k_starters c - 1, k_startFailed := (k_startFailed c \<or> \<not> ok)\<rparr>"
  "k_setup c = Some (r, st) \<Longrightarrow> begin_returns ReadyCall ok c = c\<lparr>k_setup := Some (r, ReadyCheck)\<rparr>"
  "k_setup c = Some (r, st) \<Longrightarrow> begin_returns SetupCall ok c = (if ok then attempt_succeeds c else attempt_fails r c)"
  by (simp_all add: begin_returns_def)

lemma begin_frame [simp]:
  "k_live (begin_returns w ok c) = k_live c" "k_consumers (begin_returns w ok c) = k_consumers c" "k_mu (begin_returns w ok c) = k_mu c"
  "k_consuming (begin_returns w ok c) = k_consuming c" "k_stop (begin_returns w ok c) = k_stop c"
  "k_stopped (begin_returns w ok c) = k_stopped c"
  by (auto simp: begin_returns_def split: caller.splits option.splits)

lemma contexts_step:
  assumes "client_step c c'" "contexts_ok c"
  shows "contexts_ok c'"
  using assms
proof (induction rule: client_step.induct)
  case (begin_contexts who c)
  then show ?case by (auto simp: contexts_ok_def mu_ids_def stopping_ids_def begin_idle_def may_begin_def split: stop_stage.splits)
next
  case (begin_finish c who a b)
  then show ?case by (auto simp: contexts_ok_def mu_ids_def stopping_ids_def split: stop_stage.splits)
next
  case (stop_snapshot c)
  then show ?case using card_length [of "k_consumers c"] by (auto simp: contexts_ok_def mu_ids_def stopping_ids_def)
qed (auto simp: contexts_ok_def mu_ids_def stopping_ids_def split: stop_stage.splits)

lemma stage_attempt:
  assumes "stage_ok c" "k_setup c = Some (r, st)"
  shows "stage_ok (attempt_fails r c)" "st \<notin> {Creating, Storing} \<Longrightarrow> stage_ok (attempt_succeeds c)"
  using assms by (auto simp: stage_ok_def)

lemma may_begin_setup:
  "may_begin SetupCall c \<Longrightarrow> \<exists>r. k_setup c = Some (r, SetupBegin)" "may_begin ReadyCall c \<Longrightarrow> \<exists>r. k_setup c = Some (r, ReadyBegin)"
  by (simp_all add: may_begin_def)

lemma stage_begin:
  assumes "stage_ok c" "w = SetupCall \<longrightarrow> map_option snd (k_setup c) = Some SetupBegin"
    "w = ReadyCall \<longrightarrow> map_option snd (k_setup c) = Some ReadyBegin"
  shows "stage_ok (begin_returns w ok c)"
proof (cases w)
  case SetupCall
  then obtain r where "k_setup c = Some (r, SetupBegin)" using assms(2) by auto
  then show ?thesis using SetupCall stage_attempt [OF assms(1)] by simp
next
  case ReadyCall
  then obtain r where "k_setup c = Some (r, ReadyBegin)" using assms(3) by auto
  then show ?thesis using ReadyCall assms(1) by (simp add: stage_ok_def)
next
  case StarterCall
  then show ?thesis using assms(1) by (simp add: stage_ok_def)
qed

lemma stage_step:
  assumes "client_step c c'" "stage_ok c" "holder_ok c"
  shows "stage_ok c'"
  using assms
proof (induction rule: client_step.induct)
  case (begin_nothing who c)
  then show ?case by (intro stage_begin) (auto simp: may_begin_def)
next
  case (begin_error who c)
  then show ?case by (intro stage_begin) (auto simp: may_begin_def)
next
  case (begin_finish c who a b)
  then show ?case by (intro stage_begin) (auto simp: stage_ok_def holder_ok_def)
qed (auto simp: stage_attempt simp: stage_ok_def)

lemma holder_step:
  assumes "client_step c c'" "holder_ok c"
  shows "holder_ok c'"
  using assms
proof (induction rule: client_step.induct)
  case (begin_contexts who c)
  then show ?case by (cases who) (auto simp: holder_ok_def may_begin_def)
qed (auto simp: holder_ok_def may_begin_def)

lemma progress_begin:
  assumes "progress_ok c" "stage_ok c" "w = SetupCall \<longrightarrow> map_option snd (k_setup c) = Some SetupBegin"
    "w = ReadyCall \<longrightarrow> map_option snd (k_setup c) = Some ReadyBegin" "w = StarterCall \<longrightarrow> k_starters c > 0"
    and finished: "ok \<and> (k_mainCons c \<and> k_cancelCons c \<longrightarrow> k_consuming c \<or> k_stopped c) \<or> \<not> ok"
  shows "progress_ok (begin_returns w ok c)"
proof (cases w)
  case SetupCall
  then obtain r where r: "k_setup c = Some (r, SetupBegin)" using assms(3) by auto
  then show ?thesis using SetupCall assms(1,2) finished by (auto simp: progress_ok_def stage_ok_def)
next
  case ReadyCall
  then obtain r where "k_setup c = Some (r, ReadyBegin)" using assms(4) by auto
  then show ?thesis using ReadyCall assms(1) by (simp add: progress_ok_def)
next
  case StarterCall
  then show ?thesis using assms(1,2,5) finished by (auto simp: progress_ok_def stage_ok_def)
qed

lemma progress_step:
  assumes "client_step c c'" "progress_ok c" "stage_ok c" "holder_ok c"
  shows "progress_ok c'"
  using assms
proof (induction rule: client_step.induct)
  case (begin_nothing who c)
  then show ?case by (intro progress_begin) (auto simp: may_begin_def begin_idle_def)
next
  case (begin_error who c)
  then show ?case by (intro progress_begin) (auto simp: may_begin_def)
next
  case (begin_contexts who c)
  then show ?case by (cases who) (auto simp: progress_ok_def may_begin_def begin_idle_def stage_ok_def)
next
  case (begin_finish c who a b)
  then show ?case by (intro progress_begin) (auto simp: progress_ok_def stage_ok_def holder_ok_def)
next
  case (ready_check c r)
  then show ?case by (auto simp: progress_ok_def stage_ok_def)
next
  case (setup_store c r)
  then show ?case by (auto simp: progress_ok_def stage_ok_def)
qed (auto simp: progress_ok_def stage_ok_def)

lemma client_reach_inv: "client_reach dc c \<Longrightarrow> client_inv c"
proof (induction rule: client_reach.induct)
  case init
  then show ?case
    by (simp add: client_inv_def NewClient_def contexts_ok_def mu_ids_def stopping_ids_def stage_ok_def holder_ok_def progress_ok_def)
next
  case (step c c')
  then show ?case using contexts_step stage_step holder_step progress_step unfolding client_inv_def by blast
qed

section \<open>A run of a deferred client\<close>

text \<open>Setup succeeds on the first attempt; the ready callback drains the topics and starts the consumption.\<close>

definition sample_client :: client where
  "sample_client = (NewClient True)
     \<lparr>k_js := True, k_mainCons := True, k_cancelCons := True, k_consumers := [0, 1], k_consuming := True, k_requested := True,
      k_setupDone := True, k_live := {0, 1}, k_next := 2, k_drained := True\<rparr>"

lemma reach_then: "client_reach dc c \<Longrightarrow> client_step c c' \<Longrightarrow> c' = c'' \<Longrightarrow> client_reach dc c''"
  by (blast intro: client_reach.step)

lemma sample_client_reach: "client_reach True sample_client"
proof -
  let ?c = "NewClient True"
  let ?stored = "?c\<lparr>k_js := True, k_mainCons := True, k_cancelCons := True\<rparr>"
  let ?ready = "?stored\<lparr>k_drained := True, k_requested := True\<rparr>"
  let ?begun = "?ready\<lparr>k_live := {0, 1}, k_next := 2\<rparr>"
  let ?S = "\<lambda>c st. c\<lparr>k_setup := Some (ConnRunner, st)\<rparr>"
  have "client_reach True (?S ?c Creating)"
    by (rule reach_then [OF client_reach.init client_step.setup_attempt]) (simp_all add: NewClient_def)
  then have "client_reach True (?S (?c\<lparr>k_mainCons := True\<rparr>) Storing)"
    by (rule reach_then [OF _ client_step.create_ok]) (simp_all add: NewClient_def)
  then have "client_reach True (?S ?stored Finishing)"
    by (rule reach_then [OF _ client_step.setup_store]) (simp_all add: NewClient_def)
  then have "client_reach True (?S ?stored InReady)"
    by (rule reach_then [OF _ client_step.setup_finish]) (simp_all add: NewClient_def)
  then have "client_reach True (?S ?ready ReadyBegin)"
    by (rule reach_then [OF _ client_step.ready_start]) (simp_all add: NewClient_def)
  then have "client_reach True ((?S ?begun ReadyBegin)\<lparr>k_mu := Some (ReadyCall, 0, 1)\<rparr>)"
    by (rule reach_then [OF _ client_step.begin_contexts [where who = ReadyCall]])
      (simp_all add: NewClient_def may_begin_def begin_idle_def insert_commute)
  then have "client_reach True (?S (?begun\<lparr>k_consumers := [0, 1], k_consuming := True\<rparr>) ReadyCheck)"
    by (rule reach_then [OF _ client_step.begin_finish [where who = ReadyCall and a = 0 and b = 1]])
      (simp_all add: NewClient_def begin_returns_def)
  then show ?thesis
    by (rule reach_then [OF _ client_step.ready_check [where r = ConnRunner]])
      (simp_all add: sample_client_def NewClient_def attempt_succeeds_def)
qed

section \<open>Properties\<close>

text \<open>C18: under every interleaving of connects, reconnects, background retries, \<open>StartConsuming\<close> and \<open>Stop\<close>, at most two consume
  contexts ever run (one on the main and one on the cancel consumer, so no durable consumer is consumed
  twice), at most one background retry runs, and once \<open>Stop\<close> has finished none runs any more, also when \<open>Stop\<close> overlaps
  the start of consumption.\<close>

theorem client_contexts_safe:
  assumes "client_reach deferConsume c"
  shows "card (k_live c) \<le> 2 \<and> k_bg c \<le> 1 \<and> (k_stop c = StopDone \<longrightarrow> k_live c = {})"
proof -
  have inv: "contexts_ok c" "stage_ok c" using client_reach_inv [OF assms] by (simp_all add: client_inv_def)
  have "card (k_live c) \<le> 2"
  proof (cases "k_mu c")
    case None
    then have "k_live c = set (k_consumers c) \<or> k_live c = stopping_ids c"
      using inv(1) by (cases "k_stop c") (auto simp: contexts_ok_def mu_ids_def stopping_ids_def)
    then show ?thesis using inv(1) card_length [of "k_consumers c"] by (auto simp: contexts_ok_def)
  next
    case (Some x)
    then obtain w a b where "k_mu c = Some (w, a, b)" by (cases x) auto
    then have "k_live c = {a, b}" using inv(1) by (auto simp: contexts_ok_def mu_ids_def)
    then show ?thesis by (simp add: card_insert_if)
  qed
  moreover have "k_stop c = StopDone \<longrightarrow> k_live c = {}"
    using inv(1) by (auto simp: contexts_ok_def mu_ids_def stopping_ids_def)
  ultimately show ?thesis using inv(2) by (simp add: stage_ok_def)
qed

theorem client_contexts_safe_witness:
  "client_reach True sample_client \<and> k_live sample_client = {0, 1} \<and> card (k_live sample_client) \<le> 2 \<and> k_bg sample_client \<le> 1"
  using client_contexts_safe [OF sample_client_reach] sample_client_reach by (simp add: sample_client_def)

text \<open>Setup is not latched too early.  When the setup of a running client is done, it consumes both topics, except for
  a deferred client on which \<open>StartConsuming\<close> has not been called; and when \<open>StartConsuming\<close> is only called from the
  ready callback, a deferred client never consumes before that callback has drained the topics.\<close>

theorem client_setup_consumes:
  assumes "client_reach deferConsume c" and "\<not> k_external c"
  shows "(k_setupDone c \<and> \<not> k_stopped c \<and> (\<not> k_defer c \<or> k_requested c) \<longrightarrow> k_consuming c \<and> length (k_consumers c) = 2) \<and>
    (k_defer c \<and> k_live c \<noteq> {} \<longrightarrow> k_drained c)"
proof -
  have inv: "contexts_ok c" "progress_ok c" using client_reach_inv [OF assms(1)] by (simp_all add: client_inv_def)
  have live: "k_live c = {} \<or> k_consuming c \<or> k_mu c \<noteq> None"
    using inv(1) by (cases "k_mu c") (auto simp: contexts_ok_def mu_ids_def)
  have "k_consuming c" if "k_setupDone c \<and> \<not> k_stopped c \<and> (\<not> k_defer c \<or> k_requested c)"
    using that inv(2) assms(2) unfolding progress_ok_def by (metis not_gr_zero)
  moreover have "length (k_consumers c) = 2" if "k_consuming c" "\<not> k_stopped c"
    using that inv(1) by (simp add: contexts_ok_def)
  moreover have "k_drained c" if "k_defer c" "k_live c \<noteq> {}"
    using that live inv(2) assms(2) by (simp add: progress_ok_def)
  ultimately show ?thesis by blast
qed

theorem client_setup_consumes_witness:
  "client_reach True sample_client \<and> \<not> k_external sample_client \<and> k_setupDone sample_client \<and> k_consuming sample_client \<and> k_drained sample_client"
  using client_setup_consumes [OF sample_client_reach] sample_client_reach by (simp add: sample_client_def NewClient_def)

section \<open>Progress\<close>

abbreviation "client_steps \<equiv> client_step\<^sup>*\<^sup>*"












end
