(* ===== verification/Router_Interleaving.thy ===== *)
theory Router_Interleaving
  imports Retry_Processor
begin

text \<open>
  How the goroutines of \<open>internal/routing/router.go\<close> and \<open>internal/routing/retry/processor.go\<close> interleave.  The main-topic consumer,
  the cancel-topic consumer and the transitions of the retry processor share the deny list, the claimed-resources set and the in-flight
  lock; each call on one of these is atomic (they lock internally), and nothing else is.  A goroutine is its program point between two
  such calls, and a step is one call of one goroutine.
\<close>

section \<open>Goroutines\<close>

datatype origin = MainTopic | RetryTopic

text \<open>The program points of \<open>forwardWithRetry\<close> and \<open>forwardRequest\<close>, from the first look at the deny list to the release of the lock.
  The flag is \<open>newlyAdded\<close>.\<close>

datatype fwd_pc = Arrived | Resolving | Locked | Claimed bool | Calling bool | Unclaiming bool | Releasing

datatype cancel_pc = CancelArrived | CancelUnclaimed | CancelDenied

datatype goroutine = Forwarding origin string bool fwd_pc | Cancelling string cancel_pc

datatype route_event =
    Dropped nat string origin \<comment> \<open>a create found in the deny list\<close>
  | Dispatched nat string bool \<comment> \<open>the provider is called, for a create or a delete\<close>
  | Completed nat string bool \<comment> \<open>the call ended, with success or not\<close>
  | Denied nat string
  | CancelAcked nat string
  | CancelRejected nat string

record shared =
  sh_deny :: lru
  sh_claimed :: lru
  sh_inFlight :: key_lock
  sh_log :: "route_event list"

definition emit :: "route_event \<Rightarrow> shared \<Rightarrow> shared" where
  "emit x s = s\<lparr>sh_log := sh_log s @ [x]\<rparr>"

text \<open>The router consumes a deny-list entry, the retry processor only looks.\<close>

definition deny_list_check :: "origin \<Rightarrow> string \<Rightarrow> bool \<Rightarrow> shared \<Rightarrow> shared \<times> bool" where
  "deny_list_check src r isCreate s =
     (if \<not> isCreate then (s, False)
      else case (case src of MainTopic \<Rightarrow> lru_consume (sh_deny s) r | RetryTopic \<Rightarrow> lru_contains (sh_deny s) r) of
             (deny, denied) \<Rightarrow> (s\<lparr>sh_deny := deny\<rparr>, denied))"

text \<open>One step of a forward.  The flag \<open>ok\<close> is the answer of the environment: at \<open>Resolving\<close> that the request is to be forwarded, at
  \<open>Calling\<close> that the provider call succeeded.\<close>

fun fwd_advance :: "nat \<Rightarrow> origin \<Rightarrow> string \<Rightarrow> bool \<Rightarrow> bool \<Rightarrow> fwd_pc \<Rightarrow> shared \<Rightarrow> shared \<times> fwd_pc option" where
  "fwd_advance t src r isCreate ok Arrived s =
     (case deny_list_check src r isCreate s of (s, denied) \<Rightarrow> if denied then (emit (Dropped t r src) s, None) else (s, Some Resolving))"
| "fwd_advance t src r isCreate ok Resolving s =
     (if \<not> ok then (s, None)
      else case kl_AddIfAbsent (sh_inFlight s) r of
             (lock, acquired) \<Rightarrow> (s\<lparr>sh_inFlight := lock\<rparr>, if acquired then Some Locked else None))"
| "fwd_advance t src r isCreate ok Locked s =
     (case lru_insert (sh_claimed s) r of (claimed, newlyAdded) \<Rightarrow> (s\<lparr>sh_claimed := claimed\<rparr>, Some (Claimed newlyAdded)))"
| "fwd_advance t src r isCreate ok (Claimed newlyAdded) s =
     (case deny_list_check src r isCreate s of
        (s, denied) \<Rightarrow>
          if denied then (emit (Dropped t r src) s, Some (Unclaiming newlyAdded))
          else (emit (Dispatched t r isCreate) s, Some (Calling newlyAdded)))"
| "fwd_advance t src r isCreate ok (Calling newlyAdded) s =
     (emit (Completed t r ok) s, Some (if ok then Releasing else Unclaiming newlyAdded))"
| "fwd_advance t src r isCreate ok (Unclaiming newlyAdded) s =
     (if newlyAdded then s\<lparr>sh_claimed := lru_remove (sh_claimed s) r\<rparr> else s, Some Releasing)"
| "fwd_advance t src r isCreate ok Releasing s = (s\<lparr>sh_inFlight := kl_Remove (sh_inFlight s) r\<rparr>, None)"

text \<open>One step of \<open>HandleCancel\<close>; at \<open>CancelDenied\<close> the flag says that the retry topic could be purged.\<close>

fun cancel_advance :: "nat \<Rightarrow> string \<Rightarrow> bool \<Rightarrow> cancel_pc \<Rightarrow> shared \<Rightarrow> shared \<times> cancel_pc option" where
  "cancel_advance t r ok CancelArrived s =
     (case lru_contains (sh_claimed s) r of
        (claimed, found) \<Rightarrow>
          let s = s\<lparr>sh_claimed := claimed\<rparr>
          in if found then (emit (CancelRejected t r) s, None) else (s, Some CancelUnclaimed))"
| "cancel_advance t r ok CancelUnclaimed s = (emit (Denied t r) (s\<lparr>sh_deny := fst (lru_insert (sh_deny s) r)\<rparr>), Some CancelDenied)"
| "cancel_advance t r ok CancelDenied s = (if ok then emit (CancelAcked t r) s else s, None)"

section \<open>Interleavings\<close>

record routing_sys =
  y_shared :: shared
  y_run :: "nat \<Rightarrow> goroutine option"

definition NewRouting :: "int \<Rightarrow> routing_sys" where
  "NewRouting denyListMaxSize =
     \<lparr>y_shared = \<lparr>sh_deny = lru_new denyListMaxSize, sh_claimed = lru_new claimedResourcesSetMaxSize, sh_inFlight = NewKeyLock, sh_log = []\<rparr>,
      y_run = Map.empty\<rparr>"

inductive route_step :: "string set \<Rightarrow> routing_sys \<Rightarrow> routing_sys \<Rightarrow> bool" for R where
  request: "y_run y t = None \<Longrightarrow> r \<in> R \<Longrightarrow> route_step R y (y\<lparr>y_run := (y_run y)(t \<mapsto> Forwarding src r isCreate Arrived)\<rparr>)"
| cancel: "y_run y t = None \<Longrightarrow> r \<in> R \<Longrightarrow> route_step R y (y\<lparr>y_run := (y_run y)(t \<mapsto> Cancelling r CancelArrived)\<rparr>)"
| forward: "y_run y t = Some (Forwarding src r isCreate pc) \<Longrightarrow> fwd_advance t src r isCreate ok pc (y_shared y) = (s, pc') \<Longrightarrow>
    route_step R y (y\<lparr>y_shared := s, y_run := (y_run y)(t := map_option (Forwarding src r isCreate) pc')\<rparr>)"
| cancelling: "y_run y t = Some (Cancelling r pc) \<Longrightarrow> cancel_advance t r ok pc (y_shared y) = (s, pc') \<Longrightarrow>
    route_step R y (y\<lparr>y_shared := s, y_run := (y_run y)(t := map_option (Cancelling r) pc')\<rparr>)"

text \<open>The states that requests and cancels for the resources \<open>R\<close> can reach.\<close>

inductive routing_reach :: "int \<Rightarrow> string set \<Rightarrow> routing_sys \<Rightarrow> bool" for n R where
  init: "routing_reach n R (NewRouting n)"
| step: "routing_reach n R y \<Longrightarrow> route_step R y y' \<Longrightarrow> routing_reach n R y'"

section \<open>The handlers are runs of the steps\<close>

text \<open>A goroutine that is not interrupted, with the answers of the environment.\<close>

fun alone :: "nat \<Rightarrow> origin \<Rightarrow> string \<Rightarrow> bool \<Rightarrow> bool list \<Rightarrow> fwd_pc \<Rightarrow> shared \<Rightarrow> shared \<times> fwd_pc option" where
  "alone t src r isCreate [] pc s = (s, Some pc)"
| "alone t src r isCreate (ok # oks) pc s =
     (case fwd_advance t src r isCreate ok pc s of (s, None) \<Rightarrow> (s, None) | (s, Some pc) \<Rightarrow> alone t src r isCreate oks pc s)"

definition same_sets :: "router_state \<Rightarrow> shared \<Rightarrow> bool" where
  "same_sets s x \<longleftrightarrow> r_deny s = sh_deny x \<and> r_claimed s = sh_claimed x \<and> r_inFlight s = sh_inFlight x"

lemma same_sets_trace [simp]: "same_sets (s\<lparr>r_trace := tr\<rparr>) x \<longleftrightarrow> same_sets s x"
  by (simp add: same_sets_def)

lemma same_sets_publishCE [simp]: "same_sets (publishCE env cfg s ceType data) x \<longleftrightarrow> same_sets s x"
  by (simp add: publishCE_def)

lemmas alone_defs = forwardWithRetry_def forward_claimed_def forwardRequest_def forward_locked_def deny_list_check_def emit_def Let_def
  unclaim_def release_inFlight_def

lemma forwardWithRetry_alone:
  assumes "same_sets s x" "forwardWithRetry env cfg s sp isCreate p eventID = (s', e)"
  shows "\<exists>ok x'. alone t MainTopic (p_ResourceID p) isCreate [True, True, True, ok, True, True] Resolving x = (x', None) \<and> same_sets s' x'"
proof -
  obtain lock acquired where l: "kl_AddIfAbsent (sh_inFlight x) (p_ResourceID p) = (lock, acquired)" by (metis surj_pair)
  obtain claimed newly where c: "lru_insert (sh_claimed x) (p_ResourceID p) = (claimed, newly)" by (metis surj_pair)
  obtain deny denied where d: "lru_consume (sh_deny x) (p_ResourceID p) = (deny, denied)" by (metis surj_pair)
  have "acquired \<or> lock = sh_inFlight x" using l by (auto simp: kl_AddIfAbsent_def split: if_splits)
  then show ?thesis using assms l c d
    by (auto simp: same_sets_def alone_defs publishCE_def ex_bool_eq split: prod.splits option.splits if_splits)
qed

lemma forwardRequest_alone:
  assumes "same_sets s x" "forwardRequest env cfg s sp res = (s', b)"
  shows "\<exists>go ok x'. alone t RetryTopic (ce_resourceID res) (ce_ceType res = TypeRequestCreate) [go, True, True, ok, True, True] Resolving x = (x', None)
    \<and> same_sets s' x'"
proof -
  obtain lock acquired where l: "kl_AddIfAbsent (sh_inFlight x) (ce_resourceID res) = (lock, acquired)" by (metis surj_pair)
  obtain claimed newly where c: "lru_insert (sh_claimed x) (ce_resourceID res) = (claimed, newly)" by (metis surj_pair)
  obtain deny denied where d: "lru_contains (sh_deny x) (ce_resourceID res) = (deny, denied)" by (metis surj_pair)
  define s1 where "s1 = s\<lparr>r_inFlight := lock, r_claimed := claimed, r_deny := (if ce_ceType res = TypeRequestCreate then deny else r_deny s)\<rparr>"
  obtain tr err where f: "ForwardWithRetry env (r_trace s1) sp (retry_params res) (cfg_policy cfg) = (tr, err)" by (metis surj_pair)
  have x: "sh_inFlight x = r_inFlight s" "sh_claimed x = r_claimed s" "sh_deny x = r_deny s" using assms(1) by (simp_all add: same_sets_def)
  have idle: "\<not> acquired \<Longrightarrow> lock = r_inFlight s" using l x by (auto simp: kl_AddIfAbsent_def split: if_splits)
  note run = l [unfolded x] c [unfolded x] d [unfolded x] f [unfolded s1_def] assms(2)
  consider "\<not> cfg_forwarder cfg" | "cfg_forwarder cfg" "\<not> acquired" | "cfg_forwarder cfg" acquired "ce_ceType res = TypeRequestCreate" denied
    | "cfg_forwarder cfg" acquired "ce_ceType res = TypeRequestCreate" "\<not> denied" | "cfg_forwarder cfg" acquired "ce_ceType res \<noteq> TypeRequestCreate"
    by blast
  then show ?thesis
  proof cases
    case 1
    then show ?thesis using run assms(1) by (intro exI [where x = False]) (auto simp: alone_defs)
  next
    case 2
    then show ?thesis using run idle x by (intro exI [where x = True]) (auto simp: alone_defs same_sets_def x)
  next
    case 3
    then show ?thesis using run x by (intro exI [where x = True]) (auto simp: alone_defs same_sets_def x)
  next
    case 4
    then show ?thesis using run x
      by (intro exI [where x = True] exI [where x = "err = None"])
        (auto simp: alone_defs same_sets_def publishCE_def publishAckCE_def split: option.splits if_splits)
  next
    case 5
    then show ?thesis using run x
      by (intro exI [where x = True] exI [where x = "err = None"])
        (auto simp: alone_defs same_sets_def publishCE_def publishAckCE_def split: option.splits if_splits)
  qed
qed

section \<open>One forward per resource\<close>






lemma emit_frame [simp]:
  "sh_inFlight (emit x s) = sh_inFlight s" "sh_claimed (emit x s) = sh_claimed s" "sh_deny (emit x s) = sh_deny s"
  "sh_log (emit x s) = sh_log s @ [x]"
  by (simp_all add: emit_def)







section \<open>Claims\<close>



text \<open>A set that only ever holds members of \<open>R\<close> and has room for all of them evicts nothing.\<close>

definition roomy :: "string set \<Rightarrow> lru \<Rightarrow> bool" where
  "roomy R l \<longleftrightarrow> lru_inv l \<and> finite R \<and> card R \<le> lru_max l \<and> set (lru_ids l) \<subseteq> R"

lemma roomy_insert:
  assumes "roomy R l" "r \<in> R"
  shows "lru_mem (fst (lru_insert l r)) q \<longleftrightarrow> q = r \<or> lru_mem l q" "roomy R (fst (lru_insert l r))"
proof -
  have *: "length (lru_ids l) < lru_max l" if "\<not> lru_mem l r"
  proof -
    have "set (lru_ids l) \<subset> R" using assms that by (auto simp: roomy_def lru_mem_def)
    then have "card (set (lru_ids l)) < card R" using assms(1) by (auto simp: roomy_def intro: psubset_card_mono)
    then show ?thesis using assms(1) by (auto simp: roomy_def lru_inv_def distinct_card)
  qed
  show "lru_mem (fst (lru_insert l r)) q \<longleftrightarrow> q = r \<or> lru_mem l q"
    using lru_insert_room [of l r q] * by (cases "lru_mem l r") (auto simp: lru_insert_def lru_touch_def lru_mem_def)
  have "lru_inv (fst (lru_insert l r))" using lru_step_inv [of l "OpAddIfAbsent r"] assms(1) by (simp add: roomy_def)
  then show "roomy R (fst (lru_insert l r))"
    using assms by (auto simp: roomy_def lru_insert_def lru_touch_def dest: in_set_butlastD)
qed

lemma roomy_others:
  assumes "roomy R l"
  shows "roomy R (lru_remove l r)" "roomy R (fst (lru_contains l r))" "roomy R (fst (lru_consume l r))"
proof -
  have i: "lru_inv l" using assms by (simp add: roomy_def)
  have "lru_inv (lru_remove l r)" "lru_inv (fst (lru_contains l r))" "lru_inv (fst (lru_consume l r))"
    using lru_step_inv [OF i, of "OpRemove r"] lru_step_inv [OF i, of "OpContains r"] lru_step_inv [OF i, of "OpConsume r"] by simp_all
  then show "roomy R (lru_remove l r)" "roomy R (fst (lru_contains l r))" "roomy R (fst (lru_consume l r))"
    using assms by (auto simp: roomy_def lru_remove_def lru_contains_def lru_consume_def lru_touch_def lru_mem_def)
qed


fun resource :: "goroutine \<Rightarrow> string" where
  "resource (Forwarding _ r _ _) = r"
| "resource (Cancelling r _) = r"

definition traffic :: "string set \<Rightarrow> routing_sys \<Rightarrow> bool" where
  "traffic R y \<longleftrightarrow> (\<forall>t g. y_run y t = Some g \<longrightarrow> resource g \<in> R)"

lemma traffic_upd: "traffic R y \<Longrightarrow> (\<And>g. x = Some g \<Longrightarrow> resource g \<in> R) \<Longrightarrow> traffic R (y\<lparr>y_shared := s, y_run := (y_run y)(t := x)\<rparr>)"
  by (simp add: traffic_def)

lemma traffic_get: "traffic R y \<Longrightarrow> y_run y t = Some g \<Longrightarrow> resource g \<in> R"
  by (simp add: traffic_def)

lemma traffic_step: "route_step R y y' \<Longrightarrow> traffic R y \<Longrightarrow> traffic R y'"
proof (induction rule: route_step.induct)
  case (forward y t src r c pc ok s pc')
  show ?case using traffic_get [OF forward(3,1)] by (intro traffic_upd forward(3)) auto
next
  case (cancelling y t r pc ok s pc')
  show ?case using traffic_get [OF cancelling(3,1)] by (intro traffic_upd cancelling(3)) auto
qed (simp_all add: traffic_def)

lemma reach_traffic: "routing_reach n R y \<Longrightarrow> traffic R y"
  by (induction rule: routing_reach.induct) (auto simp: traffic_step, simp add: traffic_def NewRouting_def)






lemma lru_new_roomy: "finite R \<Longrightarrow> card R \<le> nat n \<Longrightarrow> 0 < n \<Longrightarrow> roomy R (lru_new n)"
  by (simp add: roomy_def lru_new_def lru_inv_def)


section \<open>Denials\<close>

text \<open>The cancel of \<open>r\<close> was recorded and no create of \<open>r\<close> from the main topic has been dropped since.\<close>

definition cancel_pending :: "route_event list \<Rightarrow> string \<Rightarrow> bool" where
  "cancel_pending l r \<longleftrightarrow> (\<exists>l1 k l2. l = l1 @ Denied k r # l2 \<and> (\<forall>t. Dropped t r MainTopic \<notin> set l2))"

lemma cancel_pending_snoc:
  "cancel_pending (l @ [x]) r \<longleftrightarrow> (\<exists>k. x = Denied k r) \<or> cancel_pending l r \<and> (\<forall>t. x \<noteq> Dropped t r MainTopic)"
proof
  assume "cancel_pending (l @ [x]) r"
  then obtain l1 k l2 where l: "l @ [x] = l1 @ Denied k r # l2" "\<And>t. Dropped t r MainTopic \<notin> set l2" by (auto simp: cancel_pending_def)
  show "(\<exists>k. x = Denied k r) \<or> cancel_pending l r \<and> (\<forall>t. x \<noteq> Dropped t r MainTopic)"
    using l by (cases l2 rule: rev_cases) (auto simp: cancel_pending_def)
next
  assume "(\<exists>k. x = Denied k r) \<or> cancel_pending l r \<and> (\<forall>t. x \<noteq> Dropped t r MainTopic)"
  then show "cancel_pending (l @ [x]) r"
  proof (elim disjE conjE exE)
    fix k assume "x = Denied k r"
    then show ?thesis unfolding cancel_pending_def by (intro exI [where x = l] exI [where x = k] exI [where x = "[]"]) simp
  next
    assume "cancel_pending l r" and x: "\<forall>t. x \<noteq> Dropped t r MainTopic"
    then obtain l1 k l2 where "l = l1 @ Denied k r # l2" "\<And>t. Dropped t r MainTopic \<notin> set l2" by (auto simp: cancel_pending_def)
    then show ?thesis using x unfolding cancel_pending_def
      by (intro exI [where x = l1] exI [where x = k] exI [where x = "l2 @ [x]"]) auto
  qed
qed

text \<open>No create is dispatched while a cancel of its resource is pending, and a cancel is acknowledged only once it is recorded.\<close>

fun honoured :: "route_event list \<Rightarrow> route_event \<Rightarrow> bool" where
  "honoured l (Dispatched t r isCreate) = (isCreate \<longrightarrow> \<not> cancel_pending l r)"
| "honoured l (CancelAcked k r) = (Denied k r \<in> set l)"
| "honoured l _ = True"

definition honours :: "route_event list \<Rightarrow> bool" where
  "honours l \<longleftrightarrow> (\<forall>l1 e l2. l = l1 @ e # l2 \<longrightarrow> honoured l1 e)"

lemma honours_snoc: "honours (l @ [x]) \<longleftrightarrow> honours l \<and> honoured l x"
proof -
  have split: "l @ [x] = l1 @ e # l2 \<longleftrightarrow> (l2 = [] \<and> l1 = l \<and> e = x) \<or> (\<exists>l3. l2 = l3 @ [x] \<and> l = l1 @ e # l3)" for e l1 l2
    by (cases l2 rule: rev_cases) auto
  show ?thesis unfolding honours_def split by blast
qed

definition denials_kept :: "string set \<Rightarrow> routing_sys \<Rightarrow> bool" where
  "denials_kept R y \<longleftrightarrow> roomy R (sh_deny (y_shared y)) \<and> honours (sh_log (y_shared y)) \<and>
     (\<forall>r. cancel_pending (sh_log (y_shared y)) r \<longrightarrow> lru_mem (sh_deny (y_shared y)) r) \<and>
     (\<forall>t r. y_run y t = Some (Cancelling r CancelDenied) \<longrightarrow> Denied t r \<in> set (sh_log (y_shared y)))"

lemma deny_list_check_deny:
  assumes "deny_list_check src r c s = (s', denied)" "roomy R (sh_deny s)"
  shows "roomy R (sh_deny s')" "sh_log s' = sh_log s" "denied \<longleftrightarrow> c \<and> lru_mem (sh_deny s) r"
    "lru_mem (sh_deny s') q \<longleftrightarrow> lru_mem (sh_deny s) q \<and> \<not> (denied \<and> src = MainTopic \<and> q = r)"
proof -
  obtain d1 b1 where 1: "lru_consume (sh_deny s) r = (d1, b1)" by (metis surj_pair)
  obtain d2 b2 where 2: "lru_contains (sh_deny s) r = (d2, b2)" by (metis surj_pair)
  note res = lru_consume_res [of "sh_deny s" r] lru_contains_res [of "sh_deny s" r] lru_mem_consume [of "sh_deny s" r q] lru_mem_contains [of "sh_deny s" r q]
    roomy_others [OF assms(2), of r]
  show "roomy R (sh_deny s')" "sh_log s' = sh_log s" "denied \<longleftrightarrow> c \<and> lru_mem (sh_deny s) r"
    "lru_mem (sh_deny s') q \<longleftrightarrow> lru_mem (sh_deny s) q \<and> \<not> (denied \<and> src = MainTopic \<and> q = r)"
    using assms res 1 2 by (cases src; auto simp: deny_list_check_def split: if_splits; fail)+
qed

lemma fwd_advance_denials:
  assumes "fwd_advance t src r c ok pc s = (s', pc')" "roomy R (sh_deny s)" "honours (sh_log s)"
    and pending: "\<And>q. cancel_pending (sh_log s) q \<Longrightarrow> lru_mem (sh_deny s) q"
  shows "roomy R (sh_deny s') \<and> honours (sh_log s') \<and> (cancel_pending (sh_log s') q \<longrightarrow> lru_mem (sh_deny s') q) \<and> set (sh_log s) \<subseteq> set (sh_log s')"
proof -
  obtain s1 d where d: "deny_list_check src r c s = (s1, d)" by (metis surj_pair)
  note check = deny_list_check_deny [OF d assms(2)]
  obtain lock acq where l: "kl_AddIfAbsent (sh_inFlight s) r = (lock, acq)" by (metis surj_pair)
  obtain cl nw where c: "lru_insert (sh_claimed s) r = (cl, nw)" by (metis surj_pair)
  show ?thesis
  proof (cases "pc = Arrived \<or> (\<exists>b. pc = Claimed b)")
    case True
    have "sh_deny s' = sh_deny s1"
      "sh_log s' = sh_log s @ (if d then [Dropped t r src] else if pc = Arrived then [] else [Dispatched t r c])"
      using True assms(1) check(2) by (auto simp: d split: if_splits)
    then show ?thesis using check(1) assms(3) pending [of q] pending [of r]
      by (auto simp: check(3,4) cancel_pending_snoc honours_snoc split: if_splits)
  next
    case False
    then have "sh_deny s' = sh_deny s" "sh_log s' = sh_log s @ (case pc of Calling _ \<Rightarrow> [Completed t r ok] | _ \<Rightarrow> [])"
      using assms(1) by (cases pc; auto simp: l c split: if_splits; fail)+
    then show ?thesis using assms(2,3) pending [of q] by (auto simp: cancel_pending_snoc honours_snoc split: fwd_pc.splits)
  qed
qed

lemma denials_kept_forward:
  assumes "denials_kept R y" "y_run y t = Some (Forwarding src r c pc)" "fwd_advance t src r c ok pc (y_shared y) = (s, pc')"
  shows "denials_kept R (y\<lparr>y_shared := s, y_run := (y_run y)(t := map_option (Forwarding src r c) pc')\<rparr>)"
proof -
  have d: "roomy R (sh_deny (y_shared y))" "honours (sh_log (y_shared y))" "cancel_pending (sh_log (y_shared y)) q \<Longrightarrow> lru_mem (sh_deny (y_shared y)) q" for q
    using assms(1) by (auto simp: denials_kept_def)
  note adv = fwd_advance_denials [OF assms(3) d]
  have "Denied u q \<in> set (sh_log s)" if "((y_run y)(t := map_option (Forwarding src r c) pc')) u = Some (Cancelling q CancelDenied)" for u q
  proof -
    have "y_run y u = Some (Cancelling q CancelDenied)" using that by (auto split: if_splits)
    then have "Denied u q \<in> set (sh_log (y_shared y))" using assms(1) by (simp add: denials_kept_def)
    then show ?thesis using adv by blast
  qed
  then show ?thesis using adv by (simp add: denials_kept_def)
qed

lemma denials_kept_cancelling:
  assumes "denials_kept R y" "r \<in> R" "y_run y t = Some (Cancelling r pc)" "cancel_advance t r ok pc (y_shared y) = (s, pc')"
  shows "denials_kept R (y\<lparr>y_shared := s, y_run := (y_run y)(t := map_option (Cancelling r) pc')\<rparr>)"
proof -
  have d: "roomy R (sh_deny (y_shared y))" "honours (sh_log (y_shared y))" "cancel_pending (sh_log (y_shared y)) q \<Longrightarrow> lru_mem (sh_deny (y_shared y)) q"
    and acked: "y_run y u = Some (Cancelling q CancelDenied) \<Longrightarrow> Denied u q \<in> set (sh_log (y_shared y))" for u q
    using assms(1) by (auto simp: denials_kept_def)
  obtain cl found where c: "lru_contains (sh_claimed (y_shared y)) r = (cl, found)" by (metis surj_pair)
  have log: "set (sh_log (y_shared y)) \<subseteq> set (sh_log s)" "pc' = Some CancelDenied \<Longrightarrow> Denied t r \<in> set (sh_log s)"
    using assms(4) c by (cases pc; auto simp: Let_def split: if_splits)+
  have "roomy R (sh_deny s) \<and> honours (sh_log s) \<and> (cancel_pending (sh_log s) q \<longrightarrow> lru_mem (sh_deny s) q)" for q
  proof (cases pc)
    case CancelDenied
    then show ?thesis using assms(4) d acked [of t r] assms(3) d(3) [of q] by (auto simp: cancel_pending_snoc honours_snoc split: if_splits)
  next
    case CancelUnclaimed
    then show ?thesis using assms(4) d(1,2) d(3) [of q] roomy_insert [OF d(1) assms(2)] by (auto simp: cancel_pending_snoc honours_snoc)
  next
    case CancelArrived
    then show ?thesis using assms(4) d(1,2) d(3) [of q] c by (auto simp: cancel_pending_snoc honours_snoc Let_def split: if_splits)
  qed
  moreover have "Denied u q \<in> set (sh_log s)" if "((y_run y)(t := map_option (Cancelling r) pc')) u = Some (Cancelling q CancelDenied)" for u q
    using that log acked [of u q] by (cases "u = t") auto
  ultimately show ?thesis by (simp add: denials_kept_def)
qed

lemma reach_denials_kept:
  assumes "routing_reach n R y" "finite R" "card R \<le> nat n" "0 < n"
  shows "denials_kept R y"
  using assms(1)
proof (induction rule: routing_reach.induct)
  case init
  then show ?case using lru_new_roomy [OF assms(2,3,4)] by (simp add: denials_kept_def NewRouting_def honours_def cancel_pending_def)
next
  case (step y y')
  have t: "traffic R y" by (rule reach_traffic [OF step(1)])
  show ?case using step(2)
  proof cases
    case (cancelling t r pc ok s pc')
    then show ?thesis using step(3) traffic_get [OF t cancelling(2)] by (simp add: denials_kept_cancelling)
  next
    case (forward t src r c pc ok s pc')
    then show ?thesis using step(3) by (simp add: denials_kept_forward)
  qed (use step(3) in \<open>auto simp: denials_kept_def\<close>)
qed

section \<open>Properties\<close>


text \<open>C30: an acknowledged cancel stops the next create, under every interleaving.  A cancel is acknowledged only after its resource was put
  into the deny list; from then on no create of the resource is sent to a provider until a create of it from the main topic has been
  dropped, however many requests for other resources the deny list has room for are handled meanwhile.\<close>

theorem cancel_honoured:
  assumes "routing_reach n R y" "finite R" "card R \<le> nat n" "0 < n"
  shows "(sh_log (y_shared y) = l1 @ Denied k r # l2 @ Dispatched t r True # l3 \<longrightarrow> (\<exists>u. Dropped u r MainTopic \<in> set l2)) \<and>
    (sh_log (y_shared y) = l1 @ CancelAcked k r # l2 \<longrightarrow> Denied k r \<in> set l1)"
proof -
  have h: "sh_log (y_shared y) = a @ e # b \<Longrightarrow> honoured a e" for a e b
    using reach_denials_kept [OF assms] by (auto simp: denials_kept_def honours_def)
  have "\<exists>u. Dropped u r MainTopic \<in> set l2" if "sh_log (y_shared y) = l1 @ Denied k r # l2 @ Dispatched t r True # l3"
  proof -
    have "\<not> cancel_pending (l1 @ Denied k r # l2) r" using h [of "l1 @ Denied k r # l2" "Dispatched t r True" l3] that by simp
    then show ?thesis unfolding cancel_pending_def by blast
  qed
  moreover have "Denied k r \<in> set l1" if "sh_log (y_shared y) = l1 @ CancelAcked k r # l2"
    using h [OF that] by simp
  ultimately show ?thesis by blast
qed

section \<open>Sample runs\<close>

datatype action = Begin nat goroutine | Advance nat bool

fun act :: "string set \<Rightarrow> action \<Rightarrow> routing_sys \<Rightarrow> routing_sys option" where
  "act R (Begin t (Forwarding src r c pc)) y =
     (if y_run y t = None \<and> r \<in> R \<and> pc = Arrived then Some (y\<lparr>y_run := (y_run y)(t \<mapsto> Forwarding src r c Arrived)\<rparr>) else None)"
| "act R (Begin t (Cancelling r pc)) y =
     (if y_run y t = None \<and> r \<in> R \<and> pc = CancelArrived then Some (y\<lparr>y_run := (y_run y)(t \<mapsto> Cancelling r CancelArrived)\<rparr>) else None)"
| "act R (Advance t ok) y =
     (case y_run y t of
        None \<Rightarrow> None
      | Some (Forwarding src r c pc) \<Rightarrow>
          (case fwd_advance t src r c ok pc (y_shared y) of
             (s, pc') \<Rightarrow> Some (y\<lparr>y_shared := s, y_run := (y_run y)(t := map_option (Forwarding src r c) pc')\<rparr>))
      | Some (Cancelling r pc) \<Rightarrow>
          (case cancel_advance t r ok pc (y_shared y) of
             (s, pc') \<Rightarrow> Some (y\<lparr>y_shared := s, y_run := (y_run y)(t := map_option (Cancelling r) pc')\<rparr>)))"

fun play :: "string set \<Rightarrow> action list \<Rightarrow> routing_sys \<Rightarrow> routing_sys option" where
  "play R [] y = Some y"
| "play R (a # as) y = (case act R a y of None \<Rightarrow> None | Some y \<Rightarrow> play R as y)"

lemma act_step:
  assumes "act R a y = Some y'"
  shows "route_step R y y'"
proof (cases a)
  case (Begin t g)
  then show ?thesis using assms by (cases g) (auto intro: route_step.request route_step.cancel split: if_splits)
next
  case (Advance t ok)
  then obtain g where g: "y_run y t = Some g" using assms by (cases "y_run y t") auto
  show ?thesis
  proof (cases g)
    case (Forwarding src r c pc)
    obtain s pc' where f: "fwd_advance t src r c ok pc (y_shared y) = (s, pc')" by (metis surj_pair)
    show ?thesis using route_step.forward [OF g [unfolded Forwarding] f, of R] assms by (simp add: Advance g Forwarding f)
  next
    case (Cancelling r pc)
    obtain s pc' where f: "cancel_advance t r ok pc (y_shared y) = (s, pc')" by (metis surj_pair)
    show ?thesis using route_step.cancelling [OF g [unfolded Cancelling] f, of R] assms by (simp add: Advance g Cancelling f)
  qed
qed

lemma play_reach: "routing_reach n R y \<Longrightarrow> play R as y = Some y' \<Longrightarrow> routing_reach n R y'"
proof (induction as arbitrary: y)
  case (Cons a as)
  then obtain z where z: "act R a y = Some z" "play R as z = Some y'" by (auto split: option.splits)
  show ?case by (rule Cons.IH [OF routing_reach.step [OF Cons.prems(1) act_step [OF z(1)]] z(2)])
qed simp

lemmas sample_defs = NewRouting_def NewKeyLock_def lru_new_def claimedResourcesSetMaxSize_def deny_list_check_def emit_def lru_consume_def lru_contains_def
  lru_insert_def lru_remove_def lru_touch_def lru_mem_def kl_AddIfAbsent_def kl_Remove_def Let_def

text \<open>The window that remains: a cancel that reads the claimed set before a create claims its resource, and writes the deny list after the
  create read it, is acknowledged although the resource is created.\<close>

lemma cancel_race:
  "\<exists>y. routing_reach 10 {''vm-1''} y \<and>
     sh_log (y_shared y) = [Dispatched 0 ''vm-1'' True, Denied 1 ''vm-1'', CancelAcked 1 ''vm-1'', Completed 0 ''vm-1'' True]"
proof -
  define run where "run = play {''vm-1''} ([Begin 1 (Cancelling ''vm-1'' CancelArrived), Advance 1 True, Begin 0 (Forwarding MainTopic ''vm-1'' True Arrived)]
    @ [Advance 0 True, Advance 0 True, Advance 0 True, Advance 0 True, Advance 1 True, Advance 1 True, Advance 0 True]) (NewRouting 10)"
  have "\<exists>y. run = Some y \<and> sh_log (y_shared y) = [Dispatched 0 ''vm-1'' True, Denied 1 ''vm-1'', CancelAcked 1 ''vm-1'', Completed 0 ''vm-1'' True]"
    by (simp add: run_def sample_defs)
  then show ?thesis using play_reach [OF routing_reach.init, of "{''vm-1''}"] unfolding run_def by blast
qed


theorem cancel_honoured_witness:
  "\<exists>y. routing_reach 10 {''vm-1''} y \<and>
     sh_log (y_shared y) = [] @ Denied 0 ''vm-1'' # [CancelAcked 0 ''vm-1'', Dropped 1 ''vm-1'' MainTopic] @ Dispatched 2 ''vm-1'' True # [] \<and>
     (\<exists>u. Dropped u ''vm-1'' MainTopic \<in> set [CancelAcked 0 ''vm-1'', Dropped 1 ''vm-1'' MainTopic])"
proof -
  define run where "run = play {''vm-1''} [Begin 0 (Cancelling ''vm-1'' CancelArrived), Advance 0 True, Advance 0 True, Advance 0 True,
    Begin 1 (Forwarding MainTopic ''vm-1'' True Arrived), Advance 1 True, Begin 2 (Forwarding RetryTopic ''vm-1'' True Arrived), Advance 2 True, Advance 2 True,
    Advance 2 True, Advance 2 True] (NewRouting 10)"
  have "\<exists>y. run = Some y \<and> sh_log (y_shared y) = [] @ Denied 0 ''vm-1'' # [CancelAcked 0 ''vm-1'', Dropped 1 ''vm-1'' MainTopic] @ Dispatched 2 ''vm-1'' True # []"
    by (simp add: run_def sample_defs)
  then obtain y where y: "routing_reach 10 {''vm-1''} y"
    "sh_log (y_shared y) = [] @ Denied 0 ''vm-1'' # [CancelAcked 0 ''vm-1'', Dropped 1 ''vm-1'' MainTopic] @ Dispatched 2 ''vm-1'' True # []"
    using play_reach [OF routing_reach.init, of "{''vm-1''}"] unfolding run_def by blast
  have "finite {''vm-1''}" "card {''vm-1''} \<le> nat 10" "(0 :: int) < 10" by simp_all
  then show ?thesis using y cancel_honoured [OF y(1)] by blast
qed

end
