(* ===== verification/Dcm_Client.thy ===== *)
theory Dcm_Client
  imports Backoff
begin

text \<open>
  \<open>internal/dcm/client.go\<close> and \<open>internal/dcm/token.go\<close>: the HTTP requests of registration and heartbeat, their
  classification into errors, and the bearer tokens they carry.  The OAuth2 library and the HTTP transport are
  third-party code: their answers are arguments.  JSON bodies are their decoded values, and an
  endpoint is the list of path elements that is joined to the base URL.
\<close>

section \<open>Tokens\<close>

text \<open>What the OAuth2 library answers: a token with its expiry (0 is the zero time), an error of the endpoint with its status,
  code and description, or any other error.\<close>

datatype oauth_answer = OAuthToken string time | OAuthRetrieveError "int option" string string | OAuthOtherError

datatype token_error =
    TokenEndpointDescribed int string string
  | TokenEndpointCode int string
  | TokenEndpointStatus int
  | TokenRequestFailed
  | TokenInvalidExpiry

definition defaultExpiryDelta :: duration where "defaultExpiryDelta = 10 * ns_per_s"

record client_credentials =
  cc_expiryDelta :: duration
  cc_accessToken :: string
  cc_expiry :: time

definition NewClientCredentialsTokenSource :: client_credentials where
  "NewClientCredentialsTokenSource = \<lparr>cc_expiryDelta = defaultExpiryDelta, cc_accessToken = '''', cc_expiry = 0\<rparr>"

definition fetchToken :: "oauth_answer \<Rightarrow> time \<Rightarrow> token_error + string \<times> time" where
  "fetchToken answer now =
     (case answer of
        OAuthRetrieveError response code description \<Rightarrow>
          let status = (case response of None \<Rightarrow> 0 | Some st \<Rightarrow> st)
          in Inl (if code \<noteq> '''' \<and> description \<noteq> '''' then TokenEndpointDescribed status code description
                  else if code \<noteq> '''' then TokenEndpointCode status code
                  else TokenEndpointStatus status)
      | OAuthOtherError \<Rightarrow> Inl TokenRequestFailed
      | OAuthToken token expiry \<Rightarrow>
          if expiry = 0 \<or> \<not> expiry > now then Inl TokenInvalidExpiry else Inr (token, expiry))"

text \<open>A call of \<open>Token\<close> at time \<open>now\<close>; \<open>answer\<close> and \<open>later\<close> are what a fetch gets and when.\<close>

record token_call =
  tc_now :: time
  tc_answer :: oauth_answer
  tc_later :: time

definition cached :: "client_credentials \<Rightarrow> time \<Rightarrow> bool" where
  "cached c now \<longleftrightarrow> cc_accessToken c \<noteq> '''' \<and> now < cc_expiry c - cc_expiryDelta c"

definition cc_Token :: "client_credentials \<Rightarrow> token_call \<Rightarrow> client_credentials \<times> (token_error + string)" where
  "cc_Token c call =
     (if cached c (tc_now call) then (c, Inr (cc_accessToken c))
      else case fetchToken (tc_answer call) (tc_later call) of
             Inl e \<Rightarrow> (c, Inl e)
           | Inr (token, expiry) \<Rightarrow> (c\<lparr>cc_accessToken := token, cc_expiry := expiry\<rparr>, Inr token))"

datatype token_source = NoAuth | StaticTokenSource string | ClientCredentials client_credentials

definition Token :: "token_source \<Rightarrow> token_call \<Rightarrow> token_source \<times> (token_error + string)" where
  "Token src call =
     (case src of
        NoAuth \<Rightarrow> (src, Inr '''')
      | StaticTokenSource token \<Rightarrow> (src, Inr token)
      | ClientCredentials c \<Rightarrow> map_prod ClientCredentials id (cc_Token c call))"

section \<open>Requests\<close>

record resource_capacity =
  rc_TotalCpu :: "string option"
  rc_TotalMemory :: "string option"
  rc_TotalNode :: "int option"

record registration_payload =
  rp_Name :: string
  rp_Environment :: string
  rp_Cost :: string
  rp_TopicName :: string
  rp_ServiceTypes :: "string list"
  rp_ResourcesAvailable :: "resource_capacity option"

record heartbeat_payload =
  hp_Timestamp :: time
  hp_ConsumerLag :: int

datatype dcm_body = RegistrationBody registration_payload | HeartbeatBody heartbeat_payload

record dcm_request =
  dq_method :: string
  dq_path :: "string list"
  dq_authorization :: "string option"
  dq_body :: dcm_body

record dcm_response =
  dr_status :: int
  dr_agentID :: "string option" \<comment> \<open>the decoded body, \<open>None\<close> if it does not decode\<close>
  dr_retryAfter :: string

datatype dcm_error =
    MarshalPayload
  | CreateRequest
  | AuthToken token_error
  | RequestFailed
  | DecodeResponse
  | EmptyAgentID
  | RateLimitError "duration option"
  | RegistrationRejected int
  | HTTPFailed int

definition ErrNonRetryable :: "dcm_error \<Rightarrow> bool" where
  "ErrNonRetryable e \<longleftrightarrow> (\<exists>st. e = RegistrationRejected st)"

lemma ErrNonRetryable_code [code]: "ErrNonRetryable e = (case e of RegistrationRejected _ \<Rightarrow> True | _ \<Rightarrow> False)"
  by (cases e) (simp_all add: ErrNonRetryable_def)

text \<open>\<open>url.Parse\<close> and the host it finds.\<close>

datatype client_error = InvalidURL | MissingHost

definition newDCMClient :: "(string \<Rightarrow> string option) \<Rightarrow> string \<Rightarrow> token_source \<Rightarrow> client_error + token_source" where
  "newDCMClient parse_host registrationURL tokenSource =
     (case parse_host registrationURL of
        None \<Rightarrow> Inl InvalidURL
      | Some host \<Rightarrow> if host = '''' then Inl MissingHost else Inr tokenSource)"

text \<open>The transport: whether the body marshals and the request can be built, the answer of the token source, and the response.\<close>

record exchange =
  xc_marshals :: bool
  xc_request :: bool
  xc_token :: token_call
  xc_response :: "dcm_response option"
  xc_now :: time

definition setAuthHeader :: "token_source \<Rightarrow> token_call \<Rightarrow> dcm_request \<Rightarrow> token_source \<times> (token_error + dcm_request)" where
  "setAuthHeader src call req =
     (case Token src call of
        (src, Inl e) \<Rightarrow> (src, Inl e)
      | (src, Inr token) \<Rightarrow>
          (src, Inr (if token \<noteq> '''' then req\<lparr>dq_authorization := Some (''Bearer '' @ token)\<rparr> else req)))"

definition handleRegistrationResponse :: "(string \<Rightarrow> time option) \<Rightarrow> time \<Rightarrow> dcm_response \<Rightarrow> dcm_error + string" where
  "handleRegistrationResponse parse_http now resp =
     (if 200 \<le> dr_status resp \<and> dr_status resp < 300
      then case dr_agentID resp of
             None \<Rightarrow> Inl DecodeResponse
           | Some i \<Rightarrow> if i = '''' then Inl EmptyAgentID else Inr i
      else if dr_status resp = 429
      then Inl (RateLimitError (if dr_retryAfter resp \<noteq> '''' then ParseRetryAfter parse_http (dr_retryAfter resp) now else None))
      else if 400 \<le> dr_status resp \<and> dr_status resp < 500 then Inl (RegistrationRejected (dr_status resp))
      else Inl (HTTPFailed (dr_status resp)))"

definition register_endpoint :: "string list" where "register_endpoint = [''api'', ''v1alpha1'', ''agents'']"

text \<open>A request with its result; \<open>None\<close> when nothing was sent.\<close>

definition register_with :: "(string \<Rightarrow> time option) \<Rightarrow> token_source \<Rightarrow> exchange \<Rightarrow> registration_payload \<Rightarrow>
    token_source \<times> dcm_request option \<times> (dcm_error + string)" where
  "register_with parse_http src x payload =
     (if \<not> xc_marshals x then (src, None, Inl MarshalPayload)
      else if \<not> xc_request x then (src, None, Inl CreateRequest)
      else case setAuthHeader src (xc_token x)
                  \<lparr>dq_method = ''POST'', dq_path = register_endpoint, dq_authorization = None, dq_body = RegistrationBody payload\<rparr> of
             (src, Inl e) \<Rightarrow> (src, None, Inl (AuthToken e))
           | (src, Inr req) \<Rightarrow>
               (src, Some req,
                case xc_response x of
                  None \<Rightarrow> Inl RequestFailed
                | Some resp \<Rightarrow> handleRegistrationResponse parse_http (xc_now x) resp))"

definition heartbeat :: "token_source \<Rightarrow> exchange \<Rightarrow> string \<Rightarrow> heartbeat_payload \<Rightarrow>
    token_source \<times> dcm_request option \<times> dcm_error option" where
  "heartbeat src x agentID payload =
     (if \<not> xc_marshals x then (src, None, Some MarshalPayload)
      else if \<not> xc_request x then (src, None, Some CreateRequest)
      else case setAuthHeader src (xc_token x)
                  \<lparr>dq_method = ''PUT'', dq_path = register_endpoint @ [agentID, ''heartbeat''], dq_authorization = None,
                   dq_body = HeartbeatBody payload\<rparr> of
             (src, Inl e) \<Rightarrow> (src, None, Some (AuthToken e))
           | (src, Inr req) \<Rightarrow>
               (src, Some req,
                case xc_response x of
                  None \<Rightarrow> Some RequestFailed
                | Some resp \<Rightarrow>
                    if 200 \<le> dr_status resp \<and> dr_status resp < 300 then None else Some (HTTPFailed (dr_status resp))))"

section \<open>Tokens in use are not expired\<close>

definition token_state :: "token_call list \<Rightarrow> client_credentials" where
  "token_state calls = foldl (\<lambda>c call. fst (cc_Token c call)) NewClientCredentialsTokenSource calls"

lemma token_state_snoc: "token_state (calls @ [call]) = fst (cc_Token (token_state calls) call)"
  by (simp add: token_state_def)

lemma fetchToken_ok: "fetchToken answer now = Inr (token, expiry) \<longleftrightarrow> answer = OAuthToken token expiry \<and> expiry \<noteq> 0 \<and> now < expiry"
  by (auto simp: fetchToken_def Let_def split: oauth_answer.splits if_splits)

lemma cc_Token_fetched:
  assumes "\<not> cached c (tc_now call)"
  shows "(\<exists>e. fetchToken (tc_answer call) (tc_later call) = Inl e \<and> cc_Token c call = (c, Inl e)) \<or>
    (\<exists>token expiry. tc_answer call = OAuthToken token expiry \<and> tc_later call < expiry \<and>
       cc_Token c call = (c\<lparr>cc_accessToken := token, cc_expiry := expiry\<rparr>, Inr token))"
proof (cases "fetchToken (tc_answer call) (tc_later call)")
  case (Inl e)
  then show ?thesis using assms by (simp add: cc_Token_def)
next
  case (Inr x)
  then obtain token expiry where "fetchToken (tc_answer call) (tc_later call) = Inr (token, expiry)" by (cases x) auto
  moreover from this have "tc_answer call = OAuthToken token expiry" "tc_later call < expiry" by (simp_all add: fetchToken_ok)
  ultimately show ?thesis using assms by (auto simp: cc_Token_def)
qed

text \<open>The cached token was answered by the endpoint with the cached expiry.\<close>

lemma token_state_inv:
  "cc_expiryDelta (token_state calls) = defaultExpiryDelta \<and>
   (cc_accessToken (token_state calls) = '''' \<or>
    (\<exists>call \<in> set calls. tc_answer call = OAuthToken (cc_accessToken (token_state calls)) (cc_expiry (token_state calls))))"
proof (induction calls rule: rev_induct)
  case Nil
  then show ?case by (simp add: token_state_def NewClientCredentialsTokenSource_def)
next
  case (snoc call calls)
  show ?case
  proof (cases "cached (token_state calls) (tc_now call)")
    case True
    then have "token_state (calls @ [call]) = token_state calls" by (simp add: token_state_snoc cc_Token_def)
    then show ?thesis using snoc.IH by auto
  next
    case False
    from cc_Token_fetched [OF this] show ?thesis using snoc.IH by (auto simp: token_state_snoc)
  qed
qed

text \<open>C22: after any calls, a token that the client-credentials source hands out was issued by the token endpoint and is not expired: it is
  either the fresh answer to this call, checked against the clock, or the cached one more than ten seconds before its expiry.
  When the source fails, it holds no usable token, and the failure does not change what it holds.\<close>

theorem Token_fresh:
  assumes "cc_Token (token_state calls) call = (c, r)"
  shows "case r of
      Inr token \<Rightarrow> \<exists>issued expiry. tc_answer issued = OAuthToken token expiry \<and>
        (issued \<in> set calls \<and> tc_now call + defaultExpiryDelta < expiry \<and> c = token_state calls \<or>
         issued = call \<and> tc_later call < expiry)
    | Inl e \<Rightarrow> c = token_state calls \<and> \<not> cached c (tc_now call)"
proof (cases "cached (token_state calls) (tc_now call)")
  case True
  then have "r = Inr (cc_accessToken (token_state calls))" "c = token_state calls" using assms by (auto simp: cc_Token_def)
  then show ?thesis using True token_state_inv [of calls] by (auto simp: cached_def algebra_simps)
next
  case False
  from cc_Token_fetched [OF this] show ?thesis
  proof (elim disjE exE conjE)
    fix e assume "cc_Token (token_state calls) call = (token_state calls, Inl e)"
    then show ?thesis using assms False by simp
  next
    fix token expiry
    assume "tc_answer call = OAuthToken token expiry" "tc_later call < expiry"
      "cc_Token (token_state calls) call = (token_state calls\<lparr>cc_accessToken := token, cc_expiry := expiry\<rparr>, Inr token)"
    then show ?thesis using assms by (auto intro: exI [of _ call])
  qed
qed

definition sample_calls :: "token_call list" where
  "sample_calls = [\<lparr>tc_now = ns_per_s, tc_answer = OAuthToken ''t1'' (100 * ns_per_s), tc_later = 2 * ns_per_s\<rparr>]"

theorem Token_fresh_witness:
  "cc_Token (token_state sample_calls) \<lparr>tc_now = 89 * ns_per_s, tc_answer = OAuthOtherError, tc_later = 0\<rparr> =
     (token_state sample_calls, Inr ''t1'') \<and>
   (\<exists>issued expiry. tc_answer issued = OAuthToken ''t1'' expiry \<and>
      issued \<in> set sample_calls \<and> 89 * ns_per_s + defaultExpiryDelta < expiry)"
proof -
  have run: "cc_Token (token_state sample_calls) \<lparr>tc_now = 89 * ns_per_s, tc_answer = OAuthOtherError, tc_later = 0\<rparr> =
      (token_state sample_calls, Inr ''t1'')"
    by (simp add: sample_calls_def token_state_def cc_Token_def cached_def NewClientCredentialsTokenSource_def defaultExpiryDelta_def
        fetchToken_def)
  show ?thesis using Token_fresh [OF run] run by force
qed

end
