(* ===== verification/Dcm_Registrar.thy ===== *)
theory Dcm_Registrar
  imports Dcm_Client
begin

text \<open>
  \<open>internal/dcm/registrar.go\<close>: the goroutine that registers the agent with DCM and sends heartbeats.  Its control flow
  (supervisor, prerequisite gate, registration with backoff, heartbeat loop) is a step relation whose phases are the places
  where the goroutine waits for a channel, a timer or an HTTP exchange.  The provider service changes the advertised service
  types and signals the change at any time, and the context may be cancelled at any time.
\<close>

section \<open>Configuration and payload\<close>

record registrar_cfg =
  gc_AgentName :: string
  gc_Environment :: string
  gc_Cost :: string
  gc_TopicName :: string
  gc_InitialBackoff :: duration
  gc_MaxBackoff :: duration

definition buildPayload :: "registrar_cfg \<Rightarrow> resource_capacity option \<Rightarrow> string list \<Rightarrow> registration_payload" where
  "buildPayload cfg capacity types =
     \<lparr>rp_Name = gc_AgentName cfg, rp_Environment = gc_Environment cfg, rp_Cost = gc_Cost cfg, rp_TopicName = gc_TopicName cfg,
      rp_ServiceTypes = types, rp_ResourcesAvailable = capacity\<rparr>"

text \<open>\<open>draw\<close> is the random draw of the jitter.\<close>

definition computeBackoff :: "registrar_cfg \<Rightarrow> nat \<Rightarrow> dcm_error \<Rightarrow> int \<Rightarrow> duration" where
  "computeBackoff cfg draw e attempt =
     (case e of
        RateLimitError (Some d) \<Rightarrow>
          if d > 0 then d else ApplyJitter (CalculateBackoff (gc_InitialBackoff cfg) (gc_MaxBackoff cfg) attempt) draw
      | _ \<Rightarrow> ApplyJitter (CalculateBackoff (gc_InitialBackoff cfg) (gc_MaxBackoff cfg) attempt) draw)"

section \<open>State\<close>

text \<open>The flag of a registration tells \<open>doRegistration\<close> from \<open>reRegister\<close>, the number is its attempt.\<close>

datatype phase =
    Supervising
  | Gate
  | GateWaiting
  | Trying bool int
  | Exchanging bool int registration_payload
  | BackingOff bool int duration
  | Blocked
  | Heartbeating
  | PanicWaiting
  | Exited

record registrar =
  g_agentID :: string
  g_registered :: bool
  g_notifyCh :: bool \<comment> \<open>the one-element channel holds a signal\<close>
  g_phase :: phase
  g_token :: token_source
  g_ctxDone :: bool
  g_types :: "string list" \<comment> \<open>what the lister answers now\<close>
  g_unsignalled :: bool \<comment> \<open>they have changed and \<open>NotifyServiceTypeChange\<close> has not been called yet\<close>
  g_acked :: "registration_payload option" \<comment> \<open>the payload DCM acknowledged last\<close>
  g_rejected :: bool \<comment> \<open>the last registration ended with a non-retryable error\<close>
  g_sent :: "dcm_request list"

definition NewRegistrar :: "token_source \<Rightarrow> string list \<Rightarrow> registrar" where
  "NewRegistrar src types =
     \<lparr>g_agentID = '''', g_registered = False, g_notifyCh = False, g_phase = Supervising, g_token = src, g_ctxDone = False, g_types = types,
      g_unsignalled = False, g_acked = None, g_rejected = False, g_sent = []\<rparr>"

definition NotifyServiceTypeChange :: "registrar \<Rightarrow> registrar" where
  "NotifyServiceTypeChange g = g\<lparr>g_notifyCh := True\<rparr>"

definition AgentID :: "registrar \<Rightarrow> string \<times> bool" where "AgentID g = (g_agentID g, g_registered g)"

text \<open>Where \<open>registerWithRetry\<close> returns to when it gives up: \<open>run\<close> blocks after an initial registration, and goes on with
  heartbeats after a re-registration.\<close>

definition gives_up :: "bool \<Rightarrow> phase" where
  "gives_up initial = (if initial then Blocked else Heartbeating)"

text \<open>What \<open>registerWithRetry\<close> does with the result of an attempt.\<close>

definition attempt_result :: "registrar_cfg \<Rightarrow> nat \<Rightarrow> bool \<Rightarrow> int \<Rightarrow> registration_payload \<Rightarrow> registrar \<Rightarrow> dcm_error + string \<Rightarrow> registrar" where
  "attempt_result cfg draw initial attempt payload g r =
     (case r of
        Inr agentID \<Rightarrow>
          g\<lparr>g_agentID := agentID, g_registered := True, g_acked := Some payload, g_rejected := False, g_phase := Heartbeating\<rparr>
      | Inl e \<Rightarrow>
          if g_ctxDone g then g\<lparr>g_phase := gives_up initial\<rparr>
          else if ErrNonRetryable e then g\<lparr>g_rejected := True, g_phase := gives_up initial\<rparr>
          else g\<lparr>g_phase := BackingOff initial (attempt + 1) (computeBackoff cfg draw e attempt)\<rparr>)"

text \<open>One registration exchange and one heartbeat, with the request they send.\<close>

definition record_sent :: "dcm_request option \<Rightarrow> registrar \<Rightarrow> registrar" where
  "record_sent req g = (case req of None \<Rightarrow> g | Some q \<Rightarrow> g\<lparr>g_sent := g_sent g @ [q]\<rparr>)"

definition attemptRegister :: "registrar_cfg \<Rightarrow> (string \<Rightarrow> time option) \<Rightarrow> nat \<Rightarrow> exchange \<Rightarrow> bool \<Rightarrow> int \<Rightarrow> registration_payload \<Rightarrow>
    registrar \<Rightarrow> registrar" where
  "attemptRegister cfg parse_http draw x initial attempt payload g =
     (case register_with parse_http (g_token g) x payload of
        (src, req, r) \<Rightarrow> attempt_result cfg draw initial attempt payload (record_sent req (g\<lparr>g_token := src\<rparr>)) r)"

definition sendHeartbeat :: "exchange \<Rightarrow> time \<Rightarrow> int \<Rightarrow> registrar \<Rightarrow> registrar" where
  "sendHeartbeat x now lag g =
     (case heartbeat (g_token g) x (g_agentID g) \<lparr>hp_Timestamp = now, hp_ConsumerLag = lag\<rparr> of
        (src, req, _) \<Rightarrow> record_sent req (g\<lparr>g_token := src\<rparr>))"

section \<open>Steps\<close>

text \<open>Where the calls out of the package are made, and so where a panic may come from.\<close>

definition may_panic :: "phase \<Rightarrow> bool" where
  "may_panic p = (case p of Gate \<Rightarrow> True | Trying _ _ \<Rightarrow> True | Exchanging _ _ _ \<Rightarrow> True | Heartbeating \<Rightarrow> True | _ \<Rightarrow> False)"

text \<open>The steps of the goroutine.  A \<open>select\<close> with several ready cases may take any of them.\<close>

inductive run_step :: "registrar_cfg \<Rightarrow> (string \<Rightarrow> time option) \<Rightarrow> registrar \<Rightarrow> registrar \<Rightarrow> bool" for cfg parse_http where
  supervise: "g_phase g = Supervising \<Longrightarrow> run_step cfg parse_http g (g\<lparr>g_phase := (if g_ctxDone g then Exited else Gate)\<rparr>)"
| gate: "g_phase g = Gate \<Longrightarrow> run_step cfg parse_http g (g\<lparr>g_phase := (if g_types g \<noteq> [] then Trying True 0 else GateWaiting)\<rparr>)"
| gate_cancelled: "g_phase g = GateWaiting \<Longrightarrow> g_ctxDone g \<Longrightarrow> run_step cfg parse_http g (g\<lparr>g_phase := Exited\<rparr>)"
| gate_signal: "g_phase g = GateWaiting \<Longrightarrow> g_notifyCh g \<Longrightarrow> run_step cfg parse_http g (g\<lparr>g_notifyCh := False, g_phase := Gate\<rparr>)"
| gate_tick: "g_phase g = GateWaiting \<Longrightarrow> run_step cfg parse_http g (g\<lparr>g_phase := Gate\<rparr>)"
| attempt: "g_phase g = Trying i a \<Longrightarrow>
    run_step cfg parse_http g
      (if g_ctxDone g then g\<lparr>g_phase := gives_up i\<rparr>
       else g\<lparr>g_phase := Exchanging i a (buildPayload cfg capacity (g_types g))\<rparr>)"
| exchange: "g_phase g = Exchanging i a payload \<Longrightarrow>
    run_step cfg parse_http g (attemptRegister cfg parse_http draw x i a payload g)"
| backoff_cancelled: "g_phase g = BackingOff i a w \<Longrightarrow> g_ctxDone g \<Longrightarrow> run_step cfg parse_http g (g\<lparr>g_phase := gives_up i\<rparr>)"
| backoff_signal: "g_phase g = BackingOff i a w \<Longrightarrow> g_notifyCh g \<Longrightarrow>
    run_step cfg parse_http g (g\<lparr>g_notifyCh := False, g_phase := Trying i 0\<rparr>)"
| backoff_elapsed: "g_phase g = BackingOff i a w \<Longrightarrow> run_step cfg parse_http g (g\<lparr>g_phase := Trying i a\<rparr>)"
| blocked: "g_phase g = Blocked \<Longrightarrow> g_ctxDone g \<Longrightarrow> run_step cfg parse_http g (g\<lparr>g_phase := Exited\<rparr>)"
| heartbeats_cancelled: "g_phase g = Heartbeating \<Longrightarrow> g_ctxDone g \<Longrightarrow> run_step cfg parse_http g (g\<lparr>g_phase := Exited\<rparr>)"
| heartbeat_tick: "g_phase g = Heartbeating \<Longrightarrow> run_step cfg parse_http g (sendHeartbeat x now lag g)"
| heartbeat_signal: "g_phase g = Heartbeating \<Longrightarrow> g_notifyCh g \<Longrightarrow>
    run_step cfg parse_http g (g\<lparr>g_notifyCh := False, g_phase := Trying False 0\<rparr>)"
| panic: "may_panic (g_phase g) \<Longrightarrow> run_step cfg parse_http g (g\<lparr>g_phase := PanicWaiting\<rparr>)"
| restart: "g_phase g = PanicWaiting \<Longrightarrow>
    run_step cfg parse_http g (g\<lparr>g_phase := (if g_ctxDone g then Exited else Supervising)\<rparr>)"

text \<open>With the steps of the environment: the advertised types change, the change is signalled, the context is cancelled.\<close>

inductive registrar_step :: "registrar_cfg \<Rightarrow> (string \<Rightarrow> time option) \<Rightarrow> registrar \<Rightarrow> registrar \<Rightarrow> bool" for cfg parse_http where
  run: "run_step cfg parse_http g g' \<Longrightarrow> registrar_step cfg parse_http g g'"
| change: "registrar_step cfg parse_http g (g\<lparr>g_types := types, g_unsignalled := True\<rparr>)"
| signal: "registrar_step cfg parse_http g ((NotifyServiceTypeChange g)\<lparr>g_unsignalled := False\<rparr>)"
| cancel: "registrar_step cfg parse_http g (g\<lparr>g_ctxDone := True\<rparr>)"

inductive registrar_reach :: "registrar_cfg \<Rightarrow> (string \<Rightarrow> time option) \<Rightarrow> token_source \<Rightarrow> registrar \<Rightarrow> bool"
  for cfg parse_http src where
  init: "registrar_reach cfg parse_http src (NewRegistrar src types)"
| step: "registrar_reach cfg parse_http src g \<Longrightarrow> registrar_step cfg parse_http g g' \<Longrightarrow> registrar_reach cfg parse_http src g'"

section \<open>Invariant\<close>

lemma record_sent_fields [simp]:
  "g_phase (record_sent q g) = g_phase g" "g_ctxDone (record_sent q g) = g_ctxDone g" "g_types (record_sent q g) = g_types g"
  "g_notifyCh (record_sent q g) = g_notifyCh g" "g_unsignalled (record_sent q g) = g_unsignalled g" "g_acked (record_sent q g) = g_acked g"
  "g_rejected (record_sent q g) = g_rejected g" "g_agentID (record_sent q g) = g_agentID g" "g_registered (record_sent q g) = g_registered g"
  by (simp_all add: record_sent_def split: option.split)

lemma sendHeartbeat_fields [simp]:
  "g_phase (sendHeartbeat x n l g) = g_phase g" "g_ctxDone (sendHeartbeat x n l g) = g_ctxDone g"
  "g_types (sendHeartbeat x n l g) = g_types g" "g_notifyCh (sendHeartbeat x n l g) = g_notifyCh g"
  "g_unsignalled (sendHeartbeat x n l g) = g_unsignalled g" "g_acked (sendHeartbeat x n l g) = g_acked g"
  "g_rejected (sendHeartbeat x n l g) = g_rejected g" "g_agentID (sendHeartbeat x n l g) = g_agentID g"
  "g_registered (sendHeartbeat x n l g) = g_registered g"
  by (simp_all add: sendHeartbeat_def split: prod.split)

lemma register_with_ok:
  assumes "register_with parse_http src x payload = (src', req, Inr i)"
  shows "i \<noteq> ''''"
  using assms
  by (auto simp: register_with_def handleRegistrationResponse_def split: if_splits prod.splits sum.splits option.splits)

lemma attemptRegister_cases:
  obtains (ok) src req i where "i \<noteq> ''''" "attemptRegister cfg ph draw x b a p g =
      (record_sent req (g\<lparr>g_token := src\<rparr>))\<lparr>g_agentID := i, g_registered := True, g_acked := Some p, g_rejected := False, g_phase := Heartbeating\<rparr>"
  | (cancelled) src req where "g_ctxDone g"
      "attemptRegister cfg ph draw x b a p g = (record_sent req (g\<lparr>g_token := src\<rparr>))\<lparr>g_phase := gives_up b\<rparr>"
  | (rejected) src req where
      "attemptRegister cfg ph draw x b a p g = (record_sent req (g\<lparr>g_token := src\<rparr>))\<lparr>g_rejected := True, g_phase := gives_up b\<rparr>"
  | (retry) src req e where "\<not> ErrNonRetryable e"
      "attemptRegister cfg ph draw x b a p g = (record_sent req (g\<lparr>g_token := src\<rparr>))\<lparr>g_phase := BackingOff b (a + 1) (computeBackoff cfg draw e a)\<rparr>"
proof -
  obtain src req r where reg: "register_with ph (g_token g) x p = (src, req, r)" by (metis prod_cases3)
  show ?thesis
  proof (cases r)
    case (Inr i)
    then show ?thesis using reg register_with_ok [of ph "g_token g" x p src req i]
      by (intro ok [of i req src]) (simp_all add: attemptRegister_def attempt_result_def)
  next
    case (Inl e)
    consider "g_ctxDone g" | "\<not> g_ctxDone g" "ErrNonRetryable e" | "\<not> g_ctxDone g" "\<not> ErrNonRetryable e" by blast
    then show ?thesis
    proof cases
      case 1
      then show ?thesis using reg Inl by (intro cancelled [of req src]) (simp_all add: attemptRegister_def attempt_result_def)
    next
      case 2
      then show ?thesis using reg Inl by (intro rejected [of req src]) (simp_all add: attemptRegister_def attempt_result_def)
    next
      case 3
      then show ?thesis using reg Inl by (intro retry [of e req src]) (simp_all add: attemptRegister_def attempt_result_def)
    qed
  qed
qed

text \<open>Signals are not lost: without one pending, the payload in flight or acknowledged last lists the current service types.\<close>

definition advertises :: "registrar \<Rightarrow> bool" where
  "advertises g \<longleftrightarrow> (\<exists>p. g_acked g = Some p \<and> rp_ServiceTypes p = g_types g)"

definition settled_types :: "registrar \<Rightarrow> bool" where
  "settled_types g \<longleftrightarrow> \<not> g_notifyCh g \<and> \<not> g_unsignalled g"

definition registrar_inv :: "registrar \<Rightarrow> bool" where
  "registrar_inv g \<longleftrightarrow>
     (g_phase g = Heartbeating \<and> settled_types g \<and> \<not> g_rejected g \<and> \<not> g_ctxDone g \<longrightarrow> advertises g) \<and>
     (\<forall>i a p. g_phase g = Exchanging i a p \<and> settled_types g \<longrightarrow> rp_ServiceTypes p = g_types g) \<and>
     (g_registered g \<longleftrightarrow> g_acked g \<noteq> None) \<and> (g_registered g \<longleftrightarrow> g_agentID g \<noteq> '''') \<and>
     (case g_phase g of
        Heartbeating \<Rightarrow> g_registered g
      | Trying i _ \<Rightarrow> i \<or> g_registered g
      | Exchanging i _ _ \<Rightarrow> i \<or> g_registered g
      | BackingOff i _ _ \<Rightarrow> i \<or> g_registered g
      | _ \<Rightarrow> True)"

lemma run_step_inv:
  assumes "run_step cfg ph g g'" "registrar_inv g"
  shows "registrar_inv g'"
  using assms
proof (induction rule: run_step.induct)
  case (exchange g i a payload draw x)
  show ?case
    using exchange by (cases rule: attemptRegister_cases [of cfg ph draw x i a payload g])
      (auto simp: registrar_inv_def advertises_def settled_types_def gives_up_def)
next
  case (heartbeat_tick g x now lag)
  then show ?case by (auto simp: registrar_inv_def advertises_def settled_types_def)
qed (auto simp: registrar_inv_def advertises_def settled_types_def gives_up_def buildPayload_def split: phase.splits if_splits)

lemma registrar_reach_inv: "registrar_reach cfg ph src g \<Longrightarrow> registrar_inv g"
proof (induction rule: registrar_reach.induct)
  case (init types)
  then show ?case by (simp add: registrar_inv_def NewRegistrar_def)
next
  case (step g g')
  from step.hyps(2) show ?case
  proof cases
    case run
    then show ?thesis using run_step_inv step.IH by blast
  qed (use step.IH in \<open>auto simp: registrar_inv_def advertises_def settled_types_def NotifyServiceTypeChange_def split: phase.splits\<close>)
qed

section \<open>Requests\<close>














section \<open>Properties\<close>

text \<open>A run to the heartbeat loop in which the first attempt is rate limited.\<close>

definition sample_rcfg :: registrar_cfg where
  "sample_rcfg = \<lparr>gc_AgentName = ''agent'', gc_Environment = ''prod'', gc_Cost = ''low'', gc_TopicName = ''dcm.agent.agent'',
     gc_InitialBackoff = ns_per_s, gc_MaxBackoff = 300 * ns_per_s\<rparr>"

definition sample_exchange :: "int \<Rightarrow> exchange" where
  "sample_exchange st = \<lparr>xc_marshals = True, xc_request = True, xc_token = \<lparr>tc_now = 0, tc_answer = OAuthOtherError, tc_later = 0\<rparr>,
     xc_response = Some \<lparr>dr_status = st, dr_agentID = Some ''a1'', dr_retryAfter = ''7''\<rparr>, xc_now = 0\<rparr>"

definition sample_agent :: registrar where
  "sample_agent =
     (let p = buildPayload sample_rcfg None [''vm''];
          q = \<lparr>dq_method = ''POST'', dq_path = register_endpoint, dq_authorization = Some ''Bearer t'', dq_body = RegistrationBody p\<rparr>
      in (NewRegistrar (StaticTokenSource ''t'') [''vm''])
           \<lparr>g_agentID := ''a1'', g_registered := True, g_phase := Heartbeating, g_acked := Some p, g_sent := [q, q]\<rparr>)"

lemma sample_retryAfter [simp]: "ParseRetryAfter (\<lambda>_. None) ''7'' 0 = Some (7 * ns_per_s)"
  by code_simp

lemmas registrar_run_defs = attemptRegister_def register_with_def setAuthHeader_def Token_def handleRegistrationResponse_def
  attempt_result_def record_sent_def ErrNonRetryable_code sample_exchange_def

lemma reach_run: "registrar_reach cfg ph src g \<Longrightarrow> run_step cfg ph g g' \<Longrightarrow> g' = g'' \<Longrightarrow> registrar_reach cfg ph src g''"
  by (blast intro: registrar_reach.step registrar_step.run)

lemma sample_agent_reach: "registrar_reach sample_rcfg (\<lambda>_. None) (StaticTokenSource ''t'') sample_agent"
proof -
  let ?reach = "registrar_reach sample_rcfg (\<lambda>_. None) (StaticTokenSource ''t'')"
  let ?g = "NewRegistrar (StaticTokenSource ''t'') [''vm'']"
  let ?p = "buildPayload sample_rcfg None [''vm'']"
  let ?q = "\<lparr>dq_method = ''POST'', dq_path = register_endpoint, dq_authorization = Some ''Bearer t'', dq_body = RegistrationBody ?p\<rparr>"
  have "?reach (?g\<lparr>g_phase := Gate\<rparr>)"
    by (rule reach_run [OF registrar_reach.init run_step.supervise]) (simp_all add: NewRegistrar_def)
  then have "?reach (?g\<lparr>g_phase := Trying True 0\<rparr>)"
    by (rule reach_run [OF _ run_step.gate]) (simp_all add: NewRegistrar_def)
  then have "?reach (?g\<lparr>g_phase := Exchanging True 0 ?p\<rparr>)"
    by (rule reach_run [OF _ run_step.attempt]) (simp_all add: NewRegistrar_def)
  then have "?reach (?g\<lparr>g_phase := BackingOff True 1 (7 * ns_per_s), g_sent := [?q]\<rparr>)"
    by (rule reach_run [OF _ run_step.exchange [where x = "sample_exchange 429" and draw = 0]])
      (simp_all add: registrar_run_defs NewRegistrar_def, simp_all add: computeBackoff_def ErrNonRetryable_code)
  then have "?reach (?g\<lparr>g_phase := Trying True 1, g_sent := [?q]\<rparr>)"
    by (rule reach_run [OF _ run_step.backoff_elapsed]) (simp_all add: NewRegistrar_def)
  then have "?reach (?g\<lparr>g_phase := Exchanging True 1 ?p, g_sent := [?q]\<rparr>)"
    by (rule reach_run [OF _ run_step.attempt]) (simp_all add: NewRegistrar_def)
  then show ?thesis
    by (rule reach_run [OF _ run_step.exchange [where x = "sample_exchange 200" and draw = 0]])
      (simp_all add: registrar_run_defs sample_agent_def, simp_all add: NewRegistrar_def Let_def)
qed

text \<open>C20: no change of the advertised service types is lost.  However changes, signals, backoffs, panics and
  heartbeats interleave, an agent that waits in its heartbeat loop with all changes signalled and no signal pending is registered, and
  the payload DCM acknowledged last lists exactly the current service types, unless DCM rejected the last
  registration for good or the agent is shutting down.\<close>

theorem registrar_advertises:
  assumes "registrar_reach cfg parse_http src g" "g_phase g = Heartbeating" "\<not> g_notifyCh g" "\<not> g_unsignalled g"
    "\<not> g_rejected g" "\<not> g_ctxDone g"
  shows "\<exists>p. g_acked g = Some p \<and> rp_ServiceTypes p = g_types g \<and> g_agentID g \<noteq> '''' \<and> g_registered g"
  using registrar_reach_inv [OF assms(1)] assms(2-) by (auto simp: registrar_inv_def settled_types_def advertises_def)

theorem registrar_advertises_witness:
  "g_types sample_agent = [''vm''] \<and> (\<exists>p. g_acked sample_agent = Some p \<and> rp_ServiceTypes p = g_types sample_agent \<and>
     g_agentID sample_agent \<noteq> '''' \<and> g_registered sample_agent)"
  using registrar_advertises [OF sample_agent_reach] by (simp add: sample_agent_def NewRegistrar_def Let_def)



text \<open>The wait after a failed registration.  A response is final exactly for a 4xx status other than 429; after any other failure the
  agent waits as long as a usable \<open>Retry-After\<close> of a 429 says, and otherwise a jittered exponential backoff between
  zero and \<open>min (initial * 2 ^ attempt) max\<close>.\<close>

theorem registration_wait:
  assumes "handleRegistrationResponse parse_http now resp = Inl e"
    and "0 < gc_InitialBackoff cfg" "0 \<le> gc_MaxBackoff cfg" "gc_MaxBackoff cfg \<le> 2 ^ 53" "draw < 2 ^ 53"
  shows "(ErrNonRetryable e \<longleftrightarrow> 400 \<le> dr_status resp \<and> dr_status resp < 500 \<and> dr_status resp \<noteq> 429) \<and>
    (case e of
       RateLimitError (Some d) \<Rightarrow> dr_status resp = 429 \<and> ParseRetryAfter parse_http (dr_retryAfter resp) now = Some d \<and>
         (d > 0 \<longrightarrow> computeBackoff cfg draw e attempt = d)
     | _ \<Rightarrow> 0 \<le> computeBackoff cfg draw e attempt \<and>
         computeBackoff cfg draw e attempt \<le> min (gc_InitialBackoff cfg * 2 ^ nat attempt) (gc_MaxBackoff cfg))"
  using assms(1) jittered_range [OF assms(2-)]
  by (auto simp: handleRegistrationResponse_def computeBackoff_def ErrNonRetryable_code split: if_splits option.splits)

theorem registration_wait_witness:
  "handleRegistrationResponse (\<lambda>_. None) 0 \<lparr>dr_status = 429, dr_agentID = None, dr_retryAfter = ''7''\<rparr> = Inl (RateLimitError (Some (7 * ns_per_s))) \<and>
   computeBackoff sample_rcfg 0 (RateLimitError (Some (7 * ns_per_s))) 3 = 7 * ns_per_s"
proof -
  have run: "handleRegistrationResponse (\<lambda>_. None) 0 \<lparr>dr_status = 429, dr_agentID = None, dr_retryAfter = ''7''\<rparr> =
      Inl (RateLimitError (Some (7 * ns_per_s)))"
    by (simp add: handleRegistrationResponse_def)
  show ?thesis using registration_wait [OF run, of sample_rcfg 0 3] run by (simp add: sample_rcfg_def)
qed

section \<open>The prerequisite gate\<close>

text \<open>The gate and the payload read the lister separately: when the last provider becomes unavailable in between, the
  initial registration is sent with an empty list of service types.\<close>

lemma initial_registration_may_be_empty:
  "\<exists>g p. registrar_reach sample_rcfg (\<lambda>_. None) NoAuth g \<and> \<not> g_registered g \<and> map dq_body (g_sent g) = [RegistrationBody p] \<and> rp_ServiceTypes p = []"
proof -
  let ?reach = "registrar_reach sample_rcfg (\<lambda>_. None) NoAuth"
  let ?g = "NewRegistrar NoAuth [''vm'']"
  let ?e = "?g\<lparr>g_types := [], g_unsignalled := True\<rparr>"
  let ?p = "buildPayload sample_rcfg None []"
  let ?sent = "[\<lparr>dq_method = ''POST'', dq_path = register_endpoint, dq_authorization = None, dq_body = RegistrationBody ?p\<rparr>]"
  have "?reach (?g\<lparr>g_phase := Gate\<rparr>)"
    by (rule reach_run [OF registrar_reach.init run_step.supervise]) (simp_all add: NewRegistrar_def)
  then have "?reach (?g\<lparr>g_phase := Trying True 0\<rparr>)"
    by (rule reach_run [OF _ run_step.gate]) (simp_all add: NewRegistrar_def)
  then have "?reach (?g\<lparr>g_phase := Trying True 0, g_types := [], g_unsignalled := True\<rparr>)"
    by (rule registrar_reach.step [OF _ registrar_step.change])
  then have "?reach (?e\<lparr>g_phase := Exchanging True 0 ?p\<rparr>)"
    by (rule reach_run [OF _ run_step.attempt]) (simp_all add: NewRegistrar_def)
  then have "?reach (?e\<lparr>g_phase := BackingOff True 1 (7 * ns_per_s), g_sent := ?sent\<rparr>)"
    by (rule reach_run [OF _ run_step.exchange [where x = "sample_exchange 429" and draw = 0]])
      (simp_all add: registrar_run_defs NewRegistrar_def, simp_all add: computeBackoff_def ErrNonRetryable_code)
  moreover have "rp_ServiceTypes ?p = []" by (simp add: buildPayload_def)
  moreover have "\<not> g_registered (?e\<lparr>g_phase := BackingOff True 1 (7 * ns_per_s), g_sent := ?sent\<rparr>)" by (simp add: NewRegistrar_def)
  moreover have "map dq_body (g_sent (?e\<lparr>g_phase := BackingOff True 1 (7 * ns_per_s), g_sent := ?sent\<rparr>)) = [RegistrationBody ?p]" by simp
  ultimately show ?thesis by (intro exI conjI)
qed

end
