(* ===== verification/Agent_Config.thy ===== *)
theory Agent_Config
  imports Messaging_Handlers Dcm_Registrar
begin

text \<open>
  \<open>internal/config\<close> and the parts of \<open>cmd/environment-agent/main.go\<close> that turn a configuration into the parameters of the
  components: the optional configuration file and its precedence, the validation in the order of the source, the choice of the
  token source, and the set-up of messaging and registrar.  The library that fills the configuration from environment
  variables and \<open>url.Parse\<close> are arguments.
\<close>

section \<open>Configuration\<close>

record server_config =
  sv_Address :: string
  sv_ShutdownTimeout :: duration
  sv_RequestTimeout :: duration

record provider_config =
  pv_EmbeddedSPs :: "string list"
  pv_PersistencePath :: string

record health_config =
  hc_CheckInterval :: duration
  hc_CheckTimeout :: duration
  hc_FailureThreshold :: int
  hc_PodConditionsEnabled :: string

record agent_config =
  ag_Name :: string
  ag_Environment :: string
  ag_Cost :: string

record dcm_config =
  dc_RegistrationURL :: string
  dc_InitialBackoff :: duration
  dc_MaxBackoff :: duration
  dc_RequestTimeout :: duration
  dc_PrerequisiteRetryInterval :: duration
  dc_AuthToken :: string
  dc_AuthTokenEndpoint :: string
  dc_AuthClientID :: string
  dc_AuthClientSecret :: string

record messaging_config =
  ms_URL :: string
  ms_TopicName :: string
  ms_AckWait :: duration
  ms_CancelAckWait :: duration
  ms_MaxDeliver :: int
  ms_ReconnectInitialBackoff :: duration
  ms_ReconnectMaxBackoff :: duration

record routing_config =
  rt_RetryMaxAttempts :: int
  rt_RetryBackoff :: duration
  rt_RetryMaxBackoff :: duration
  rt_DenyListMaxSize :: int
  rt_HandlerTimeout :: duration
  rt_CancelHandlerTimeout :: duration
  rt_NakDelay :: duration

record auth_config =
  au_Disabled :: bool
  au_IssuerURL :: string
  au_Audience :: string

record config =
  c_Server :: server_config
  c_Provider :: provider_config
  c_Health :: health_config
  c_Agent :: agent_config
  c_DefaultKubeconfig :: string
  c_DCM :: dcm_config
  c_HeartbeatInterval :: duration
  c_Messaging :: messaging_config
  c_Routing :: routing_config
  c_Auth :: auth_config

section \<open>Configuration file\<close>

datatype config_error =
    FileOpen
  | MalformedLine nat string
  | FileRead
  | EnvParse
  | Required string
  | OutOfRange string
  | InvalidCost string
  | IssuerRequired
  | PartialClientCredentials "string list"
  | EndpointInvalid
  | EndpointNotAbsolute
  | EndpointScheme string
  | HandlerTimeoutNotBelowAckWait
  | CancelHandlerTimeoutNotBelowAckWait

text \<open>\<open>strings.Cut\<close> at the first \<open>=\<close>.\<close>

definition cut_eq :: "string \<Rightarrow> (string \<times> string) option" where
  "cut_eq s =
     (case dropWhile (\<lambda>c. c \<noteq> CHR ''='') s of
        [] \<Rightarrow> None
      | _ # value \<Rightarrow> Some (takeWhile (\<lambda>c. c \<noteq> CHR ''='') s, value))"

fun scan_lines :: "nat \<Rightarrow> string list \<Rightarrow> (string \<rightharpoonup> string) \<Rightarrow> config_error + (string \<rightharpoonup> string)" where
  "scan_lines lineNum [] values = Inr values"
| "scan_lines lineNum (text # rest) values =
     (let line = trim_space text
      in if line = '''' \<or> prefix ''#'' line then scan_lines (Suc lineNum) rest values
         else case cut_eq line of
                None \<Rightarrow> Inl (MalformedLine (Suc lineNum) line)
              | Some (key, value) \<Rightarrow> scan_lines (Suc lineNum) rest (values(trim_space key \<mapsto> trim_space value)))"

text \<open>A file is the lines the scanner returns and whether it then stopped with an error; \<open>None\<close> when it cannot be opened.\<close>

definition loadConfigFile :: "(string list \<times> bool) option \<Rightarrow> config_error + (string \<rightharpoonup> string)" where
  "loadConfigFile f =
     (case f of
        None \<Rightarrow> Inl FileOpen
      | Some (lines, failed) \<Rightarrow>
          (case scan_lines 0 lines Map.empty of
             Inl e \<Rightarrow> Inl e
           | Inr values \<Rightarrow> if failed then Inl FileRead else Inr values))"

definition configFileEnvVar :: string where "configFileEnvVar = ''AGENT_CONFIG_FILE''"

definition Load :: "((string \<rightharpoonup> string) \<Rightarrow> config option) \<Rightarrow> (string \<Rightarrow> (string list \<times> bool) option) \<Rightarrow> (string \<rightharpoonup> string) \<Rightarrow>
    config_error + config" where
  "Load env_Parse files environ =
     (let parse = (\<lambda>envMap. case env_Parse envMap of None \<Rightarrow> Inl EnvParse | Some cfg \<Rightarrow> Inr cfg)
      in case environ configFileEnvVar of
           None \<Rightarrow> parse environ
         | Some path \<Rightarrow>
             if path = '''' then parse environ
             else case loadConfigFile (files path) of
                    Inl e \<Rightarrow> Inl e
                  | Inr fileValues \<Rightarrow> parse (\<lambda>k. case environ k of Some v \<Rightarrow> Some v | None \<Rightarrow> fileValues k))"

section \<open>Validation\<close>

definition validateRequired :: "string \<Rightarrow> string \<Rightarrow> config_error option" where
  "validateRequired envName value = (if trim_space value = '''' then Some (Required envName) else None)"

definition validateDurationRange :: "string \<Rightarrow> duration \<Rightarrow> duration \<Rightarrow> duration \<Rightarrow> config_error option" where
  "validateDurationRange envName val mn mx = (if val < mn \<or> val > mx then Some (OutOfRange envName) else None)"

definition int_range :: "string \<Rightarrow> int \<Rightarrow> int \<Rightarrow> int \<Rightarrow> config_error option" where
  "int_range envName val mn mx = (if val < mn \<or> val > mx then Some (OutOfRange envName) else None)"




text \<open>The checks run in order and the first error is returned.\<close>

fun first_error :: "'e option list \<Rightarrow> 'e option" where
  "first_error [] = None"
| "first_error (Some e # _) = Some e"
| "first_error (None # es) = first_error es"

abbreviation ms :: "int \<Rightarrow> duration" where "ms n \<equiv> n * 1000000"
abbreviation secs :: "int \<Rightarrow> duration" where "secs n \<equiv> n * ns_per_s"




definition UsesInsecureAuthEndpoint :: "(string \<Rightarrow> url option) \<Rightarrow> dcm_config \<Rightarrow> bool" where
  "UsesInsecureAuthEndpoint url_Parse d =
     (if dc_AuthTokenEndpoint d = '''' \<or> dc_AuthClientID d = '''' \<or> dc_AuthClientSecret d = '''' then False
      else case url_Parse (dc_AuthTokenEndpoint d) of
             None \<Rightarrow> False
           | Some u \<Rightarrow> to_lower (u_scheme u) = ''http'')"

section \<open>Wiring\<close>








lemma first_error_None [simp]: "first_error es = None \<longleftrightarrow> list_all (\<lambda>e. e = None) es"
  by (induction es rule: first_error.induct) auto

lemma range_None [simp]:
  "validateDurationRange n v a b = None \<longleftrightarrow> a \<le> v \<and> v \<le> b" "int_range n v a b = None \<longleftrightarrow> a \<le> v \<and> v \<le> b"
  "validateRequired n s = None \<longleftrightarrow> trim_space s \<noteq> ''''"
  by (auto simp: validateDurationRange_def int_range_def validateRequired_def)



section \<open>Reading what was written\<close>

text \<open>Files as they are written: blank lines, comments, and settings with white space around the key and the value.\<close>

datatype file_line = BlankLine string | CommentLine string string | SettingLine string string string string string string

fun render_line :: "file_line \<Rightarrow> string" where
  "render_line (BlankLine w) = w"
| "render_line (CommentLine w text) = w @ ''#'' @ text"
| "render_line (SettingLine w1 key w2 w3 value w4) = w1 @ key @ w2 @ ''='' @ w3 @ value @ w4"

fun line_ok :: "file_line \<Rightarrow> bool" where
  "line_ok (BlankLine w) = list_all is_space w"
| "line_ok (CommentLine w text) = list_all is_space w"
| "line_ok (SettingLine w1 key w2 w3 value w4) =
     (list_all is_space (w1 @ w2 @ w3 @ w4) \<and> trim_space key = key \<and> trim_space value = value \<and> CHR ''='' \<notin> set key \<and> \<not> prefix ''#'' key)"

fun line_settings :: "file_line list \<Rightarrow> (string \<times> string) list" where
  "line_settings [] = []"
| "line_settings (SettingLine w1 key w2 w3 value w4 # ls) = (key, value) # line_settings ls"
| "line_settings (_ # ls) = line_settings ls"

lemma trim_right_snoc: "trim_right P (q @ [x]) = (if P x then trim_right P q else q @ [x])"
  by (simp add: trim_right_def)

lemma trim_right_dropWhile: "dropWhile P (trim_right P q) = trim_right P (dropWhile P q)"
proof (induction q rule: rev_induct)
  case Nil
  then show ?case by (simp add: trim_right_def)
next
  case (snoc x q)
  show ?case
  proof (cases "P x")
    case True
    show ?thesis
    proof (cases "\<forall>y\<in>set q. P y")
      case all: True
      then have "dropWhile P q = []" "dropWhile P (q @ [x]) = []" using True by simp_all
      then show ?thesis using snoc.IH True by (simp only: trim_right_snoc if_True)
    next
      case False
      then have "dropWhile P (q @ [x]) = dropWhile P q @ [x]" by (simp add: dropWhile_append)
      then show ?thesis using snoc.IH True by (simp add: trim_right_snoc)
    qed
  next
    case False
    then show ?thesis
      by (cases "\<forall>y\<in>set q. P y") (auto simp: trim_right_snoc dropWhile_append, auto simp: trim_right_def)
  qed
qed

lemma trim_right_idem [simp]: "trim_right P (trim_right P s) = trim_right P s"
  by (simp add: trim_right_def)

lemma trim_space_left [simp]: "trim_space (dropWhile is_space s) = trim_space s"
  by (simp add: trim_space_def)

lemma trim_space_right [simp]: "trim_space (trim_right is_space s) = trim_space s"
  by (simp add: trim_space_def trim_right_dropWhile)

lemma trim_right_spaces: "list_all is_space w \<Longrightarrow> trim_right is_space (s @ w) = trim_right is_space s"
  using dropWhile_append2 [of "rev w" is_space "rev s"] by (simp add: trim_right_def list_all_iff)

lemma trim_space_pad: "list_all is_space w \<Longrightarrow> list_all is_space w' \<Longrightarrow> trim_space (w @ s @ w') = trim_space s"
proof -
  assume w: "list_all is_space w" "list_all is_space w'"
  have "trim_space (w @ s @ w') = trim_space (s @ w')"
    using w(1) by (simp add: trim_space_def dropWhile_append2 list_all_iff)
  also have "\<dots> = trim_space s" by (metis trim_right_spaces trim_space_right w(2))
  finally show ?thesis .
qed

lemma trim_space_cut:
  assumes "\<not> is_space x"
  shows "trim_space (p @ x # q) = dropWhile is_space p @ x # trim_right is_space q"
proof -
  have "dropWhile is_space (p @ x # q) = dropWhile is_space p @ x # q"
    using assms by (induction p) auto
  moreover have "trim_right is_space (r @ x # q) = r @ x # trim_right is_space q" for r
  proof -
    have "dropWhile is_space (l @ x # rev r) = dropWhile is_space l @ x # rev r" for l using assms by (induction l) auto
    then show ?thesis by (simp add: trim_right_def)
  qed
  ultimately show ?thesis by (simp add: trim_space_def)
qed

lemma cut_eq_append: "CHR ''='' \<notin> set p \<Longrightarrow> cut_eq (p @ CHR ''='' # q) = Some (p, q)"
  by (induction p) (auto simp: cut_eq_def split: list.splits)

lemma setting_line:
  assumes "line_ok (SettingLine w1 key w2 w3 value w4)"
  shows "\<exists>k v. cut_eq (trim_space (render_line (SettingLine w1 key w2 w3 value w4))) = Some (k, v) \<and> trim_space k = key \<and> trim_space v = value"
    "\<not> prefix ''#'' (trim_space (render_line (SettingLine w1 key w2 w3 value w4)))"
    "trim_space (render_line (SettingLine w1 key w2 w3 value w4)) \<noteq> ''''"
proof -
  have eq: "\<not> is_space (CHR ''='')" by (simp add: is_space_def)
  have line: "trim_space (render_line (SettingLine w1 key w2 w3 value w4)) =
      dropWhile is_space (w1 @ key @ w2) @ CHR ''='' # trim_right is_space (w3 @ value @ w4)"
    using trim_space_cut [OF eq, of "w1 @ key @ w2" "w3 @ value @ w4"] by simp
  have none: "CHR ''='' \<notin> set (dropWhile is_space (w1 @ key @ w2))"
    using assms eq by (auto simp: list_all_iff dest: set_dropWhileD)
  have "trim_space (dropWhile is_space (w1 @ key @ w2)) = key" "trim_space (trim_right is_space (w3 @ value @ w4)) = value"
    using assms by (simp_all add: trim_space_pad)
  then show "\<exists>k v. cut_eq (trim_space (render_line (SettingLine w1 key w2 w3 value w4))) = Some (k, v) \<and> trim_space k = key \<and> trim_space v = value"
    unfolding line by (simp add: cut_eq_append [OF none])
  show "trim_space (render_line (SettingLine w1 key w2 w3 value w4)) \<noteq> ''''" unfolding line by simp
  have "dropWhile is_space (w1 @ key @ w2) = dropWhile is_space (key @ w2)"
    using assms by (simp add: dropWhile_append2 list_all_iff)
  moreover have "dropWhile is_space (key @ w2) = (if key = '''' then [] else key @ w2)"
  proof (cases key)
    case (Cons c cs)
    have "\<not> is_space c"
    proof
      assume "is_space c"
      then have "length (trim_space key) \<le> length cs"
        using Cons by (simp add: trim_space_def trim_right_def length_dropWhile_le le_trans [OF length_dropWhile_le])
      then show False using assms Cons by simp
    qed
    then show ?thesis using Cons by simp
  qed (use assms in \<open>simp add: list_all_iff\<close>)
  ultimately show "\<not> prefix ''#'' (trim_space (render_line (SettingLine w1 key w2 w3 value w4)))"
    unfolding line using assms by (cases key) (auto simp del: dropWhile_eq_Nil_conv)
qed

lemma scan_rendered:
  assumes "list_all line_ok ls"
  shows "scan_lines n (map render_line ls) m = Inr (\<lambda>k. case map_of (rev (line_settings ls)) k of None \<Rightarrow> m k | Some v \<Rightarrow> Some v)"
  using assms
proof (induction ls arbitrary: n m)
  case Nil
  then show ?case by simp
next
  case (Cons l ls)
  show ?case
  proof (cases l)
    case (BlankLine w)
    then have "trim_space (render_line l) = ''''" using Cons.prems by (simp add: trim_space_def trim_right_def dropWhile_eq_Nil_conv [THEN iffD2] list_all_iff)
    then show ?thesis using Cons BlankLine by simp
  next
    case (CommentLine w cs)
    have "\<not> is_space (CHR ''#'')" by (simp add: is_space_def)
    from trim_space_cut [OF this, of w cs] have "prefix ''#'' (trim_space (render_line l))"
      using CommentLine Cons.prems by (simp add: dropWhile_eq_Nil_conv [THEN iffD2] list_all_iff)
    then show ?thesis using Cons CommentLine by (simp add: Let_def)
  next
    case (SettingLine w1 key w2 w3 vl w4)
    then have ok: "line_ok (SettingLine w1 key w2 w3 vl w4)" using Cons.prems by simp
    obtain k v where kv: "cut_eq (trim_space (render_line l)) = Some (k, v)" "trim_space k = key" "trim_space v = vl"
      using setting_line(1) [OF ok] SettingLine by blast
    have step: "scan_lines n (map render_line (l # ls)) m = scan_lines (Suc n) (map render_line ls) (m(key \<mapsto> vl))"
      using kv setting_line(2,3) [OF ok] SettingLine by (simp add: Let_def)
    show ?thesis
      unfolding step using Cons by (auto simp: SettingLine fun_eq_iff map_add_def split: option.splits)
  qed
qed

section \<open>Properties\<close>


text \<open>The defaults of the struct tags, with the required settings.\<close>

definition sample_config :: config where
  "sample_config =
     \<lparr>c_Server = \<lparr>sv_Address = '':8080'', sv_ShutdownTimeout = secs 15, sv_RequestTimeout = secs 30\<rparr>,
      c_Provider = \<lparr>pv_EmbeddedSPs = [], pv_PersistencePath = ''/var/lib/environment-agent/registrations''\<rparr>,
      c_Health = \<lparr>hc_CheckInterval = secs 10, hc_CheckTimeout = secs 5, hc_FailureThreshold = 3, hc_PodConditionsEnabled = ''auto''\<rparr>,
      c_Agent = \<lparr>ag_Name = ''a1'', ag_Environment = ''prod'', ag_Cost = ''low''\<rparr>, c_DefaultKubeconfig = '''',
      c_DCM = \<lparr>dc_RegistrationURL = ''u'', dc_InitialBackoff = secs 1, dc_MaxBackoff = secs 300, dc_RequestTimeout = secs 10,
        dc_PrerequisiteRetryInterval = secs 5, dc_AuthToken = ''t'', dc_AuthTokenEndpoint = '''', dc_AuthClientID = '''', dc_AuthClientSecret = ''''\<rparr>,
      c_HeartbeatInterval = secs 30,
      c_Messaging = \<lparr>ms_URL = ''nats'', ms_TopicName = '''', ms_AckWait = secs 120, ms_CancelAckWait = secs 10, ms_MaxDeliver = 10,
        ms_ReconnectInitialBackoff = secs 1, ms_ReconnectMaxBackoff = secs 30\<rparr>,
      c_Routing = \<lparr>rt_RetryMaxAttempts = 3, rt_RetryBackoff = secs 2, rt_RetryMaxBackoff = secs 30, rt_DenyListMaxSize = 100000,
        rt_HandlerTimeout = secs 60, rt_CancelHandlerTimeout = secs 5, rt_NakDelay = ms 500\<rparr>,
      c_Auth = \<lparr>au_Disabled = True, au_IssuerURL = '''', au_Audience = ''''\<rparr>\<rparr>"




text \<open>A configuration file is read back as it was written.  Blank lines, comments and white space around keys and values are
  immaterial, a later setting of a key overrides an earlier one, values may contain \<open>=\<close>, and a variable of the real
  environment always takes precedence over the file.\<close>

theorem Load_file:
  assumes "environ configFileEnvVar = Some path" "path \<noteq> ''''" "files path = Some (map render_line ls, False)" "list_all line_ok ls"
  shows "Load env_Parse files environ =
    (case env_Parse (map_of (rev (line_settings ls)) ++ environ) of None \<Rightarrow> Inl EnvParse | Some cfg \<Rightarrow> Inr cfg)"
proof -
  have "loadConfigFile (files path) = Inr (map_of (rev (line_settings ls)))"
    using scan_rendered [OF assms(4), of 0 Map.empty] assms(3) by (auto simp: loadConfigFile_def fun_eq_iff split: option.splits)
  moreover have "(\<lambda>k. case environ k of Some v \<Rightarrow> Some v | None \<Rightarrow> map_of (rev (line_settings ls)) k) = map_of (rev (line_settings ls)) ++ environ"
    by (auto simp: map_add_def fun_eq_iff split: option.splits)
  ultimately show ?thesis using assms(1,2) by (simp add: Load_def Let_def)
qed

theorem Load_file_witness:
  "Load (\<lambda>e. if e ''AGENT_COST'' = Some ''high'' \<and> e ''K'' = Some ''a=b'' then Some sample_config else None)
     (\<lambda>_. Some ([''# costs'', '''', '' AGENT_COST = low '', ''K=a=b''], False))
     [configFileEnvVar \<mapsto> ''f'', ''AGENT_COST'' \<mapsto> ''high''] = Inr sample_config"
proof -
  let ?ls = "[CommentLine '''' '' costs'', BlankLine '''', SettingLine '' '' ''AGENT_COST'' '' '' '' '' ''low'' '' '',
      SettingLine '''' ''K'' '''' '''' ''a=b'' '''']"
  have ls: "map render_line ?ls = [''# costs'', '''', '' AGENT_COST = low '', ''K=a=b'']" "list_all line_ok ?ls"
    by (simp_all add: trim_space_def trim_right_def is_space_def)
  show ?thesis
    using Load_file [of "[configFileEnvVar \<mapsto> ''f'', ''AGENT_COST'' \<mapsto> ''high'']" "''f''"
        "\<lambda>_. Some ([''# costs'', '''', '' AGENT_COST = low '', ''K=a=b''], False)" ?ls] ls
    by (simp add: configFileEnvVar_def map_add_def)
qed

end
