(* ===== verification/Http_Server.thy ===== *)
theory Http_Server
  imports Agent_Prelude
begin

text \<open>
  The HTTP layer: problem responses (\<open>internal/httperror\<close>), the request context (\<open>internal/requestctx\<close>), bearer-token
  authentication (\<open>internal/auth\<close>) and the middleware chain of \<open>internal/apiserver\<close>.  A handler takes the context and the request
  and returns the application state, the operations it performed on its response writer, and whether it panicked.  JSON bodies
  are their decoded values; a problem document consists of strings and numbers and always marshals.  The OIDC
  verifier, the clock and the expiry of a request's deadline are arguments.
\<close>

section \<open>Problems\<close>

datatype error_type =
    INVALIDARGUMENT | UNAUTHENTICATED | PERMISSIONDENIED | NOTFOUND | ALREADYEXISTS | UNPROCESSABLEENTITY | INTERNAL | UNAVAILABLE
  | OtherErrorType string

record 'd problem =
  pf_Type :: error_type
  pf_Status :: int
  pf_Title :: string
  pf_Detail :: 'd

definition InternalTitle :: string where "InternalTitle = ''Internal Server Error''"
definition InternalDetail :: string where "InternalDetail = ''An unexpected internal error occurred''"

fun mapErrorType :: "error_type \<Rightarrow> int \<times> string" where
  "mapErrorType INVALIDARGUMENT = (400, ''Invalid argument'')"
| "mapErrorType UNAUTHENTICATED = (401, ''Unauthenticated'')"
| "mapErrorType PERMISSIONDENIED = (403, ''Permission denied'')"
| "mapErrorType NOTFOUND = (404, ''Not found'')"
| "mapErrorType ALREADYEXISTS = (409, ''Already exists'')"
| "mapErrorType UNPROCESSABLEENTITY = (422, ''Unprocessable entity'')"
| "mapErrorType INTERNAL = (500, InternalTitle)"
| "mapErrorType UNAVAILABLE = (503, ''Service unavailable'')"
| "mapErrorType (OtherErrorType _) = (500, InternalTitle)"

definition ErrorType_Valid :: "error_type \<Rightarrow> bool" where
  "ErrorType_Valid t = (case t of OtherErrorType _ \<Rightarrow> False | _ \<Rightarrow> True)"

text \<open>The detail of a problem is a fixed text or the text of an error.\<close>

datatype 'e detail = Fixed string | ErrorText 'e

definition Problem :: "error_type \<Rightarrow> 'e detail \<Rightarrow> 'e detail problem" where
  "Problem errType dt =
     (let errType = (if \<not> ErrorType_Valid errType then INTERNAL else errType); m = mapErrorType errType
      in \<lparr>pf_Type = errType, pf_Status = fst m, pf_Title = snd m, pf_Detail = (if errType = INTERNAL then Fixed InternalDetail else dt)\<rparr>)"

section \<open>Response writers\<close>

datatype ('e, 'b) body = ProblemBody "'e detail problem" "string option" | ApiBody 'b

datatype ('e, 'b) wop = SetHeader string string | AddHeader string string | WriteHeader int | WriteBody "('e, 'b) body"

definition WriteType :: "error_type \<Rightarrow> 'e detail \<Rightarrow> string option \<Rightarrow> ('e, 'b) wop list" where
  "WriteType errType dt inst =
     (let p = Problem errType dt
      in [SetHeader ''Content-Type'' ''application/problem+json'', WriteHeader (pf_Status p), WriteBody (ProblemBody p inst)])"

text \<open>\<open>bufferedResponseWriter\<close>; the writer of the server behaves in the same way.\<close>

record ('e, 'b) writer =
  wr_header :: "(string \<times> string) list"
  wr_body :: "('e, 'b) body list"
  wr_code :: int
  wr_wroteHeader :: bool

definition new_writer :: "('e, 'b) writer" where
  "new_writer = \<lparr>wr_header = [], wr_body = [], wr_code = 0, wr_wroteHeader = False\<rparr>"

fun bw_op :: "('e, 'b) writer \<Rightarrow> ('e, 'b) wop \<Rightarrow> ('e, 'b) writer" where
  "bw_op w (SetHeader k v) = w\<lparr>wr_header := filter (\<lambda>kv. fst kv \<noteq> k) (wr_header w) @ [(k, v)]\<rparr>"
| "bw_op w (AddHeader k v) = w\<lparr>wr_header := wr_header w @ [(k, v)]\<rparr>"
| "bw_op w (WriteHeader c) = (if wr_wroteHeader w then w else w\<lparr>wr_code := c, wr_wroteHeader := True\<rparr>)"
| "bw_op w (WriteBody b) =
     (let w = (if wr_wroteHeader w then w else w\<lparr>wr_code := 200, wr_wroteHeader := True\<rparr>)
      in w\<lparr>wr_body := wr_body w @ [b]\<rparr>)"

definition written :: "('e, 'b) wop list \<Rightarrow> ('e, 'b) writer" where
  "written ops = foldl bw_op new_writer ops"

definition flushTo :: "('e, 'b) writer \<Rightarrow> ('e, 'b) wop list" where
  "flushTo w = map (\<lambda>(k, v). AddHeader k v) (wr_header w) @ (if wr_code w > 0 then [WriteHeader (wr_code w)] else []) @ map WriteBody (wr_body w)"

text \<open>\<open>statusRecordingResponseWriter\<close>: the recorded code, and what reaches the writer it wraps.\<close>

fun sr_op :: "int \<times> bool \<times> ('e, 'b) wop list \<Rightarrow> ('e, 'b) wop \<Rightarrow> int \<times> bool \<times> ('e, 'b) wop list" where
  "sr_op (code, wrote, out) (WriteHeader c) = (if wrote then (code, wrote, out) else (c, True, out @ [WriteHeader c]))"
| "sr_op (code, wrote, out) (WriteBody b) = (if wrote then (code, wrote, out @ [WriteBody b]) else (200, True, out @ [WriteBody b]))"
| "sr_op (code, wrote, out) op = (code, wrote, out @ [op])"

definition recorded :: "('e, 'b) wop list \<Rightarrow> int \<times> bool \<times> ('e, 'b) wop list" where
  "recorded ops = foldl sr_op (200, False, []) ops"

text \<open>What the client gets when the handler of the server has returned.\<close>

definition delivered_status :: "('e, 'b) wop list \<Rightarrow> int" where
  "delivered_status ops = (let w = written ops in if wr_wroteHeader w then wr_code w else 200)"

section \<open>Requests and their context\<close>

record server_request =
  rq_Method :: string
  rq_Path :: string
  rq_URI :: string
  rq_Authorization :: string

record jwt_claims =
  jc_Subject :: string
  jc_PreferredUsername :: string

record req_context =
  cx_URI :: "string option"
  cx_hasOutcome :: bool
  cx_Claims :: "jwt_claims option"

record outcome =
  oc_Status :: int
  oc_Claims :: "jwt_claims option"

record audit_entry =
  ad_method :: string
  ad_path :: string
  ad_status :: int
  ad_claims :: "jwt_claims option"

datatype 'e ending = Returned | Panicked 'e | Aborted

record 's serving =
  q_app :: 's
  q_outcome :: outcome
  q_audit :: "audit_entry list"

type_synonym ('s, 'e, 'b) handler = "req_context \<Rightarrow> server_request \<Rightarrow> 's serving \<Rightarrow> 's serving \<times> ('e, 'b) wop list \<times> 'e ending"

definition requestctx_Middleware :: "('s, 'e, 'b) handler \<Rightarrow> ('s, 'e, 'b) handler" where
  "requestctx_Middleware nxt ctx r q =
     nxt (ctx\<lparr>cx_URI := Some (rq_URI r), cx_hasOutcome := True\<rparr>) r (q\<lparr>q_outcome := \<lparr>oc_Status = 0, oc_Claims = None\<rparr>\<rparr>)"

section \<open>Authentication\<close>

definition healthPath :: string where "healthPath = ''/api/v1alpha1/health''"
definition invalidTokenDetail :: string where "invalidTokenDetail = ''invalid Bearer token''"

datatype bearer_error = MissingHeader | NotBearer | EmptyToken

definition ExtractBearerToken :: "server_request \<Rightarrow> bearer_error + string" where
  "ExtractBearerToken r =
     (let authHeader = rq_Authorization r; bearerPrefix = ''bearer ''
      in if authHeader = '''' then Inl MissingHeader
         else if length authHeader < length bearerPrefix \<or> to_lower (take (length bearerPrefix) authHeader) \<noteq> to_lower bearerPrefix
         then Inl NotBearer
         else let token = drop (length bearerPrefix) authHeader
              in if token = '''' then Inl EmptyToken else Inr token)"

text \<open>What the OIDC library answers for a raw token: the subject, and the decoded username claim if the claims decode.\<close>

definition OIDCValidator_Validate :: "(string \<Rightarrow> (string \<times> string option) option) \<Rightarrow> string \<Rightarrow> jwt_claims option" where
  "OIDCValidator_Validate verify rawToken =
     (case verify rawToken of
        None \<Rightarrow> None
      | Some (subject, None) \<Rightarrow> None
      | Some (subject, Some username) \<Rightarrow> Some \<lparr>jc_Subject = subject, jc_PreferredUsername = username\<rparr>)"

definition writeAuthError :: "req_context \<Rightarrow> 's serving \<Rightarrow> string \<Rightarrow> 's serving \<times> ('e, 'b) wop list \<times> 'e ending" where
  "writeAuthError ctx q dt =
     ((if cx_hasOutcome ctx then q\<lparr>q_outcome := (q_outcome q)\<lparr>oc_Status := 401\<rparr>\<rparr> else q),
      SetHeader ''WWW-Authenticate'' ''Bearer'' # WriteType UNAUTHENTICATED (Fixed dt) (cx_URI ctx), Returned)"

definition auth_Middleware :: "(string \<Rightarrow> jwt_claims option) \<Rightarrow> ('s, 'e, 'b) handler \<Rightarrow> ('s, 'e, 'b) handler" where
  "auth_Middleware Validate nxt ctx r q =
     (if rq_Method r = ''GET'' \<and> rq_Path r = healthPath then nxt ctx r q
      else case ExtractBearerToken r of
             Inl e \<Rightarrow> writeAuthError ctx q invalidTokenDetail
           | Inr token \<Rightarrow>
               (case Validate token of
                  None \<Rightarrow> writeAuthError ctx q invalidTokenDetail
                | Some claims \<Rightarrow> nxt (ctx\<lparr>cx_Claims := Some claims\<rparr>) r q))"

definition DisabledMiddleware :: "('s, 'e, 'b) handler \<Rightarrow> ('s, 'e, 'b) handler" where
  "DisabledMiddleware nxt = nxt"

definition LogRequest :: "req_context \<Rightarrow> server_request \<Rightarrow> int \<Rightarrow> 's serving \<Rightarrow> 's serving" where
  "LogRequest ctx r status q =
     q\<lparr>q_audit := q_audit q @ [\<lparr>ad_method = rq_Method r, ad_path = rq_Path r, ad_status = status, ad_claims = cx_Claims ctx\<rparr>]\<rparr>"

section \<open>Middleware\<close>

definition PanicRecovery :: "('s, 'e, 'b) handler \<Rightarrow> ('s, 'e, 'b) handler" where
  "PanicRecovery nxt ctx r q =
     (case nxt ctx r q of
        (q, ops, Panicked p) \<Rightarrow> (q, ops @ WriteType INTERNAL (ErrorText p) (Some (rq_URI r)), Returned)
      | res \<Rightarrow> res)"

definition RequestLogger :: "('s, 'e, 'b) handler \<Rightarrow> ('s, 'e, 'b) handler" where
  "RequestLogger nxt ctx r q =
     (case nxt ctx r q of
        (q, ops, e) \<Rightarrow>
          let (code, _, out) = recorded ops; code = (if e \<noteq> Returned then 500 else code)
          in (if cx_hasOutcome ctx
              then q\<lparr>q_outcome := \<lparr>oc_Status = code,
                                   oc_Claims = (case cx_Claims ctx of None \<Rightarrow> oc_Claims (q_outcome q) | Some c \<Rightarrow> Some c)\<rparr>\<rparr>
              else q,
              out, e))"

definition detailRequestTimeout :: string where "detailRequestTimeout = ''request timeout exceeded''"

text \<open>\<open>expired\<close> tells whether the deadline of a positive timeout has passed when the inner handler returns.\<close>

definition logOutcome :: "req_context \<Rightarrow> server_request \<Rightarrow> int \<Rightarrow> 's serving \<Rightarrow> 's serving" where
  "logOutcome ctx r status q =
     LogRequest (case (cx_hasOutcome ctx, oc_Claims (q_outcome q)) of (True, Some c) \<Rightarrow> ctx\<lparr>cx_Claims := Some c\<rparr> | _ \<Rightarrow> ctx) r status q"

definition RequestTimeout :: "int \<Rightarrow> bool \<Rightarrow> ('s, 'e, 'b) handler \<Rightarrow> ('s, 'e, 'b) handler" where
  "RequestTimeout timeout expired nxt ctx r q =
     (case nxt ctx r q of
        (q, ops, e) \<Rightarrow>
          let recorded_status = (\<lambda>default. if cx_hasOutcome ctx \<and> oc_Status (q_outcome q) \<noteq> 0 then oc_Status (q_outcome q) else default);
              buf = written ops
          in if e \<noteq> Returned then (logOutcome ctx r (recorded_status 500) q, [], e)
             else if timeout > 0 \<and> expired
             then (logOutcome ctx r 503 q, WriteType UNAVAILABLE (Fixed detailRequestTimeout) (Some (rq_URI r)), Returned)
             else (logOutcome ctx r (recorded_status (wr_code buf)) q, flushTo buf, Returned))"

text \<open>The order of the \<open>Use\<close> calls of \<open>Server.Run\<close>.\<close>

definition server_chain :: "int \<Rightarrow> bool \<Rightarrow> (('s, 'e, 'b) handler \<Rightarrow> ('s, 'e, 'b) handler) \<Rightarrow> ('s, 'e, 'b) handler \<Rightarrow> ('s, 'e, 'b) handler" where
  "server_chain timeout expired authMW inner =
     PanicRecovery (requestctx_Middleware (RequestTimeout timeout expired (authMW (RequestLogger inner))))"

text \<open>The application behind the chain only has its own state.\<close>

type_synonym ('s, 'e, 'b) app = "req_context \<Rightarrow> server_request \<Rightarrow> 's \<Rightarrow> 's \<times> ('e, 'b) wop list \<times> 'e ending"

definition serve_app :: "('s, 'e, 'b) app \<Rightarrow> ('s, 'e, 'b) handler" where
  "serve_app app ctx r q = (case app ctx r (q_app q) of (s, ops, e) \<Rightarrow> (q\<lparr>q_app := s\<rparr>, ops, e))"

definition valid_ops :: "('e, 'b) wop list \<Rightarrow> bool" where
  "valid_ops ops \<longleftrightarrow> list_all (\<lambda>op. case op of WriteHeader c \<Rightarrow> c > 0 | _ \<Rightarrow> True) ops"

section \<open>Writers\<close>

lemma written_snoc: "written (ops @ [op]) = bw_op (written ops) op"
  by (simp add: written_def)

lemma recorded_snoc: "recorded (ops @ [op]) = sr_op (recorded ops) op"
  by (simp add: recorded_def)

text \<open>The recorder sees the code the buffer keeps, and what it passes on has the same effect.\<close>

lemma recorded_written:
  assumes "recorded ops = (code, wrote, out)"
  shows "written out = written ops \<and> wr_wroteHeader (written ops) = wrote \<and> (if wrote then wr_code (written ops) = code else code = 200)"
  using assms
proof (induction ops arbitrary: code wrote out rule: rev_induct)
  case Nil
  then show ?case by (auto simp: recorded_def written_def new_writer_def)
next
  case (snoc op ops)
  obtain c w o' where r: "recorded ops = (c, w, o')" by (metis prod_cases3)
  note IH = snoc.IH [OF r]
  show ?case
    using snoc.prems IH unfolding recorded_snoc r
    by (cases op) (auto simp: written_snoc Let_def split: if_splits)
qed

lemma written_code_pos:
  assumes "valid_ops ops" "wr_wroteHeader (written ops)"
  shows "0 < wr_code (written ops)"
  using assms
proof (induction ops rule: rev_induct)
  case Nil
  then show ?case by (simp add: written_def new_writer_def)
next
  case (snoc op ops)
  then show ?case by (cases op) (auto simp: written_snoc valid_ops_def Let_def split: if_splits)
qed

lemma written_headers: "foldl bw_op w (map (\<lambda>(k, v). AddHeader k v) hs) = w\<lparr>wr_header := wr_header w @ hs\<rparr>"
  by (induction hs arbitrary: w) auto

lemma written_bodies:
  "wr_wroteHeader w \<Longrightarrow> foldl bw_op w (map WriteBody bs) = w\<lparr>wr_body := wr_body w @ bs\<rparr>"
  by (induction bs arbitrary: w) (auto simp: Let_def)

lemma written_body_wrote: "wr_body (written ops) \<noteq> [] \<Longrightarrow> wr_wroteHeader (written ops)"
proof (induction ops rule: rev_induct)
  case (snoc op ops)
  then show ?case by (cases op) (auto simp: written_snoc Let_def split: if_splits)
qed (simp add: written_def new_writer_def)

lemma flushTo_delivered:
  assumes "valid_ops ops"
  shows "delivered_status (flushTo (written ops)) = delivered_status ops"
proof (cases "wr_wroteHeader (written ops)")
  case True
  then have pos: "0 < wr_code (written ops)" by (rule written_code_pos [OF assms])
  have "written (flushTo (written ops)) =
      \<lparr>wr_header = wr_header (written ops), wr_body = wr_body (written ops), wr_code = wr_code (written ops), wr_wroteHeader = True\<rparr>"
    using pos by (simp add: flushTo_def written_def [of "map _ _ @ _"] written_headers new_writer_def written_bodies)
  then show ?thesis using True by (simp add: delivered_status_def)
next
  case False
  then have "wr_body (written ops) = []" using written_body_wrote by blast
  moreover have "wr_code (written ops) = 0" using False
  proof (induction ops rule: rev_induct)
    case (snoc op ops)
    then show ?case by (cases op) (auto simp: written_snoc Let_def split: if_splits)
  qed (simp add: written_def new_writer_def)
  ultimately have "written (flushTo (written ops)) = new_writer\<lparr>wr_header := wr_header (written ops)\<rparr>"
    by (simp add: flushTo_def written_def [of "map _ _"] written_headers new_writer_def)
  then show ?thesis using False by (simp add: delivered_status_def new_writer_def)
qed

lemma WriteType_delivered: "delivered_status (WriteType t d i) = pf_Status (Problem t d)"
  by (simp add: delivered_status_def written_def WriteType_def new_writer_def Let_def)

lemma auth_error_delivered: "delivered_status (SetHeader k v # WriteType t d i) = pf_Status (Problem t d)"
  by (simp add: delivered_status_def written_def WriteType_def new_writer_def Let_def)

lemma problem_status [simp]: "pf_Status (Problem UNAUTHENTICATED d) = 401" "pf_Status (Problem UNAVAILABLE d) = 503" "pf_Status (Problem INTERNAL d) = 500"
  by (simp_all add: Problem_def ErrorType_Valid_def Let_def)

lemma WriteType_valid [simp]: "valid_ops (WriteType t d i)" "valid_ops (SetHeader k v # WriteType t d i)"
  by (cases t; simp add: valid_ops_def WriteType_def Problem_def ErrorType_Valid_def Let_def)+

section \<open>The chain\<close>

definition app_valid :: "('s, 'e, 'b) app \<Rightarrow> bool" where
  "app_valid app \<longleftrightarrow> (\<forall>ctx r s. valid_ops (fst (snd (app ctx r s))))"

text \<open>Below the timeout the outcome holds the status that will be delivered.\<close>

definition reports :: "'s serving \<times> ('e, 'b) wop list \<times> 'e ending \<Rightarrow> 's serving \<Rightarrow> jwt_claims option \<Rightarrow> bool" where
  "reports res q claims \<longleftrightarrow>
     (case res of (q1, ops, e) \<Rightarrow>
        q_audit q1 = q_audit q \<and> oc_Claims (q_outcome q1) = claims \<and>
        (if e = Returned then valid_ops ops \<and> oc_Status (q_outcome q1) = delivered_status ops \<and> 0 < delivered_status ops
         else oc_Status (q_outcome q1) = 500))"

lemma recorded_valid:
  assumes "valid_ops ops" "recorded ops = (code, wrote, out)"
  shows "valid_ops out"
  using assms
proof (induction ops arbitrary: code wrote out rule: rev_induct)
  case Nil
  then show ?case by (simp add: recorded_def)
next
  case (snoc op ops)
  obtain c w o' where r: "recorded ops = (c, w, o')" by (metis prod_cases3)
  have "valid_ops o'" using snoc.IH [OF _ r] snoc.prems by (simp add: valid_ops_def)
  then show ?case using snoc.prems unfolding recorded_snoc r by (cases op) (auto simp: valid_ops_def split: if_splits)
qed

lemma RequestLogger_reports:
  assumes "app_valid app" "cx_hasOutcome ctx" "oc_Claims (q_outcome q) = None"
  shows "reports (RequestLogger (serve_app app) ctx r q) q (cx_Claims ctx) \<and>
    q_app (fst (RequestLogger (serve_app app) ctx r q)) = fst (app ctx r (q_app q))"
proof -
  obtain s ops e where a: "app ctx r (q_app q) = (s, ops, e)" by (metis prod_cases3)
  obtain code wrote out where rec: "recorded ops = (code, wrote, out)" by (metis prod_cases3)
  have v: "valid_ops ops" using assms(1) a by (metis app_valid_def fst_conv snd_conv)
  note w = recorded_written [OF rec]
  have "delivered_status out = code" using w by (auto simp: delivered_status_def split: if_splits)
  moreover have "0 < code" using w written_code_pos [OF v] by (auto split: if_splits)
  ultimately show ?thesis
    using assms(2,3) recorded_valid [OF v rec] by (auto simp: RequestLogger_def serve_app_def a rec reports_def split: option.splits)
qed

lemma writeAuthError_reports:
  assumes "cx_hasOutcome ctx" "oc_Claims (q_outcome q) = None"
  shows "reports (writeAuthError ctx q d :: 's serving \<times> ('e, 'b) wop list \<times> 'e ending) q None"
  using assms by (simp add: reports_def writeAuthError_def auth_error_delivered)

lemma RequestTimeout_audit:
  assumes "nxt ctx r q = (q1, ops, e)" "reports (q1, ops, e) q claims" "cx_hasOutcome ctx" "cx_Claims ctx = None"
    and "RequestTimeout timeout expired nxt ctx r q = (q', ops', e')"
  shows "e' = e \<and> q_app q' = q_app q1 \<and> valid_ops ops' \<and> (e \<noteq> Returned \<longrightarrow> ops' = []) \<and>
    (\<exists>status. q_audit q' = q_audit q @ [\<lparr>ad_method = rq_Method r, ad_path = rq_Path r, ad_status = status, ad_claims = claims\<rparr>] \<and>
       status = (if e = Returned then delivered_status ops' else 500)) \<and>
    (e = Returned \<longrightarrow> delivered_status ops' = (if timeout > 0 \<and> expired then 503 else delivered_status ops))"
proof -
  have log: "q_audit (logOutcome ctx r st q1) = q_audit q @ [\<lparr>ad_method = rq_Method r, ad_path = rq_Path r, ad_status = st, ad_claims = claims\<rparr>]"
    "q_app (logOutcome ctx r st q1) = q_app q1" for st
    using assms(2,3,4) by (auto simp: logOutcome_def LogRequest_def reports_def split: option.splits)
  have valid: "valid_ops (flushTo (written ops))" if "valid_ops ops"
    by (auto simp: valid_ops_def flushTo_def list_all_iff)
  consider (panic) "e \<noteq> Returned" | (late) "e = Returned" "timeout > 0 \<and> expired" | (flush) "e = Returned" "\<not> (timeout > 0 \<and> expired)"
    by blast
  then show ?thesis
  proof cases
    case panic
    then show ?thesis using assms log by (auto simp: RequestTimeout_def reports_def Let_def valid_ops_def)
  next
    case late
    then show ?thesis using assms log by (auto simp: RequestTimeout_def reports_def Let_def WriteType_delivered)
  next
    case flush
    then have "flushTo (written ops) = ops'" "logOutcome ctx r (delivered_status ops) q1 = q'" "e' = Returned"
      using assms(1,2,3,5) by (auto simp: RequestTimeout_def reports_def Let_def)
    then show ?thesis using flush assms(2) log valid flushTo_delivered [of ops] by (auto simp: reports_def)
  qed
qed

section \<open>Properties\<close>

definition authorized :: "(string \<Rightarrow> jwt_claims option) \<Rightarrow> server_request \<Rightarrow> bool" where
  "authorized Validate r \<longleftrightarrow> rq_Method r = ''GET'' \<and> rq_Path r = healthPath \<or>
     (case ExtractBearerToken r of Inl _ \<Rightarrow> False | Inr token \<Rightarrow> Validate token \<noteq> None)"

definition identity :: "(string \<Rightarrow> jwt_claims option) \<Rightarrow> server_request \<Rightarrow> jwt_claims option" where
  "identity Validate r =
     (if rq_Method r = ''GET'' \<and> rq_Path r = healthPath then None
      else case ExtractBearerToken r of Inl _ \<Rightarrow> None | Inr token \<Rightarrow> Validate token)"

lemma auth_reports:
  assumes "app_valid app" "cx_hasOutcome ctx" "oc_Claims (q_outcome q) = None" "cx_Claims ctx = None"
  shows "reports (auth_Middleware V (RequestLogger (serve_app app)) ctx r q) q (identity V r) \<and>
    q_app (fst (auth_Middleware V (RequestLogger (serve_app app)) ctx r q)) =
      (if authorized V r then fst (app (ctx\<lparr>cx_Claims := identity V r\<rparr>) r (q_app q)) else q_app q) \<and>
    (\<not> authorized V r \<longrightarrow> auth_Middleware V (RequestLogger (serve_app app)) ctx r q = writeAuthError ctx q invalidTokenDetail)"
proof -
  have "ctx\<lparr>cx_Claims := None\<rparr> = ctx" using assms(4) by simp
  then have same: "fst (app (ctx\<lparr>cx_Claims := None\<rparr>) r (q_app q)) = fst (app ctx r (q_app q))" by (simp only:)
  consider (health) "rq_Method r = ''GET'' \<and> rq_Path r = healthPath"
    | (bad) "\<not> (rq_Method r = ''GET'' \<and> rq_Path r = healthPath)" "\<not> authorized V r"
    | (good) token claims where "\<not> (rq_Method r = ''GET'' \<and> rq_Path r = healthPath)" "ExtractBearerToken r = Inr token" "V token = Some claims"
    by (cases "authorized V r"; cases "ExtractBearerToken r") (auto simp: authorized_def)
  then show ?thesis
  proof cases
    case health
    then show ?thesis using RequestLogger_reports [OF assms(1-3), of r] assms(4) same
      by (simp add: auth_Middleware_def authorized_def identity_def)
  next
    case bad
    then have run: "auth_Middleware V (RequestLogger (serve_app app)) ctx r q = writeAuthError ctx q invalidTokenDetail"
      and i: "identity V r = None"
      by (auto simp: auth_Middleware_def authorized_def identity_def split: sum.splits option.splits)
    have "q_app (fst (writeAuthError ctx q invalidTokenDetail)) = q_app q" by (simp add: writeAuthError_def)
    then show ?thesis unfolding run i using bad writeAuthError_reports [OF assms(2,3), of invalidTokenDetail] by simp
  next
    case good
    then show ?thesis using RequestLogger_reports [OF assms(1), of "ctx\<lparr>cx_Claims := Some claims\<rparr>" q r] assms(2,3)
      by (auto simp: auth_Middleware_def authorized_def identity_def)
  qed
qed

lemma server_chain_run:
  assumes "app_valid app" "cx_Claims ctx = None"
    and "server_chain timeout expired (auth_Middleware V) (serve_app app) ctx r q = (q', ops, e)"
  shows "\<exists>ctx' status. cx_Claims ctx' = identity V r \<and>
    q_audit q' = q_audit q @ [\<lparr>ad_method = rq_Method r, ad_path = rq_Path r, ad_status = status, ad_claims = identity V r\<rparr>] \<and>
    (e = Returned \<longrightarrow> status = delivered_status ops) \<and> (\<forall>p. e \<noteq> Panicked p) \<and>
    q_app q' = (if authorized V r then fst (app ctx' r (q_app q)) else q_app q) \<and>
    (\<not> authorized V r \<longrightarrow> e = Returned \<and> delivered_status ops = (if timeout > 0 \<and> expired then 503 else 401))"
proof -
  let ?ctx = "ctx\<lparr>cx_URI := Some (rq_URI r), cx_hasOutcome := True\<rparr>" and ?q = "q\<lparr>q_outcome := \<lparr>oc_Status = 0, oc_Claims = None\<rparr>\<rparr>"
  let ?auth = "auth_Middleware V (RequestLogger (serve_app app))"
  obtain q1 ops1 e1 where a: "?auth ?ctx r ?q = (q1, ops1, e1)" by (metis prod_cases3)
  obtain q2 ops2 e2 where t: "RequestTimeout timeout expired ?auth ?ctx r ?q = (q2, ops2, e2)" by (metis prod_cases3)
  have rep: "reports (q1, ops1, e1) ?q (identity V r)"
    and app: "q_app q1 = (if authorized V r then fst (app (?ctx\<lparr>cx_Claims := identity V r\<rparr>) r (q_app q)) else q_app q)"
    and bad: "\<not> authorized V r \<longrightarrow> (q1, ops1, e1) = writeAuthError ?ctx ?q invalidTokenDetail"
    using auth_reports [OF assms(1), of ?ctx ?q V r] assms(2) by (simp_all add: a)
  note out = RequestTimeout_audit [OF a rep _ _ t]
  have hyps: "cx_hasOutcome ?ctx" "cx_Claims ?ctx = None" using assms(2) by simp_all
  from out [OF hyps] have o: "e2 = e1" "q_app q2 = q_app q1" "e1 \<noteq> Returned \<Longrightarrow> ops2 = []"
    "q_audit q2 = q_audit q @ [\<lparr>ad_method = rq_Method r, ad_path = rq_Path r,
        ad_status = (if e1 = Returned then delivered_status ops2 else 500), ad_claims = identity V r\<rparr>]"
    "e1 = Returned \<Longrightarrow> delivered_status ops2 = (if timeout > 0 \<and> expired then 503 else delivered_status ops1)"
    by auto
  have res: "(q', ops, e) = (case e1 of Panicked p \<Rightarrow> (q2, ops2 @ WriteType INTERNAL (ErrorText p) (Some (rq_URI r)), Returned) | _ \<Rightarrow> (q2, ops2, e2))"
    using assms(3) t o(1) by (cases e1) (simp_all add: server_chain_def PanicRecovery_def requestctx_Middleware_def)
  have rejected: "e1 = Returned \<and> delivered_status ops1 = 401" if "\<not> authorized V r"
    using bad that by (simp add: writeAuthError_def auth_error_delivered)
  show ?thesis
  proof (intro exI [of _ "?ctx\<lparr>cx_Claims := identity V r\<rparr>"] exI [of _ "if e1 = Returned then delivered_status ops2 else 500"] conjI)
    show "e = Returned \<longrightarrow> (if e1 = Returned then delivered_status ops2 else 500) = delivered_status ops"
      using res o(1,3) by (cases e1) (simp_all add: WriteType_delivered)
    show "\<forall>p. e \<noteq> Panicked p" using res o(1) by (cases e1) simp_all
    show "q_audit q' = q_audit q @ [\<lparr>ad_method = rq_Method r, ad_path = rq_Path r,
        ad_status = (if e1 = Returned then delivered_status ops2 else 500), ad_claims = identity V r\<rparr>]"
      using res o(4) by (cases e1) simp_all
    show "q_app q' = (if authorized V r then fst (app (?ctx\<lparr>cx_Claims := identity V r\<rparr>) r (q_app q)) else q_app q)"
      using res o(2) app by (cases e1) simp_all
    show "\<not> authorized V r \<longrightarrow> e = Returned \<and> delivered_status ops = (if timeout > 0 \<and> expired then 503 else 401)"
      using res o(1,5) rejected by auto
  qed simp
qed

text \<open>C24: authentication cannot be bypassed.  A request without a bearer token that the validator accepts never reaches the
  application, whatever the method and path, except a \<open>GET\<close> of the health endpoint; it is answered with 401 (503 when its deadline has
  passed).  An accepted request reaches the application with exactly the validated identity.\<close>

theorem auth_enforced:
  assumes "app_valid app" "cx_Claims ctx = None"
    and "server_chain timeout expired (auth_Middleware Validate) (serve_app app) ctx r q = (q', ops, e)"
  shows "if authorized Validate r then \<exists>ctx'. cx_Claims ctx' = identity Validate r \<and> q_app q' = fst (app ctx' r (q_app q))
    else q_app q' = q_app q \<and> e = Returned \<and> delivered_status ops = (if timeout > 0 \<and> expired then 503 else 401)"
proof (cases "authorized Validate r")
  case True
  then show ?thesis using server_chain_run [OF assms] by auto
next
  case False
  then show ?thesis using server_chain_run [OF assms] by (simp only: if_False simp_thms) blast
qed

text \<open>C25: every request leaves exactly one audit record, with its method and path, the identity that was authenticated, and, unless
  the handler aborts the connection, the status that was really delivered: also after a rejected token, a panic, or a deadline that
  turned the answer into a 503.  No panic escapes the chain.\<close>

theorem audit_faithful:
  assumes "app_valid app" "cx_Claims ctx = None"
    and "server_chain timeout expired (auth_Middleware Validate) (serve_app app) ctx r q = (q', ops, e)"
  shows "\<exists>status. q_audit q' = q_audit q @ [\<lparr>ad_method = rq_Method r, ad_path = rq_Path r, ad_status = status, ad_claims = identity Validate r\<rparr>] \<and>
    (e = Returned \<longrightarrow> status = delivered_status ops) \<and> (\<forall>p. e \<noteq> Panicked p)"
  using server_chain_run [OF assms] by blast

text \<open>An application that counts its calls and panics.\<close>

definition sample_app :: "(nat, string, nat) app" where
  "sample_app ctx r n = (Suc n, [WriteBody (ApiBody n)], Panicked ''boom'')"

definition sample_ctx :: req_context where
  "sample_ctx = \<lparr>cx_URI = None, cx_hasOutcome = False, cx_Claims = None\<rparr>"

definition sample_validate :: "string \<Rightarrow> jwt_claims option" where
  "sample_validate token = (if token = ''secret'' then Some \<lparr>jc_Subject = ''s'', jc_PreferredUsername = ''u''\<rparr> else None)"

definition sample_request :: "string \<Rightarrow> server_request" where
  "sample_request auth = \<lparr>rq_Method = ''POST'', rq_Path = ''/api/v1alpha1/providers'', rq_URI = ''/api/v1alpha1/providers'', rq_Authorization = auth\<rparr>"

definition sample_serving :: "nat serving" where
  "sample_serving = \<lparr>q_app = 0, q_outcome = \<lparr>oc_Status = 0, oc_Claims = None\<rparr>, q_audit = []\<rparr>"

definition sample_http_run :: "string \<Rightarrow> nat serving \<times> (string, nat) wop list \<times> string ending" where
  "sample_http_run auth = server_chain 30 False (auth_Middleware sample_validate) (serve_app sample_app) sample_ctx (sample_request auth) sample_serving"

lemma sample_app_valid: "app_valid sample_app"
  by (simp add: app_valid_def sample_app_def valid_ops_def)

theorem auth_enforced_witness:
  "q_app (fst (sample_http_run ''Bearer wrong'')) = 0 \<and> delivered_status (fst (snd (sample_http_run ''Bearer wrong''))) = 401"
proof -
  obtain q' ops e where run: "server_chain 30 False (auth_Middleware sample_validate) (serve_app sample_app) sample_ctx (sample_request ''Bearer wrong'') sample_serving
      = (q', ops, e)" by (metis prod_cases3)
  have "\<not> authorized sample_validate (sample_request ''Bearer wrong'')" by code_simp
  moreover have "sample_http_run ''Bearer wrong'' = (q', ops, e)" unfolding sample_http_run_def by (rule run)
  ultimately show ?thesis using auth_enforced [OF sample_app_valid _ run] by (simp add: sample_ctx_def sample_serving_def)
qed

theorem audit_faithful_witness:
  "q_app (fst (sample_http_run ''bearer secret'')) = 1 \<and>
   (\<exists>entry. q_audit (fst (sample_http_run ''bearer secret'')) = [entry] \<and> ad_claims entry = Some \<lparr>jc_Subject = ''s'', jc_PreferredUsername = ''u''\<rparr>)"
proof -
  obtain q' ops e where run: "server_chain 30 False (auth_Middleware sample_validate) (serve_app sample_app) sample_ctx (sample_request ''bearer secret'') sample_serving
      = (q', ops, e)" by (metis prod_cases3)
  have i: "identity sample_validate (sample_request ''bearer secret'') = Some \<lparr>jc_Subject = ''s'', jc_PreferredUsername = ''u''\<rparr>" by code_simp
  have "q_app (fst (sample_http_run ''bearer secret'')) = 1" by code_simp
  moreover have "sample_http_run ''bearer secret'' = (q', ops, e)" unfolding sample_http_run_def by (rule run)
  ultimately show ?thesis using audit_faithful [OF sample_app_valid _ run] i by (auto simp: sample_ctx_def sample_serving_def)
qed

end
