(* ===== verification/Http_Api.thy ===== *)
theory Http_Api
  imports Http_Server Provider_Service
begin

text \<open>
  The REST API: \<open>internal/handler/handler.go\<close>, the strict-server glue of \<open>internal/api/server/server.gen.go\<close>, and \<open>health.Service\<close>,
  on top of the provider service.  The OpenAPI request validator with the router is an argument: it rejects a request or gives the
  operation with its decoded parameters and body.
\<close>

section \<open>Operations\<close>

record create_body =
  cb_Name :: string
  cb_Endpoint :: string
  cb_ServiceType :: string
  cb_SchemaVersion :: string
  cb_DisplayName :: "string option"
  cb_Operations :: "string list option"
  cb_Metadata :: "json option"

datatype api_call = GetHealthCall | CreateProviderCall "string option" create_body | ListProvidersCall | GetProviderCall string

datatype api_error = RequestInvalid string | InvalidField string validation_error | ServiceError svc_error

datatype api_body = HealthBody string string | ProviderBody api_provider | ListBody "api_provider list"

datatype api_response = JSONResponse int api_body | ProblemResponse int "api_error detail problem" "string option"

text \<open>\<open>DomainError.Code\<close>.\<close>

datatype domain_error_code = ErrCodeConflict | ErrCodeValidation | ErrCodeNotFound

fun domain_code :: "svc_error \<Rightarrow> domain_error_code option" where
  "domain_code (ConflictIDMismatch _ _) = Some ErrCodeConflict"
| "domain_code (ConflictIDInUse _ _) = Some ErrCodeConflict"
| "domain_code (ConflictSlot _) = Some ErrCodeConflict"
| "domain_code ValidationEmptyID = Some ErrCodeValidation"
| "domain_code (NotFoundID _) = Some ErrCodeNotFound"
| "domain_code (StoreError _) = None"

definition health_Status :: "bool \<Rightarrow> api_body" where
  "health_Status connected = HealthBody (if connected then ''healthy'' else ''unhealthy'') ''health''"

definition GetHealth :: "bool \<Rightarrow> api_error + api_response" where
  "GetHealth connected = Inr (JSONResponse 200 (health_Status connected))"

definition validationError :: "string \<Rightarrow> validation_error \<Rightarrow> string option \<Rightarrow> api_response" where
  "validationError field e inst = ProblemResponse 422 (Problem UNPROCESSABLEENTITY (ErrorText (InvalidField field e))) inst"

text \<open>The checks of \<open>CreateProvider\<close> in their order: the first that fails names its field.\<close>

definition create_checks :: "(string \<Rightarrow> url option) \<Rightarrow> string option \<Rightarrow> create_body \<Rightarrow> (string \<times> validation_error) option" where
  "create_checks url_Parse i body =
     (case Option.bind i ValidateProviderID of
        Some e \<Rightarrow> Some (''id'', e)
      | None \<Rightarrow>
          (case ValidateName (trim_space (cb_Name body)) of
             Some e \<Rightarrow> Some (''name'', e)
           | None \<Rightarrow>
               (case ValidateServiceType (trim_space (cb_ServiceType body)) of
                  Some e \<Rightarrow> Some (''service_type'', e)
                | None \<Rightarrow>
                    (case ValidateSchemaVersion (cb_SchemaVersion body) of
                       Some e \<Rightarrow> Some (''schema_version'', e)
                     | None \<Rightarrow> map_option (\<lambda>e. (''endpoint'', e)) (ValidateEndpoint url_Parse (cb_Endpoint body))))))"

definition create_input :: "string option \<Rightarrow> create_body \<Rightarrow> registration_input" where
  "create_input i body =
     \<lparr>in_Name = trim_space (cb_Name body), in_Endpoint = cb_Endpoint body, in_ServiceType = trim_space (cb_ServiceType body),
      in_SchemaVersion = cb_SchemaVersion body, in_DisplayName = cb_DisplayName body, in_ProviderID = i,
      in_Operations = cb_Operations body, in_Metadata = cb_Metadata body\<rparr>"

definition CreateProvider :: "svc_env \<Rightarrow> (string \<Rightarrow> url option) \<Rightarrow> string option \<Rightarrow> svc \<Rightarrow> string option \<Rightarrow> create_body \<Rightarrow>
    svc \<times> (api_error + api_response)" where
  "CreateProvider env url_Parse inst s i body =
     (case create_checks url_Parse i body of
        Some (field, e) \<Rightarrow> (s, Inr (validationError field e inst))
      | None \<Rightarrow>
          (case Register env s (create_input i body) of
             (s, Inl e) \<Rightarrow>
               (s, if domain_code e = Some ErrCodeConflict
                   then Inr (ProblemResponse 409 (Problem ALREADYEXISTS (ErrorText (ServiceError e))) inst)
                   else Inl (ServiceError e))
           | (s, Inr (result, isNew)) \<Rightarrow> (s, Inr (JSONResponse (if isNew then 201 else 200) (ProviderBody result)))))"

definition ListProviders :: "svc_env \<Rightarrow> svc \<Rightarrow> svc \<times> (api_error + api_response)" where
  "ListProviders env s =
     (case svc_List env s of
        (s, Inl e) \<Rightarrow> (s, Inl (ServiceError e))
      | (s, Inr providers) \<Rightarrow> (s, Inr (JSONResponse 200 (ListBody providers))))"

definition GetProvider :: "svc_env \<Rightarrow> string option \<Rightarrow> svc \<Rightarrow> string \<Rightarrow> svc \<times> (api_error + api_response)" where
  "GetProvider env inst s i =
     (case svc_Get env s i of
        (s, Inl e) \<Rightarrow>
          (s, if domain_code e = Some ErrCodeNotFound
              then Inr (ProblemResponse 404 (Problem NOTFOUND (ErrorText (ServiceError e))) inst)
              else Inl (ServiceError e))
      | (s, Inr result) \<Rightarrow> (s, Inr (JSONResponse 200 (ProviderBody result))))"

section \<open>The strict server\<close>

text \<open>An error goes to \<open>ResponseErrorHandlerFunc\<close>, a response object writes itself.\<close>

definition strict_write :: "server_request \<Rightarrow> api_error + api_response \<Rightarrow> (api_error, api_body) wop list" where
  "strict_write r res =
     (case res of
        Inl e \<Rightarrow> WriteType INTERNAL (ErrorText e) (Some (rq_URI r))
      | Inr (JSONResponse code b) \<Rightarrow> [SetHeader ''Content-Type'' ''application/json'', WriteHeader code, WriteBody (ApiBody b)]
      | Inr (ProblemResponse code p inst) \<Rightarrow>
          [SetHeader ''Content-Type'' ''application/problem+json'', WriteHeader code, WriteBody (ProblemBody p inst)])"

record api_env =
  ae_svc :: svc_env
  ae_url_Parse :: "string \<Rightarrow> url option"
  ae_connected :: bool
  ae_oapi :: "server_request \<Rightarrow> string + api_call"

definition api_dispatch :: "api_env \<Rightarrow> req_context \<Rightarrow> svc \<Rightarrow> api_call \<Rightarrow> svc \<times> (api_error + api_response)" where
  "api_dispatch env ctx s call =
     (case call of
        GetHealthCall \<Rightarrow> (s, GetHealth (ae_connected env))
      | CreateProviderCall i body \<Rightarrow> CreateProvider (ae_svc env) (ae_url_Parse env) (cx_URI ctx) s i body
      | ListProvidersCall \<Rightarrow> ListProviders (ae_svc env) s
      | GetProviderCall i \<Rightarrow> GetProvider (ae_svc env) (cx_URI ctx) s i)"

definition api_app :: "api_env \<Rightarrow> (svc, api_error, api_body) app" where
  "api_app env ctx r s =
     (case ae_oapi env r of
        Inl e \<Rightarrow> (s, WriteType INVALIDARGUMENT (ErrorText (RequestInvalid e)) (Some (rq_URI r)), Returned)
      | Inr call \<Rightarrow> (case api_dispatch env ctx s call of (s, res) \<Rightarrow> (s, strict_write r res, Returned)))"

section \<open>Problems that reach the client\<close>

text \<open>A type of the contract with its own status and title; the text of a server error is fixed.\<close>

definition problem_ok :: "'e detail problem \<Rightarrow> bool" where
  "problem_ok p \<longleftrightarrow> ErrorType_Valid (pf_Type p) \<and> mapErrorType (pf_Type p) = (pf_Status p, pf_Title p) \<and>
     (pf_Status p \<ge> 500 \<longrightarrow> (\<exists>t. pf_Detail p = Fixed t))"

definition ops_ok :: "('e, 'b) wop list \<Rightarrow> bool" where
  "ops_ok ops \<longleftrightarrow> (\<forall>p inst. WriteBody (ProblemBody p inst) \<in> set ops \<longrightarrow> problem_ok p)"

lemma Problem_ok: "t \<noteq> UNAVAILABLE \<or> (\<exists>s. d = Fixed s) \<Longrightarrow> problem_ok (Problem t d)"
  by (cases t) (auto simp: problem_ok_def Problem_def ErrorType_Valid_def Let_def InternalTitle_def)


lemma ops_ok_append [simp]: "ops_ok (a @ b) \<longleftrightarrow> ops_ok a \<and> ops_ok b"
  by (auto simp: ops_ok_def)

lemma ops_ok_header [simp]: "ops_ok (SetHeader k v # ops) \<longleftrightarrow> ops_ok ops" "ops_ok (WriteHeader c # ops) \<longleftrightarrow> ops_ok ops" "ops_ok []"
  by (auto simp: ops_ok_def)










lemma dispatch_problem:
  "snd (api_dispatch env ctx s call) = Inr (ProblemResponse c p i) \<Longrightarrow> problem_ok p \<and> c = pf_Status p"
  by (auto simp: api_dispatch_def GetHealth_def CreateProvider_def ListProviders_def GetProvider_def validationError_def Problem_ok
      split: api_call.splits option.splits prod.splits sum.splits if_splits)
    (auto simp: Problem_def ErrorType_Valid_def Let_def)


lemma api_app_valid: "app_valid (api_app env)"
proof -
  have "valid_ops (strict_write r (snd (api_dispatch env ctx s call)))" for r ctx s call
  proof (cases "snd (api_dispatch env ctx s call)")
    case (Inl e)
    then show ?thesis by (simp add: strict_write_def)
  next
    case (Inr res)
    show ?thesis
    proof (cases res)
      case (JSONResponse c b)
      then have "c > 0"
        using Inr by (auto simp: api_dispatch_def GetHealth_def CreateProvider_def ListProviders_def GetProvider_def validationError_def
            split: api_call.splits option.splits prod.splits sum.splits if_splits)
      then show ?thesis using Inr JSONResponse by (simp add: strict_write_def valid_ops_def)
    next
      case (ProblemResponse c p i)
      then have "c = pf_Status p" "problem_ok p" using dispatch_problem Inr by blast+
      then have "c > 0" by (cases "pf_Type p") (auto simp: problem_ok_def ErrorType_Valid_def)
      then show ?thesis using Inr ProblemResponse by (simp add: strict_write_def valid_ops_def)
    qed
  qed
  then show ?thesis by (simp add: app_valid_def api_app_def split: prod.splits sum.splits) (metis snd_conv)
qed

section \<open>Properties\<close>












end
