(* ===== verification/Agent_Events.thy ===== *)
theory Agent_Events
  imports Retry_Processor Provider_Service Dcm_Registrar
begin

text \<open>
  How the events of the provider side reach the rest of the agent: the health CloudEvents of \<open>internal/health/cepublisher.go\<close> and the
  callbacks that \<open>run\<close> in \<open>cmd/environment-agent/main.go\<close> hangs on the health monitor and the provider service, in particular the
  signals to the DCM registrar.
\<close>

section \<open>Health CloudEvents\<close>

definition health_event :: "provider_status \<Rightarrow> (string \<times> string) option" where
  "health_event to =
     (case to of
        Unhealthy \<Rightarrow> Some (TypeHealthDegraded, ''service provider health check failures exceeded threshold'')
      | Unavailable \<Rightarrow> Some (TypeHealthUnavailable, ''service provider became unavailable'')
      | Ready \<Rightarrow> None)"

definition OnTransition :: "fwd_env \<Rightarrow> router_cfg \<Rightarrow> disk \<Rightarrow> trace \<Rightarrow> string \<Rightarrow> provider_status \<Rightarrow> disk \<times> trace" where
  "OnTransition env cfg d tr providerID to =
     (case health_event to of
        None \<Rightarrow> (d, tr)
      | Some (ceType, reason) \<Rightarrow>
          (case fs_GetByID (x_io env) d providerID of
             (d, Inr (Some sp)) \<Rightarrow>
               (d, fst (PublishCE env tr SubjectHealth (cfg_agentName cfg) ceType
                     (HealthEventData (cfg_agentName cfg) (cfg_agentName cfg) (cfg_topicName cfg) (sp_ServiceType sp) reason (sp_Name sp))))
           | (d, _) \<Rightarrow> (d, tr)))"

section \<open>Callbacks\<close>

text \<open>The callback of the health monitor: signal the registrar when a provider enters or leaves \<open>Unavailable\<close>, hand the transition to
  the retry processor, publish the health event.\<close>

record callbacks =
  k_registrar :: registrar
  k_transitions :: "(string \<times> provider_status) list" \<comment> \<open>handed to \<open>RunTransition\<close>\<close>
  k_disk :: disk
  k_trace :: trace

definition signal_registrar :: "transition \<Rightarrow> registrar \<Rightarrow> registrar" where
  "signal_registrar x g =
     (case x of (_, from, to) \<Rightarrow> if from = Unavailable \<or> to = Unavailable then NotifyServiceTypeChange g else g)"

definition transition_callback :: "fwd_env \<Rightarrow> router_cfg \<Rightarrow> transition \<Rightarrow> callbacks \<Rightarrow> callbacks" where
  "transition_callback env cfg x k =
     (case x of (providerID, from, to) \<Rightarrow>
        let k = k\<lparr>k_registrar := signal_registrar x (k_registrar k), k_transitions := k_transitions k @ [(providerID, to)]\<rparr>
        in case OnTransition env cfg (k_disk k) (k_trace k) providerID to of
             (d, tr) \<Rightarrow> k\<lparr>k_disk := d, k_trace := tr\<rparr>)"

text \<open>The two kinds of events that can change what the agent advertises: a health check that completes, and a registration.
  \<open>SetOnChange\<close> connects the second to the registrar directly.\<close>

datatype agent_event = CheckDone string nat check_result time | Registration registration_input

definition agent_event_run :: "fwd_env \<Rightarrow> router_cfg \<Rightarrow> svc_env \<Rightarrow> agent_event \<Rightarrow> svc \<times> callbacks \<Rightarrow> svc \<times> callbacks" where
  "agent_event_run env cfg senv ev x =
     (case x of (s, k) \<Rightarrow>
        case ev of
          CheckDone i a result now \<Rightarrow>
            (case v_mon s of
               None \<Rightarrow> (s, k)
             | Some m \<Rightarrow>
                 (case checkProvider m (v_tracker s) i a result now of
                    (m, t, trs) \<Rightarrow> (s\<lparr>v_mon := Some m, v_tracker := t\<rparr>, fold (transition_callback env cfg) trs k)))
        | Registration inp \<Rightarrow>
            (case Register senv s inp of
               (s', r) \<Rightarrow>
                 let trs = drop (length (v_transitions s)) (v_transitions s');
                     k = fold (transition_callback env cfg) trs k
                 in (s', if v_changes s' > v_changes s then k\<lparr>k_registrar := NotifyServiceTypeChange (k_registrar k)\<rparr> else k)))"

definition advertised :: "svc_env \<Rightarrow> svc \<Rightarrow> string set" where
  "advertised env s = set (snd (AdvertisableServiceTypes env s))"

section \<open>Changes of the advertised types are signalled\<close>

text \<open>The tracker shows the state of the state machine.\<close>

definition in_step :: "svc \<Rightarrow> bool" where
  "in_step s \<longleftrightarrow> (case v_mon s of None \<Rightarrow> True | Some m \<Rightarrow> m_onTransition m \<and>
     (\<forall>i e. m_providers m i = Some e \<longrightarrow> (\<exists>h. GetState (v_tracker s) i = Some h \<and> hs_status h = sm_state (pe_sm e))))"

lemma AdvertisableServiceTypes_set:
  assumes "svc_ok s" "e_io env (svc_clock s) \<noteq> Some ReadFault"
  shows "advertised env s = {sp_ServiceType p | p h. p \<in> set (fs_contents (v_disk s)) \<and> GetState (v_tracker s) (sp_ID p) = Some h \<and> hs_status h \<noteq> Unavailable}"
proof -
  have inv: "fs_inv (v_disk s)" using assms(1) by (auto simp: svc_ok_def)
  have "readFile (fault_now (e_io env) (v_disk s)) (v_disk s) = Inr (fs_contents (v_disk s))"
    using good_file_contents [of "v_disk s"] inv assms(2) readFile_content by (simp add: fs_inv_def fault_now_def svc_clock_def)
  then have "snd (AdvertisableServiceTypes env s) =
      map ap_ServiceType (filter (\<lambda>p. ap_Status p \<noteq> Unavailable) (map (toAPI env (s\<lparr>v_disk := tick (v_disk s)\<rparr>)) (fs_contents (v_disk s))))"
    by (simp add: AdvertisableServiceTypes_def svc_List_def fs_List_def Let_def)
  then show ?thesis by (auto simp: advertised_def filter_map comp_def toAPI_advertised image_iff)
qed

lemma signal_keeps: "g_notifyCh (k_registrar k) \<Longrightarrow> g_notifyCh (k_registrar (fold (transition_callback env cfg) trs k))"
  by (induction trs arbitrary: k)
    (auto simp: transition_callback_def signal_registrar_def NotifyServiceTypeChange_def Let_def split: prod.splits)

lemma callback_signals:
  "(i, from, to) \<in> set trs \<Longrightarrow> from = Unavailable \<or> to = Unavailable \<Longrightarrow> g_notifyCh (k_registrar (fold (transition_callback env cfg) trs k))"
proof (induction trs arbitrary: k)
  case (Cons x trs)
  show ?case
  proof (cases "x = (i, from, to)")
    case True
    then have "g_notifyCh (k_registrar (transition_callback env cfg x k))"
      using Cons.prems(2) by (auto simp: transition_callback_def signal_registrar_def NotifyServiceTypeChange_def Let_def split: prod.splits)
    then show ?thesis by (simp add: signal_keeps)
  next
    case False
    then show ?thesis using Cons by simp
  qed
qed simp

lemma check_signals:
  assumes "in_step s" "v_mon s = Some m" "checkProvider m (v_tracker s) i a result now = (m', t', trs)"
    and "GetState t' j = Some h'" "GetState (v_tracker s) j = Some h" "(hs_status h = Unavailable) \<noteq> (hs_status h' = Unavailable)"
  shows "\<exists>from to. (i, from, to) \<in> set trs \<and> (from = Unavailable \<or> to = Unavailable)"
proof -
  have changed: "t' \<noteq> v_tracker s" using assms(4-6) by auto
  then obtain e where e: "m_providers m i = Some e" "pe_addr e = a"
    using assms(3) by (auto simp: checkProvider_def record_check_def split: option.splits if_splits)
  obtain sm fr to where r: "RecordResult (pe_sm e) result = (sm, fr, to)" by (metis prod_cases3)
  have t': "t' = SetState (v_tracker s) i to now" and trs: "trs = (if fr \<noteq> to \<and> m_onTransition m then [(i, fr, to)] else [])"
    using assms(3) e r by (auto simp: checkProvider_def record_check_def)
  have fr: "fr = sm_state (pe_sm e)" using r by (auto simp: RecordResult_def Let_def)
  have j: "j = i" using assms(4-6) t' by (auto simp: SetState_def GetState_def split: if_splits)
  obtain h0 where "GetState (v_tracker s) i = Some h0" "hs_status h0 = sm_state (pe_sm e)"
    using assms(1,2) e(1) by (auto simp: in_step_def)
  then have "hs_status h = fr" using assms(5) fr j by simp
  moreover have "hs_status h' = to" using assms(4) changed t' j by (auto simp: SetState_def GetState_def split: if_splits)
  ultimately show ?thesis using trs assms(1,2,6) by (auto simp: in_step_def)
qed

lemma check_tracks:
  assumes "in_step s" "v_mon s = Some m" "checkProvider m (v_tracker s) i a result now = (m', t', trs)"
  shows "GetState t' j = None \<longleftrightarrow> GetState (v_tracker s) j = None"
proof -
  from assms(3) consider "t' = v_tracker s" | e to where "m_providers m i = Some e" "t' = SetState (v_tracker s) i to now"
    by (auto simp: checkProvider_def record_check_def split: option.splits if_splits prod.splits)
  then show ?thesis
  proof cases
    case 2
    then obtain h where "GetState (v_tracker s) i = Some h" using assms(1,2) by (auto simp: in_step_def)
    then show ?thesis using 2 by (auto simp: SetState_def GetState_def)
  qed simp
qed

lemma track_frame:
  "v_onChange (trackExternalProvider env s i ep st ic) = v_onChange s" "v_changes (trackExternalProvider env s i ep st ic) = v_changes s"
  by (simp_all add: trackExternalProvider_def mon_register_def Let_def split: option.splits prod.splits)

lemma registerLocked_frame:
  assumes "registerLocked env s inp = (s', r)"
  shows "v_onChange s' = v_onChange s \<and> v_changes s' = v_changes s"
  using assms
  by (auto simp: registerLocked_def updateRegistration_def createRegistration_def assignProviderID_def track_frame Let_def
      split: prod.splits sum.splits option.splits if_splits)

lemma Register_notifies:
  assumes "Register env s inp = (s', Inr x)" "v_onChange s"
  shows "v_changes s' = Suc (v_changes s)"
  using assms registerLocked_frame [of env s inp] by (auto simp: Register_def notifyChange_def split: prod.splits sum.splits)

text \<open>C28: whenever a completed health check or a registration changes the set of service types the agent advertises, the registrar
  has been signalled, so that it registers the new set with DCM.\<close>

theorem type_changes_signalled:
  assumes "svc_ok s" "in_step s" "v_onChange s" "agent_event_run env cfg senv ev (s, k) = (s', k')"
    and "e_io senv (svc_clock s) \<noteq> Some ReadFault" "e_io senv (svc_clock s') \<noteq> Some ReadFault"
    and "advertised senv s \<noteq> advertised senv s'"
  shows "g_notifyCh (k_registrar k')"
proof (cases ev)
  case (CheckDone i a result now)
  show ?thesis
  proof (cases "v_mon s")
    case None
    then show ?thesis using assms(4,7) CheckDone by (simp add: agent_event_run_def)
  next
    case (Some m)
    obtain m' t' trs where chk: "checkProvider m (v_tracker s) i a result now = (m', t', trs)" by (metis prod_cases3)
    then have s': "s' = s\<lparr>v_mon := Some m', v_tracker := t'\<rparr>" and k': "k' = fold (transition_callback env cfg) trs k"
      using assms(4) CheckDone Some by (simp_all add: agent_event_run_def)
    have ok': "svc_ok s'" using assms(1) by (simp add: s' svc_ok_def)
    have "\<exists>j h h'. GetState (v_tracker s) j = Some h \<and> GetState t' j = Some h' \<and> (hs_status h = Unavailable) \<noteq> (hs_status h' = Unavailable)"
    proof (rule ccontr)
      assume same: "\<not> ?thesis"
      have "advertised senv s = advertised senv s'"
        unfolding AdvertisableServiceTypes_set [OF assms(1,5)] AdvertisableServiceTypes_set [OF ok' assms(6)]
        using same check_tracks [OF assms(2) Some chk] by (auto simp: s' set_eq_iff) (metis not_Some_eq)+
      then show False using assms(7) by simp
    qed
    then obtain fr to where "(i, fr, to) \<in> set trs" "fr = Unavailable \<or> to = Unavailable"
      using check_signals [OF assms(2) Some chk] by blast
    then show ?thesis unfolding k' by (rule callback_signals)
  qed
next
  case (Registration inp)
  obtain s1 r where run: "Register senv s inp = (s1, r)" by fastforce
  have s1: "s1 = s'" using assms(4) Registration run by (simp add: agent_event_run_def Let_def)
  show ?thesis
  proof (cases r)
    case (Inl e)
    have "advertised senv s = advertised senv s'"
      using Register_effect [OF assms(1) run] Inl s1 assms(1) unchanged_ok [OF assms(1), of s1]
      by (simp add: register_post_def AdvertisableServiceTypes_set [OF assms(1,5)] AdvertisableServiceTypes_set [OF _ assms(6)] unchanged_def)
    then show ?thesis using assms(7) by simp
  next
    case (Inr x)
    have "v_changes s1 = Suc (v_changes s)" using Register_notifies [OF run [unfolded Inr] assms(3)] .
    then show ?thesis using assms(4) Registration run s1 by (auto simp: agent_event_run_def Let_def NotifyServiceTypeChange_def)
  qed
qed

definition sample_changes :: svc where
  "sample_changes = sample_svc\<lparr>v_onChange := True, v_mon := map_option (\<lambda>m. SetOnTransition m True) (v_mon sample_svc)\<rparr>"

lemma sample_advertised:
  "snd (AdvertisableServiceTypes (sample_env None) (fst (Register (sample_env None) sample_changes sample_input))) = [''database'']"
  "snd (AdvertisableServiceTypes (sample_env None) sample_changes) = []"
  by (simp_all add: sample_changes_def register_run_defs Let_def AdvertisableServiceTypes_def svc_List_def fs_List_def trackExternalProvider_def
      mon_register_def RegisterProvider_def register_entry_def initial_check_def record_check_def RecordResult_def NewStateMachine_def NewMonitor_def
      SetOnTransition_def SetState_def GetState_def toAPI_def)

theorem type_changes_signalled_witness:
  "\<exists>s' k'. agent_event_run (sample_fwd_env 200) sample_cfg (sample_env None) (Registration sample_input)
       (sample_changes, \<lparr>k_registrar = NewRegistrar NoAuth [], k_transitions = [], k_disk = fs_init NoFile, k_trace = []\<rparr>) = (s', k') \<and>
     advertised (sample_env None) s' = {''database''} \<and> g_notifyCh (k_registrar k')"
proof -
  let ?k = "\<lparr>k_registrar = NewRegistrar NoAuth [], k_transitions = [], k_disk = fs_init NoFile, k_trace = []\<rparr>"
  obtain s' k' where run: "agent_event_run (sample_fwd_env 200) sample_cfg (sample_env None) (Registration sample_input) (sample_changes, ?k) = (s', k')"
    by fastforce
  then have s': "s' = fst (Register (sample_env None) sample_changes sample_input)"
    by (simp add: agent_event_run_def Let_def split: prod.splits)
  have ok: "svc_ok sample_changes" using sample_svc_ok by (simp add: sample_changes_def svc_ok_def)
  have inst: "in_step sample_changes" by (simp add: in_step_def sample_changes_def sample_svc_def svc_New_def SetOnTransition_def NewMonitor_def)
  have adv: "advertised (sample_env None) sample_changes = {}" "advertised (sample_env None) s' = {''database''}"
    by (simp_all add: advertised_def s' sample_advertised)
  have io: "e_io (sample_env None) n \<noteq> Some ReadFault" for n by (simp add: sample_env_def)
  have "g_notifyCh (k_registrar k')"
    by (rule type_changes_signalled [OF ok inst _ run io io]) (simp_all add: adv, simp add: sample_changes_def)
  then show ?thesis using run adv by blast
qed

end
