(* ===== verification/Kube_Api.thy ===== *)
theory Kube_Api
  imports Forwarding "HOL-Library.AList"
begin

text \<open>
  What the embedded service providers (\<open>internal/openshift/{network,container,storage,kubevirtvm,acmcluster}\<close>) and their handlers
  (\<open>internal/embedded/{network,container,storage,vm,cluster}\<close>) share: the Kubernetes objects they read and write, the
  API calls they make, their error values, DCM's label conventions and the contract of an embedded handler.

  The Kubernetes API server is not part of the repository.  Every call is appended to a \<open>kube_trace\<close>, and
  what the server answers is a function of the calls so far in \<open>kube_env\<close>: the theorems hold for every
  server, including one whose objects are changed by others between two calls.  A Go map is an association
  list (in some iteration order); a nil map is the empty list.  Quantities are
  modelled by what the code observes of them, and their parser is a parameter.
\<close>

section \<open>Rendering\<close>

definition wrap32 :: "int \<Rightarrow> int" where
  "wrap32 x = signed_take_bit 31 x"

lemma wrap32_id [simp]: "- (2 ^ 31) \<le> x \<Longrightarrow> x < 2 ^ 31 \<Longrightarrow> wrap32 x = x"
  by (simp add: wrap32_def signed_take_bit_int_eq_self)

definition hex_digit :: "nat \<Rightarrow> char" where
  "hex_digit n = char_of (if n < 10 then 48 + n else 87 + n)"

definition quote_char :: "char \<Rightarrow> string" where
  "quote_char c =
     (let n = of_char c :: nat
      in if n = 34 \<or> n = 92 then [CHR 0x5C, c]
         else if n = 7 then [CHR 0x5C, CHR ''a'']
         else if n = 8 then [CHR 0x5C, CHR ''b'']
         else if n = 9 then [CHR 0x5C, CHR ''t'']
         else if n = 10 then [CHR 0x5C, CHR ''n'']
         else if n = 11 then [CHR 0x5C, CHR ''v'']
         else if n = 12 then [CHR 0x5C, CHR ''f'']
         else if n = 13 then [CHR 0x5C, CHR ''r'']
         else if n < 32 \<or> n = 127 then [CHR 0x5C, CHR ''x'', hex_digit (n div 16), hex_digit (n mod 16)]
         else [c])"

text \<open>The verb \<open>%q\<close> on a string whose non-ASCII characters are printable.\<close>

definition go_quote :: "string \<Rightarrow> string" where
  "go_quote s = [CHR 0x22] @ concat (map quote_char s) @ [CHR 0x22]"

definition show_int :: "int \<Rightarrow> string" where
  "show_int x = (if x < 0 then CHR ''-'' # show_nat (nat (- x)) else show_nat (nat x))"

definition str_contains :: "string \<Rightarrow> string \<Rightarrow> bool" where
  "str_contains s sub = sublist sub s"

text \<open>\<open>strings.CutSuffix\<close>.\<close>

definition cut_suffix :: "string \<Rightarrow> string \<Rightarrow> string option" where
  "cut_suffix s suf = (if suffix suf s then Some (take (length s - length suf) s) else None)"

section \<open>Labels\<close>

type_synonym labels = "(string \<times> string) list"

definition LabelManagedBy :: string where "LabelManagedBy = ''dcm.project/managed-by''"
definition LabelInstanceID :: string where "LabelInstanceID = ''dcm.project/dcm-instance-id''"
definition LabelServiceType :: string where "LabelServiceType = ''dcm.project/dcm-service-type''"
definition ValueManagedByDCM :: string where "ValueManagedByDCM = ''dcm''"

definition ReservedLabelKeys :: "string list" where
  "ReservedLabelKeys = [LabelManagedBy, LabelInstanceID, LabelServiceType]"

definition dcm_Labels :: "string \<Rightarrow> string \<Rightarrow> labels" where
  "dcm_Labels serviceType instanceID =
     [(LabelManagedBy, ValueManagedByDCM), (LabelInstanceID, instanceID), (LabelServiceType, serviceType)]"

definition dcm_Selector :: "string \<Rightarrow> labels" where
  "dcm_Selector serviceType = [(LabelManagedBy, ValueManagedByDCM), (LabelServiceType, serviceType)]"

text \<open>\<open>m[k]\<close> of a Go map of strings: the empty string when the key is absent.\<close>

definition label_at :: "labels \<Rightarrow> string \<Rightarrow> string" where
  "label_at m k = (case map_of m k of Some v \<Rightarrow> v | None \<Rightarrow> '''')"

definition mergeLabels :: "labels \<Rightarrow> labels \<Rightarrow> labels" where
  "mergeLabels base user = AList.merge user base"

definition is_dcm_managed :: "string \<Rightarrow> labels \<Rightarrow> string \<Rightarrow> bool" where
  "is_dcm_managed serviceType m instanceID \<longleftrightarrow>
     label_at m LabelManagedBy = ValueManagedByDCM \<and>
     label_at m LabelServiceType = serviceType \<and>
     label_at m LabelInstanceID = instanceID"

definition validateUserLabels :: "labels option \<Rightarrow> string option" where
  "validateUserLabels m =
     (case m of
        None \<Rightarrow> None
      | Some m \<Rightarrow>
          (case find (\<lambda>(k, _). k \<in> set ReservedLabelKeys) m of
             None \<Rightarrow> None
           | Some (k, _) \<Rightarrow> Some (''label '' @ go_quote k @ '' is reserved by DCM and cannot be set by the user'')))"

definition userLabels :: "labels \<Rightarrow> labels" where
  "userLabels m = filter (\<lambda>(k, _). k \<notin> set ReservedLabelKeys) m"

text \<open>A label selector \<open>k1=v1,k2=v2\<close> and the label sets it matches.\<close>

definition matches_selector :: "labels \<Rightarrow> labels \<Rightarrow> bool" where
  "matches_selector sel m \<longleftrightarrow> list_all (\<lambda>(k, v). map_of m k = Some v) sel"

lemmas label_name_defs = LabelManagedBy_def LabelInstanceID_def LabelServiceType_def

lemma label_names_distinct [simp]:
  "LabelManagedBy \<noteq> LabelInstanceID" "LabelInstanceID \<noteq> LabelManagedBy"
  "LabelManagedBy \<noteq> LabelServiceType" "LabelServiceType \<noteq> LabelManagedBy"
  "LabelInstanceID \<noteq> LabelServiceType" "LabelServiceType \<noteq> LabelInstanceID"
  by (simp_all add: label_name_defs)

lemma map_of_mergeLabels [simp]: "map_of (mergeLabels base user) = map_of user ++ map_of base"
  by (simp add: mergeLabels_def merge_conv')

lemma map_of_dcm_Labels [simp]:
  "map_of (dcm_Labels st i) = [LabelManagedBy \<mapsto> ValueManagedByDCM, LabelInstanceID \<mapsto> i, LabelServiceType \<mapsto> st]"
  by (auto simp: dcm_Labels_def)

lemma reserved_keys [simp]: "set ReservedLabelKeys = {LabelManagedBy, LabelInstanceID, LabelServiceType}"
  by (simp add: ReservedLabelKeys_def)

lemma map_of_userLabels:
  "map_of (userLabels m) = map_of m |` (- set ReservedLabelKeys)"
proof
  fix k show "map_of (userLabels m) k = (map_of m |` (- set ReservedLabelKeys)) k"
    by (induction m) (auto simp: userLabels_def restrict_map_def)
qed

text \<open>Whatever the user's labels, the merged labels identify the resource as DCM's, select it, and give
  the user's own labels back.\<close>

lemma merged_managed: "is_dcm_managed st (mergeLabels (dcm_Labels st i) user) i"
  by (simp add: is_dcm_managed_def label_at_def)

lemma base_managed: "is_dcm_managed st (dcm_Labels st i) i"
  by (simp add: is_dcm_managed_def label_at_def)

lemma managed_selected: "is_dcm_managed st m i \<Longrightarrow> i \<noteq> '''' \<Longrightarrow> st \<noteq> '''' \<Longrightarrow> matches_selector (dcm_Labels st i) m"
  by (auto simp: is_dcm_managed_def label_at_def matches_selector_def dcm_Labels_def ValueManagedByDCM_def split: option.splits)

lemma selected_managed: "matches_selector (dcm_Labels st i) m \<Longrightarrow> is_dcm_managed st m i"
  by (auto simp: is_dcm_managed_def label_at_def matches_selector_def dcm_Labels_def)

lemma merged_user_labels:
  "map_of (userLabels (mergeLabels (dcm_Labels st i) user)) = map_of user |` (- set ReservedLabelKeys)"
  by (auto simp: map_of_userLabels restrict_map_def map_add_def fun_eq_iff)

lemma validateUserLabels_iff:
  "validateUserLabels m = None \<longleftrightarrow> (\<forall>l. m = Some l \<longrightarrow> dom (map_of l) \<inter> set ReservedLabelKeys = {})"
proof (cases m)
  case (Some l)
  have "validateUserLabels m = None \<longleftrightarrow> find (\<lambda>(k, _). k \<in> set ReservedLabelKeys) l = None"
    using Some by (auto simp: validateUserLabels_def split: option.splits)
  also have "\<dots> \<longleftrightarrow> (\<forall>x \<in> set l. fst x \<notin> set ReservedLabelKeys)"
    by (auto simp: find_None_iff)
  finally show ?thesis using Some by (simp only: option.inject dom_map_of_conv_image_fst) blast
qed (simp add: validateUserLabels_def)

section \<open>Errors\<close>

datatype api_reason = AlreadyExists | Invalid | NotFound | OtherReason

text \<open>An error of the Kubernetes client: the class the \<open>apierrors\<close> predicates see, the code and message of its
  \<open>APIStatus\<close> and the causes of its details, if it has them, and its text.\<close>

record kube_error =
  ke_Reason :: api_reason
  ke_Status :: "(int \<times> string) option"
  ke_Causes :: "string list option"
  ke_Error :: string

text \<open>The errors of the stores with their texts; \<open>Wrapped p e\<close> is \<open>fmt.Errorf("p: %w", e)\<close>.\<close>

datatype go_error =
    NotFoundError string
  | ConflictError string
  | InvalidArgumentError string
  | FailedPreconditionError string
  | KubeError kube_error
  | Errorf string
  | Panic string \<comment> \<open>a run-time panic, as the outcome of an operation\<close>
  | Wrapped string go_error

fun error_text :: "go_error \<Rightarrow> string" where
  "error_text (NotFoundError m) = m"
| "error_text (ConflictError m) = m"
| "error_text (InvalidArgumentError m) = m"
| "error_text (FailedPreconditionError m) = m"
| "error_text (KubeError k) = ke_Error k"
| "error_text (Errorf m) = m"
| "error_text (Panic m) = m"
| "error_text (Wrapped p e) = p @ '': '' @ error_text e"

text \<open>The error that \<open>errors.As\<close> reaches through the wrappers.\<close>

fun root_cause :: "go_error \<Rightarrow> go_error" where
  "root_cause (Wrapped _ e) = root_cause e"
| "root_cause e = e"

section \<open>Objects\<close>

record quantity =
  q_nano :: int \<comment> \<open>the number, in units of \<open>10^-9\<close>; \<open>Cmp\<close> compares it\<close>
  q_MilliValue :: int
  q_String :: string

datatype int_or_string = IntVal int | StrVal string

definition IntValue :: "int_or_string \<Rightarrow> int" where
  "IntValue v = (case v of IntVal n \<Rightarrow> n | StrVal s \<Rightarrow> (case parse_int64 s of Some n \<Rightarrow> n | None \<Rightarrow> 0))"

record service_port =
  port_Name :: string
  port_Protocol :: string
  port_Port :: int
  port_TargetPort :: int_or_string
  port_NodePort :: int

record service =
  svc_Name :: string
  svc_GenerateName :: string
  svc_Namespace :: string
  svc_Labels :: labels
  svc_CreationTimestamp :: time
  svc_Type :: string
  svc_ClusterIP :: string
  svc_Ports :: "service_port list"
  svc_Selector :: labels
  svc_Ingress :: "(string \<times> string) list" \<comment> \<open>IP and hostname\<close>

record k8s_container =
  kc_Name :: string
  kc_Image :: string
  kc_Requests :: "(string \<times> quantity) list"
  kc_Limits :: "(string \<times> quantity) list"
  kc_Command :: "string list"
  kc_Args :: "string list"
  kc_Env :: "(string \<times> string) list"
  kc_Ports :: "int list"

record deployment =
  dep_Name :: string
  dep_GenerateName :: string
  dep_Namespace :: string
  dep_Labels :: labels
  dep_CreationTimestamp :: time
  dep_Replicas :: "int option"
  dep_Selector :: labels
  dep_TemplateLabels :: labels
  dep_Containers :: "k8s_container list"
  dep_UpdatedReplicas :: int
  dep_UnavailableReplicas :: int
  dep_ConditionTimes :: "time list"

record pod =
  pod_Name :: string
  pod_Labels :: labels
  pod_Phase :: string
  pod_PodIP :: string
  pod_CreationTimestamp :: time
  pod_ConditionTimes :: "time list"

record pvc_condition =
  pc_Type :: string
  pc_Status :: string
  pc_LastTransitionTime :: time

record pvc =
  pvc_Name :: string
  pvc_Namespace :: string
  pvc_Labels :: labels
  pvc_CreationTimestamp :: time
  pvc_DeletionTimestamp :: "time option"
  pvc_AccessModes :: "string list"
  pvc_StorageRequest :: "quantity option"
  pvc_StorageClassName :: "string option"
  pvc_VolumeName :: string
  pvc_VolumeMode :: "string option"
  pvc_Phase :: string
  pvc_Conditions :: "pvc_condition list"

datatype volume_source = ContainerDisk string | EmptyDisk quantity

record vm_disk =
  vd_Name :: string
  vd_Bus :: string
  vd_BootOrder :: "nat option"

text \<open>A KubeVirt VirtualMachine; \<open>vm_Interfaces\<close> are the masquerade interfaces with their models, \<open>vm_Networks\<close> the names of the pod networks.\<close>

record virtual_machine =
  vm_Name :: string
  vm_GenerateName :: string
  vm_Namespace :: string
  vm_Labels :: labels
  vm_RunStrategy :: string
  vm_TemplateLabels :: labels
  vm_Disks :: "vm_disk list"
  vm_Interfaces :: "(string \<times> string) list"
  vm_Requests :: "(string \<times> quantity) list"
  vm_Machine :: string
  vm_Networks :: "string list"
  vm_Volumes :: "(string \<times> volume_source) list"

record hc_condition =
  hcc_Type :: string
  hcc_Status :: string
  hcc_Message :: string
  hcc_LastTransitionTime :: time

text \<open>A HyperShift HostedCluster; \<open>hc_AgentNamespace\<close> is set on the Agent platform only, and a time of \<open>0\<close> is the zero time.\<close>

record hosted_cluster =
  hc_Name :: string
  hc_Namespace :: string
  hc_Labels :: labels
  hc_Annotations :: labels
  hc_CreationTimestamp :: time
  hc_Deleting :: bool
  hc_Platform :: string
  hc_AgentNamespace :: "string option"
  hc_ReleaseImage :: string
  hc_BaseDomain :: string
  hc_Services :: "(string \<times> string) list"
  hc_Etcd :: "string \<times> string"
  hc_PullSecret :: string
  hc_Conditions :: "hc_condition list"
  hc_Endpoint :: "string \<times> int"
  hc_KubeConfig :: "string option"

record kubevirt_platform =
  kp_Compute :: "(quantity option \<times> 32 word option) option"
  kp_RootVolume :: quantity

record node_pool =
  np_Name :: string
  np_Namespace :: string
  np_Labels :: labels
  np_ClusterName :: string
  np_ReleaseImage :: string
  np_UpgradeType :: string
  np_Platform :: string
  np_AgentSelector :: "labels option"
  np_Kubevirt :: "kubevirt_platform option"
  np_Replicas :: "int option"

record secret =
  sec_Name :: string
  sec_Namespace :: string
  sec_Labels :: labels
  sec_Type :: string
  sec_Data :: "(string \<times> string) list"

section \<open>Calls\<close>

text \<open>\<open>Detached\<close> marks a call made under \<open>context.WithoutCancel\<close>.\<close>

datatype call_ctx = Caller | Detached

datatype kube_call =
    ListServices string labels int string
  | CreateService service
  | DeleteService string string
  | ListDeployments string labels
  | CreateDeployment deployment
  | DeleteDeployment call_ctx string string
  | ListPods string labels
  | GetPVC string string
  | ListPVCs string labels int string
  | CreatePVC pvc
  | DeletePVC string string
  | GetStorageClass string
  | ListVMs string labels
  | CreateVM string virtual_machine
  | UpdateVM string virtual_machine
  | DeleteVM string string
  | ListHostedClusters string labels
  | CreateHostedCluster hosted_cluster
  | DeleteHostedCluster string string
  | ListNodePools string labels
  | CreateNodePool node_pool
  | DeleteNodePool string string
  | ListClusterImageSets
  | GetSecret string string
  | CreateSecret secret
  | UpdateSecret secret

type_synonym kube_trace = "kube_call list"

record kube_env =
  k_list_services :: "kube_trace \<Rightarrow> kube_error + service list \<times> string"
  k_create_service :: "kube_trace \<Rightarrow> kube_error + service"
  k_list_deployments :: "kube_trace \<Rightarrow> kube_error + deployment list"
  k_create_deployment :: "kube_trace \<Rightarrow> kube_error + deployment"
  k_list_pods :: "kube_trace \<Rightarrow> kube_error + pod list"
  k_get_pvc :: "kube_trace \<Rightarrow> kube_error + pvc"
  k_list_pvcs :: "kube_trace \<Rightarrow> kube_error + pvc list \<times> string"
  k_create_pvc :: "kube_trace \<Rightarrow> kube_error + pvc"
  k_delete :: "kube_trace \<Rightarrow> kube_error option"
  k_get_storage_class :: "kube_trace \<Rightarrow> kube_error option"
  k_list_vms :: "kube_trace \<Rightarrow> kube_error + virtual_machine list"
  k_write_vm :: "kube_trace \<Rightarrow> kube_error + virtual_machine" \<comment> \<open>create and update\<close>
  k_list_hosted_clusters :: "kube_trace \<Rightarrow> kube_error + hosted_cluster list"
  k_list_node_pools :: "kube_trace \<Rightarrow> kube_error + node_pool list"
  k_list_image_sets :: "kube_trace \<Rightarrow> kube_error + string list" \<comment> \<open>the release image of each, empty if it has none\<close>
  k_get_secret :: "kube_trace \<Rightarrow> kube_error + secret"
  k_write :: "kube_trace \<Rightarrow> kube_error option" \<comment> \<open>create and update through the controller-runtime client\<close>

text \<open>A call: what it adds to the trace, and the server's answer to the trace that ends with it.\<close>

definition kube :: "(kube_trace \<Rightarrow> 'r) \<Rightarrow> kube_trace \<Rightarrow> kube_call \<Rightarrow> kube_trace \<times> 'r" where
  "kube answer tr c = (tr @ [c], answer (tr @ [c]))"

fun creates :: "kube_call \<Rightarrow> bool" where
  "creates (CreateService _) = True"
| "creates (CreateDeployment _) = True"
| "creates (CreatePVC _) = True"
| "creates (CreateVM _ _) = True"
| "creates (CreateHostedCluster _) = True"
| "creates (CreateNodePool _) = True"
| "creates (CreateSecret _) = True"
| "creates _ = False"

fun deletes :: "kube_call \<Rightarrow> bool" where
  "deletes (DeleteService _ _) = True"
| "deletes (DeleteDeployment _ _ _) = True"
| "deletes (DeletePVC _ _) = True"
| "deletes (DeleteVM _ _) = True"
| "deletes (DeleteHostedCluster _ _) = True"
| "deletes (DeleteNodePool _ _) = True"
| "deletes _ = False"

section \<open>Decoding a request's specification\<close>

text \<open>The JSON decoder applied to the Go structs of the API packages: into \<open>struct { Spec json.RawMessage }\<close>,
  into the whole resource (its \<open>Spec\<close>), and into the specification.  An error is given by its text.\<close>

record 's spec_codec =
  dec_wrapper :: "json \<Rightarrow> string + json option"
  dec_resource :: "json \<Rightarrow> string + 's"
  dec_spec :: "json \<Rightarrow> string + 's"

definition SpecJSON :: "'s spec_codec \<Rightarrow> json option \<Rightarrow> string + json" where
  "SpecJSON codec raw =
     (case raw of
        None \<Rightarrow> Inl ''spec is required''
      | Some raw \<Rightarrow>
          (case dec_wrapper codec raw of
             Inl e \<Rightarrow> Inl (''invalid spec: '' @ e)
           | Inr (Some spec) \<Rightarrow> Inr spec
           | Inr None \<Rightarrow> Inr raw))"

section \<open>Identifiers, pages and times\<close>

text \<open>Helpers of which the network and the storage packages each hold a copy.\<close>

definition aep122IDPattern :: regex where
  "aep122IDPattern =
     (let alnum = [(CHR ''a'', CHR ''z''), (CHR ''0'', CHR ''9'')];
          inner = alnum @ [(CHR ''-'', CHR ''-'')]
      in RSeq (RClass alnum) (re_opt (RSeq (re_upto (RClass inner) 61) (RClass alnum))))"

definition normalizePageSize :: "int \<Rightarrow> int" where
  "normalizePageSize maxPageSize = (if maxPageSize \<le> 0 then 50 else if maxPageSize > 1000 then 1000 else maxPageSize)"

definition bad_page_token :: "string \<Rightarrow> bool" where
  "bad_page_token m =
     (let msg = to_lower m
      in str_contains msg ''continue'' \<or> str_contains msg ''page_token'' \<or> str_contains msg ''page token'')"

text \<open>The loop of \<open>latestPodTransitionTime\<close>, \<open>latestDeploymentTransitionTime\<close> and \<open>latestPVCConditionTime\<close> over the
  transition times of the conditions.\<close>

definition latest_time :: "time list \<Rightarrow> time option" where
  "latest_time ts =
     foldl (\<lambda>latest t. if t = 0 then latest
                      else case latest of None \<Rightarrow> Some t | Some l \<Rightarrow> if t > l then Some t else latest) None ts"

section \<open>The contract of an embedded handler\<close>

text \<open>\<open>routing.EmbeddedHandler\<close> as the forwarder relies on it: a create or delete answers with success or with
  an \<open>SPResponseError\<close>, and a specification the provider does not accept is refused with status 400 before
  anything reaches the cluster.\<close>

type_synonym embedded_create = "kube_trace \<Rightarrow> string \<Rightarrow> json option \<Rightarrow> kube_trace \<times> fwd_error option"
type_synonym embedded_delete = "kube_trace \<Rightarrow> string \<Rightarrow> kube_trace \<times> fwd_error option"

definition sp_error :: "fwd_error option \<Rightarrow> bool" where
  "sp_error r = (case r of None \<Rightarrow> True | Some (SPResponseError code _) \<Rightarrow> code \<in> {400, 404, 409, 422, 500} | _ \<Rightarrow> False)"

lemma sp_error_simps [simp]: "sp_error None" "sp_error (Some (SPResponseError 400 m))"
  by (simp_all add: sp_error_def)

text \<open>A handler in the forwarder's table: the cluster calls made so far are some function of the agent's
  own trace.\<close>

definition embedded_handler_fun ::
  "embedded_create \<Rightarrow> embedded_delete \<Rightarrow> (trace \<Rightarrow> kube_trace) \<Rightarrow> trace \<Rightarrow> sp_request \<Rightarrow> fwd_error option" where
  "embedded_handler_fun cr del k tr req =
     (case req of
        CreateResource _ _ resourceID _ spec _ \<Rightarrow> snd (cr (k tr) resourceID spec)
      | DeleteResource _ _ resourceID _ _ \<Rightarrow> snd (del (k tr) resourceID))"

locale embedded_handler =
  fixes accepts :: "string \<Rightarrow> json option \<Rightarrow> bool"
    and handle_create :: embedded_create
    and handle_delete :: embedded_delete
  assumes refuse: "\<not> accepts i spec \<Longrightarrow> \<exists>m. handle_create tr i spec = (tr, Some (SPResponseError 400 m))"
    and create_answer: "sp_error (snd (handle_create tr i spec))"
    and delete_answer: "sp_error (snd (handle_delete tr i))"
    and create_extends: "\<exists>seg. fst (handle_create tr i spec) = tr @ seg \<and> list_all (\<lambda>c. creates c \<longrightarrow> accepts i spec) seg"
    and delete_no_create: "\<exists>seg. fst (handle_delete tr i) = tr @ seg \<and> (\<forall>c \<in> set seg. \<not> creates c)"
begin

lemma answer_sp_error: "sp_error (embedded_handler_fun handle_create handle_delete k tr req)"
  by (simp add: embedded_handler_fun_def create_answer delete_answer split: sp_request.split)

text \<open>An error of the handler is retried exactly when it is an internal error, and the error event that ends
  the request always carries the provider's status code.\<close>

lemma retryable_iff:
  assumes "embedded_handler_fun handle_create handle_delete k tr req = Some e"
  shows "IsRetryable e \<longleftrightarrow> errorStatusCode e = Some 500"
  using answer_sp_error [of k tr req] assms
  by (auto simp: sp_error_def IsRetryable_def errorStatusCode_def split: fwd_error.splits)

lemma terminal_error_reported:
  assumes "embedded_handler_fun handle_create handle_delete k tr req = Some e"
  shows "\<exists>code m c t. TerminalProviderErrorData e st ctx = ErrorData ctx c t (Some (code, m))"
  using answer_sp_error [of k tr req] assms
  by (auto simp: sp_error_def TerminalProviderErrorData_def Let_def split: fwd_error.splits)

text \<open>A refused specification costs one call of the handler, whatever the retry policy.\<close>

lemma refused_once:
  assumes h: "x_embedded env st = Some (embedded_handler_fun handle_create handle_delete k)"
    and sp: "sp_Type sp = ''embedded''"
    and p: "fp_IsCreate params" "fp_ServiceType params = st"
    and bad: "\<not> accepts (fp_ResourceID params) (fp_Spec params)"
  shows "\<exists>m r. ForwardWithRetry env tr sp params policy =
     (tr @ [SPCalled (sp_request_of sp params) (Some (SPResponseError 400 m))], Some r) \<and>
     (r = SPResponseError 400 m \<or> (\<exists>c. r = CtxError c))"
proof -
  obtain m where m: "handle_create (k tr) (fp_ResourceID params) (fp_Spec params) = (k tr, Some (SPResponseError 400 m))"
    using refuse [OF bad] by blast
  have d: "ForwardToSP env tr sp params =
      (tr @ [SPCalled (sp_request_of sp params) (Some (SPResponseError 400 m))], Some (SPResponseError 400 m))"
    using h sp p m
    by (simp add: ForwardToSP_def fwd_dispatch_def sp_request_of_def dispatch_embedded_def embedded_handler_fun_def Let_def)
  show ?thesis
    unfolding ForwardWithRetry_def Let_def
    by (subst fwd_loop.simps) (auto simp: d IsRetryable_def errorStatusCode_def split: option.splits)
qed

end

end
