(* ===== verification/Network_Provider.thy ===== *)
theory Network_Provider
  imports Kube_Api
begin

text \<open>
  The embedded network provider: request validation (\<open>openshift/network/validate\<close>), the translation between
  network specifications and Kubernetes Services (\<open>openshift/network/kubernetes/convert.go\<close>), the store
  over the cluster (\<open>store*.go\<close>) and the handler the router calls (\<open>embedded/network/handler.go\<close>).
\<close>

section \<open>API types\<close>

record port_spec =
  ps_Name :: "string option"
  ps_NodePort :: "int option"
  ps_Port :: int
  ps_Protocol :: "string option"
  ps_TargetPort :: "int option"

record network_k8s_hints =
  nh_ClusterIp :: "string option"
  nh_NodePorts :: "(string \<times> int) list option"
  nh_Selector :: "labels option"

record network_metadata =
  nm_Name :: string
  nm_Namespace :: "string option"
  nm_Labels :: "labels option"

text \<open>\<open>ProviderHints\<close> is absent, or present with or without its \<open>Kubernetes\<close> part.\<close>

record network_spec =
  ns_Metadata :: network_metadata
  ns_Ports :: "port_spec list"
  ns_ProviderHints :: "network_k8s_hints option option"
  ns_RoutingLevel :: "string option"
  ns_ServiceType :: string

record kubernetes_state =
  kst_Type :: string
  kst_ClusterIp :: "string option"
  kst_Selector :: "labels option"
  kst_ExternalIps :: "string list option"

record network =
  net_Id :: string
  net_Path :: string
  net_CreateTime :: time
  net_UpdateTime :: time
  net_Spec :: network_spec
  net_Status :: string
  net_Kubernetes :: kubernetes_state

abbreviation network_type :: string where
  "network_type \<equiv> ''network''"

text \<open>\<open>spec.ProviderHints.Kubernetes\<close> and its node ports, where present.\<close>

definition k8s_hints :: "network_spec \<Rightarrow> network_k8s_hints option" where
  "k8s_hints spec = (case ns_ProviderHints spec of None \<Rightarrow> None | Some h \<Rightarrow> h)"

definition hint_node_ports :: "network_spec \<Rightarrow> (string \<times> int) list" where
  "hint_node_ports spec =
     (case k8s_hints spec of None \<Rightarrow> [] | Some h \<Rightarrow> (case nh_NodePorts h of None \<Rightarrow> [] | Some m \<Rightarrow> m))"

section \<open>Validation\<close>

definition validateNetworkID :: "string \<Rightarrow> string option" where
  "validateNetworkID i =
     (if i = ''health'' then Some (''network ID '' @ go_quote i @ '' is reserved and cannot be used'')
      else if \<not> re_match aep122IDPattern i then Some (''network ID '' @ go_quote i @ '' must match AEP-122 pattern'')
      else None)"

fun validatePorts :: "string list \<Rightarrow> port_spec list \<Rightarrow> string option" where
  "validatePorts names [] = None"
| "validatePorts names (p # ps) =
     (if ps_Port p < 1 \<or> ps_Port p > 65535
      then Some (''port '' @ show_int (ps_Port p) @ '' out of range 1-65535'')
      else if (case ps_TargetPort p of None \<Rightarrow> False | Some tp \<Rightarrow> tp < 1 \<or> tp > 65535)
      then Some (''target_port '' @ show_int (the (ps_TargetPort p)) @ '' out of range 1-65535'')
      else if (case ps_Protocol p of None \<Rightarrow> False | Some pr \<Rightarrow> pr \<noteq> ''TCP'' \<and> pr \<noteq> ''UDP'')
      then Some (''unknown protocol '' @ go_quote (the (ps_Protocol p)))
      else case ps_Name p of
             None \<Rightarrow> validatePorts names ps
           | Some n \<Rightarrow>
               if n = '''' then validatePorts names ps
               else if n \<in> set names then Some (''duplicate port name '' @ go_quote n)
               else validatePorts (n # names) ps)"

definition validateNodePorts :: "network_spec \<Rightarrow> string option" where
  "validateNodePorts spec =
     (case find (\<lambda>(_, np). np < 30000 \<or> np > 32767) (hint_node_ports spec) of
        None \<Rightarrow> None
      | Some (name, np) \<Rightarrow>
          Some (''node_port '' @ show_int np @ '' for '' @ go_quote name @ '' out of range 30000-32767''))"

definition network_validateCreateSpec :: "network_spec \<Rightarrow> string option" where
  "network_validateCreateSpec spec =
     (if ns_ServiceType spec \<noteq> network_type then Some (''service_type must be '' @ go_quote network_type)
      else if nm_Name (ns_Metadata spec) = '''' then Some ''metadata.name is required''
      else if ns_Ports spec = [] then Some ''at least one port is required''
      else if (case ns_RoutingLevel spec of None \<Rightarrow> False | Some l \<Rightarrow> l \<noteq> ''application'' \<and> l \<noteq> ''network'')
      then Some (''unknown routing_level '' @ go_quote (the (ns_RoutingLevel spec)))
      else case validatePorts [] (ns_Ports spec) of
             Some e \<Rightarrow> Some e
           | None \<Rightarrow> validateNodePorts spec)"

text \<open>The errors of this package with their texts.\<close>

definition network_invalid :: "string \<Rightarrow> string \<Rightarrow> go_error" where
  "network_invalid field message = InvalidArgumentError (''invalid '' @ field @ '': '' @ message)"

definition network_conflict :: "string \<Rightarrow> string \<Rightarrow> string \<Rightarrow> string \<Rightarrow> go_error" where
  "network_conflict resource field v message =
     ConflictError (if message \<noteq> '''' then message
                    else resource @ '' with '' @ field @ ''='' @ go_quote v @ '' already exists'')"

definition network_not_found :: "string \<Rightarrow> go_error" where
  "network_not_found i = NotFoundError (''network '' @ go_quote i @ '' not found'')"

definition network_ValidateCreate :: "string \<Rightarrow> network_spec \<Rightarrow> go_error option" where
  "network_ValidateCreate i spec =
     (case validateNetworkID i of
        Some e \<Rightarrow> Some (network_invalid '''' e)
      | None \<Rightarrow>
          (case network_validateCreateSpec spec of
             Some e \<Rightarrow> Some (network_invalid '''' e)
           | None \<Rightarrow>
               (case validateUserLabels (nm_Labels (ns_Metadata spec)) of
                  Some e \<Rightarrow> Some (network_invalid '''' e)
                | None \<Rightarrow> None)))"

section \<open>Conversion to and from Services\<close>

definition inferServiceType :: "network_spec \<Rightarrow> string" where
  "inferServiceType spec =
     (case ns_RoutingLevel spec of
        None \<Rightarrow> if hint_node_ports spec \<noteq> [] then ''NodePort'' else ''ClusterIP''
      | Some _ \<Rightarrow> ''LoadBalancer'')"

definition resolvePort :: "port_spec \<Rightarrow> service_port" where
  "resolvePort p =
     \<lparr>port_Name = (case ps_Name p of None \<Rightarrow> '''' | Some n \<Rightarrow> n),
      port_Protocol = (case ps_Protocol p of None \<Rightarrow> ''TCP'' | Some pr \<Rightarrow> pr),
      port_Port = ps_Port p,
      port_TargetPort =
        (case ps_TargetPort p of
           Some tp \<Rightarrow> if tp > 0 then IntVal tp else IntVal (ps_Port p)
         | None \<Rightarrow> IntVal (ps_Port p)),
      port_NodePort = 0\<rparr>"

definition resolvePorts :: "port_spec list \<Rightarrow> service_port list" where
  "resolvePorts specPorts = map resolvePort specPorts"

definition assign_node_port :: "(string \<times> int) list \<Rightarrow> service_port \<Rightarrow> service_port" where
  "assign_node_port nodePorts p =
     (case map_of nodePorts (port_Name p) of Some np \<Rightarrow> p\<lparr>port_NodePort := np\<rparr> | None \<Rightarrow> p)"

definition network_buildService :: "network_spec \<Rightarrow> string \<Rightarrow> labels \<Rightarrow> service" where
  "network_buildService spec namespace ls =
     (let service =
        \<lparr>svc_Name = nm_Name (ns_Metadata spec), svc_GenerateName = '''', svc_Namespace = namespace,
         svc_Labels = ls, svc_CreationTimestamp = 0, svc_Type = inferServiceType spec, svc_ClusterIP = '''',
         svc_Ports = resolvePorts (ns_Ports spec), svc_Selector = [], svc_Ingress = []\<rparr>
      in case k8s_hints spec of
           None \<Rightarrow> service
         | Some h \<Rightarrow>
             let service =
                   (case nh_ClusterIp h of
                      Some ip \<Rightarrow> if ip \<noteq> '''' then service\<lparr>svc_ClusterIP := ip\<rparr> else service
                    | None \<Rightarrow> service);
                 service =
                   (case nh_NodePorts h of
                      Some m \<Rightarrow>
                        if m \<noteq> [] then service\<lparr>svc_Ports := map (assign_node_port m) (svc_Ports service)\<rparr> else service
                    | None \<Rightarrow> service)
             in case nh_Selector h of Some sel \<Rightarrow> service\<lparr>svc_Selector := sel\<rparr> | None \<Rightarrow> service)"

definition portFromService :: "service_port \<Rightarrow> port_spec" where
  "portFromService p =
     \<lparr>ps_Name = (if port_Name p \<noteq> '''' then Some (port_Name p) else None),
      ps_NodePort = (if port_NodePort p > 0 then Some (port_NodePort p) else None),
      ps_Port = port_Port p,
      ps_Protocol = Some (port_Protocol p),
      ps_TargetPort = (let tp = IntValue (port_TargetPort p) in if tp > 0 then Some (wrap32 tp) else None)\<rparr>"

definition portsFromService :: "service \<Rightarrow> port_spec list" where
  "portsFromService service = map portFromService (svc_Ports service)"

definition MapServiceToStatus :: "service option \<Rightarrow> string \<times> string" where
  "MapServiceToStatus service =
     (case service of
        None \<Rightarrow> (''DELETED'', ''resource no longer exists'')
      | Some svc \<Rightarrow>
          if svc_Type svc = ''LoadBalancer'' \<and> svc_Ingress svc = [] then (''PENDING'', ''waiting for external IP assignment'')
          else (''READY'', ''service is ready''))"

definition convertServiceType :: "string \<Rightarrow> string" where
  "convertServiceType t =
     (if t = ''ClusterIP'' then ''ClusterIP''
      else if t = ''NodePort'' then ''NodePort''
      else if t = ''LoadBalancer'' then ''LoadBalancer''
      else ''ClusterIP'')"

definition extractExternalIPs :: "(string \<times> string) list \<Rightarrow> string list" where
  "extractExternalIPs ingress =
     concat (map (\<lambda>(ip, host). if ip \<noteq> '''' then [ip] else if host \<noteq> '''' then [host] else []) ingress)"

definition buildKubernetesState :: "service \<Rightarrow> kubernetes_state" where
  "buildKubernetesState service =
     \<lparr>kst_Type = convertServiceType (svc_Type service),
      kst_ClusterIp = (if svc_ClusterIP service \<noteq> '''' then Some (svc_ClusterIP service) else None),
      kst_Selector = (if svc_Selector service \<noteq> [] then Some (svc_Selector service) else None),
      kst_ExternalIps =
        (let ips = extractExternalIPs (svc_Ingress service)
         in if svc_Type service = ''LoadBalancer'' \<and> ips \<noteq> [] then Some ips else None)\<rparr>"

definition serviceToNetwork :: "service \<Rightarrow> string \<Rightarrow> network" where
  "serviceToNetwork service instanceID =
     \<lparr>net_Id = instanceID, net_Path = ''networks/'' @ instanceID,
      net_CreateTime = svc_CreationTimestamp service, net_UpdateTime = svc_CreationTimestamp service,
      net_Spec =
        \<lparr>ns_Metadata =
           \<lparr>nm_Name = svc_Name service, nm_Namespace = Some (svc_Namespace service),
            nm_Labels = (let ul = userLabels (svc_Labels service) in if ul \<noteq> [] then Some ul else None)\<rparr>,
         ns_Ports = portsFromService service,
         ns_ProviderHints = None,
         ns_RoutingLevel = (if svc_Type service = ''LoadBalancer'' then Some ''network'' else None),
         ns_ServiceType = network_type\<rparr>,
      net_Status = fst (MapServiceToStatus (Some service)),
      net_Kubernetes = buildKubernetesState service\<rparr>"

section \<open>The store\<close>

definition findService :: "kube_env \<Rightarrow> string \<Rightarrow> kube_trace \<Rightarrow> string \<Rightarrow> kube_trace \<times> (go_error + service)" where
  "findService env ns tr networkID =
     (case kube (k_list_services env) tr (ListServices ns (dcm_Labels network_type networkID) 0 '''') of
        (tr, Inl e) \<Rightarrow> (tr, Inl (Wrapped ''listing services'' (KubeError e)))
      | (tr, Inr (items, _)) \<Rightarrow>
          (case items of
             [] \<Rightarrow> (tr, Inl (network_not_found networkID))
           | [svc] \<Rightarrow>
               if \<not> is_dcm_managed network_type (svc_Labels svc) networkID then (tr, Inl (network_not_found networkID))
               else (tr, Inr svc)
           | _ \<Rightarrow> (tr, Inl (network_conflict '''' '''' '''' (''multiple services found with id '' @ go_quote networkID)))))"

definition isNodePortAlreadyAllocated :: "kube_error \<Rightarrow> bool" where
  "isNodePortAlreadyAllocated e =
     (case ke_Causes e of None \<Rightarrow> False | Some causes \<Rightarrow> list_ex (\<lambda>m. str_contains m ''already allocated'') causes)"

text \<open>The bidirectional check of port names against the \<open>node_ports\<close> keys.\<close>

fun check_port_names :: "(string \<times> int) list \<Rightarrow> port_spec list \<Rightarrow> go_error option" where
  "check_port_names nodePorts [] = None"
| "check_port_names nodePorts (p # ps) =
     (let n = (case ps_Name p of None \<Rightarrow> '''' | Some n \<Rightarrow> n)
      in if n = '''' then Some (network_invalid ''ports'' ''all ports must have names when node_ports are specified'')
         else if map_of nodePorts n = None
         then Some (network_invalid ''ports'' (''port name '' @ go_quote n @ '' not found in node_ports map''))
         else check_port_names nodePorts ps)"

definition check_node_ports :: "network_spec \<Rightarrow> go_error option" where
  "check_node_ports spec =
     (let nodePorts = hint_node_ports spec
      in if nodePorts = [] then None
         else case check_port_names nodePorts (ns_Ports spec) of
                Some e \<Rightarrow> Some e
              | None \<Rightarrow>
                  (case find (\<lambda>(k, _). \<not> list_ex (\<lambda>p. ps_Name p = Some k) (ns_Ports spec)) nodePorts of
                     None \<Rightarrow> None
                   | Some (k, _) \<Rightarrow>
                       Some (network_invalid ''provider_hints.kubernetes.node_ports''
                               (''node_ports key '' @ go_quote k @ '' does not match any port name''))))"

definition network_labels :: "network_spec \<Rightarrow> string \<Rightarrow> labels" where
  "network_labels spec i =
     (case nm_Labels (ns_Metadata spec) of
        None \<Rightarrow> dcm_Labels network_type i
      | Some user \<Rightarrow> mergeLabels (dcm_Labels network_type i) user)"

definition network_create_error :: "string \<Rightarrow> kube_error \<Rightarrow> go_error" where
  "network_create_error name e =
     (if ke_Reason e = AlreadyExists then network_conflict ''network'' ''metadata.name'' name ''''
      else if ke_Reason e = Invalid
      then if isNodePortAlreadyAllocated e then network_conflict ''network'' '''' '''' (ke_Error e)
           else network_invalid '''' (''invalid service spec: '' @ ke_Error e)
      else Wrapped ''failed to create service'' (KubeError e))"

definition network_Create :: "kube_env \<Rightarrow> string \<Rightarrow> kube_trace \<Rightarrow> network_spec \<Rightarrow> string \<Rightarrow> kube_trace \<times> (go_error + network)" where
  "network_Create env ns tr spec i =
     (if ns_RoutingLevel spec = Some ''application''
      then (tr, Inl (network_invalid ''routing_level'' (''unknown routing_level '' @ go_quote ''application'')))
      else case check_node_ports spec of
        Some e \<Rightarrow> (tr, Inl e)
      | None \<Rightarrow>
          (case kube (k_create_service env) tr (CreateService (network_buildService spec ns (network_labels spec i))) of
             (tr, Inl e) \<Rightarrow> (tr, Inl (network_create_error (nm_Name (ns_Metadata spec)) e))
           | (tr, Inr created) \<Rightarrow> (tr, Inr (serviceToNetwork created i))))"

definition network_Delete :: "kube_env \<Rightarrow> string \<Rightarrow> kube_trace \<Rightarrow> string \<Rightarrow> kube_trace \<times> go_error option" where
  "network_Delete env ns tr networkID =
     (case findService env ns tr networkID of
        (tr, Inl e) \<Rightarrow> (tr, Some (Wrapped ''finding service'' e))
      | (tr, Inr service) \<Rightarrow>
          (case kube (k_delete env) tr (DeleteService ns (svc_Name service)) of
             (tr, None) \<Rightarrow> (tr, None)
           | (tr, Some e) \<Rightarrow>
               if ke_Reason e = NotFound then (tr, None) else (tr, Some (Wrapped ''deleting service'' (KubeError e)))))"

definition network_Get :: "kube_env \<Rightarrow> string \<Rightarrow> kube_trace \<Rightarrow> string \<Rightarrow> kube_trace \<times> (go_error + network)" where
  "network_Get env ns tr networkID =
     (case findService env ns tr networkID of
        (tr, Inl e) \<Rightarrow> (tr, Inl (Wrapped ''finding service'' e))
      | (tr, Inr service) \<Rightarrow> (tr, Inr (serviceToNetwork service networkID)))"

definition network_mapListError :: "kube_error \<Rightarrow> go_error" where
  "network_mapListError e =
     (case ke_Status e of
        Some (code, m) \<Rightarrow>
          if code = 400
          then if bad_page_token m then network_invalid ''page_token'' ''invalid page_token''
               else if m \<noteq> '''' then network_invalid '''' m
               else network_invalid '''' ''invalid argument''
          else Wrapped ''listing services'' (KubeError e)
      | None \<Rightarrow> Wrapped ''listing services'' (KubeError e))"

text \<open>A page: the networks and the token of the next page, if there is one.\<close>

definition network_List ::
  "kube_env \<Rightarrow> string \<Rightarrow> kube_trace \<Rightarrow> int \<Rightarrow> string \<Rightarrow> kube_trace \<times> (go_error + network list \<times> string option)" where
  "network_List env ns tr maxPageSize pageToken =
     (case kube (k_list_services env) tr
             (ListServices ns (dcm_Selector network_type) (normalizePageSize maxPageSize) pageToken) of
        (tr, Inl e) \<Rightarrow> (tr, Inl (network_mapListError e))
      | (tr, Inr (items, continue)) \<Rightarrow>
          let networks = concat (map (\<lambda>svc.
                let instanceID = label_at (svc_Labels svc) LabelInstanceID
                in if instanceID = '''' \<or> \<not> is_dcm_managed network_type (svc_Labels svc) instanceID then []
                   else [serviceToNetwork svc instanceID]) items)
          in (tr, Inr (networks, if continue \<noteq> '''' then Some continue else None)))"

section \<open>The embedded handler\<close>

definition network_mapStoreError :: "go_error \<Rightarrow> fwd_error" where
  "network_mapStoreError e =
     (case root_cause e of
        NotFoundError _ \<Rightarrow> SPResponseError 404 (error_text e)
      | ConflictError _ \<Rightarrow> SPResponseError 409 (error_text e)
      | InvalidArgumentError _ \<Rightarrow> SPResponseError 400 (error_text e)
      | _ \<Rightarrow> SPResponseError 500 (error_text e))"

definition parse_bare_network :: "network_spec spec_codec \<Rightarrow> json \<Rightarrow> string + network_spec" where
  "parse_bare_network codec payload =
     (case dec_spec codec payload of
        Inl e \<Rightarrow> Inl (''invalid network spec: '' @ e)
      | Inr spec \<Rightarrow>
          if nm_Name (ns_Metadata spec) = '''' then Inl ''spec.metadata.name is required'' else Inr spec)"

definition parseNetworkSpec :: "network_spec spec_codec \<Rightarrow> json option \<Rightarrow> string + network_spec" where
  "parseNetworkSpec codec raw =
     (case SpecJSON codec raw of
        Inl e \<Rightarrow> Inl e
      | Inr payload \<Rightarrow>
          (case dec_resource codec payload of
             Inr spec \<Rightarrow> if ns_ServiceType spec \<noteq> '''' then Inr spec else parse_bare_network codec payload
           | Inl _ \<Rightarrow> parse_bare_network codec payload))"

definition drop_empty_level :: "network_spec \<Rightarrow> network_spec" where
  "drop_empty_level spec = (if ns_RoutingLevel spec = Some '''' then spec\<lparr>ns_RoutingLevel := None\<rparr> else spec)"

definition network_CreateResource ::
  "network_spec spec_codec \<Rightarrow> kube_env \<Rightarrow> string \<Rightarrow> kube_trace \<Rightarrow> string \<Rightarrow> json option \<Rightarrow> kube_trace \<times> fwd_error option" where
  "network_CreateResource codec env ns tr resourceID raw =
     (case parseNetworkSpec codec raw of
        Inl e \<Rightarrow> (tr, Some (SPResponseError 400 e))
      | Inr spec \<Rightarrow>
          let spec = drop_empty_level spec
          in case network_ValidateCreate resourceID spec of
               Some e \<Rightarrow> (tr, Some (network_mapStoreError e))
             | None \<Rightarrow>
                 (case network_Create env ns tr spec resourceID of
                    (tr, Inl e) \<Rightarrow> (tr, Some (network_mapStoreError e))
                  | (tr, Inr _) \<Rightarrow> (tr, None)))"

definition network_DeleteResource :: "kube_env \<Rightarrow> string \<Rightarrow> kube_trace \<Rightarrow> string \<Rightarrow> kube_trace \<times> fwd_error option" where
  "network_DeleteResource env ns tr resourceID =
     (case network_Delete env ns tr resourceID of
        (tr, Some e) \<Rightarrow> (tr, Some (network_mapStoreError e))
      | (tr, None) \<Rightarrow> (tr, None))"

section \<open>What is accepted\<close>

definition port_name :: "port_spec \<Rightarrow> string" where
  "port_name p = (case ps_Name p of None \<Rightarrow> '''' | Some n \<Rightarrow> n)"

definition port_numbers_ok :: "port_spec \<Rightarrow> bool" where
  "port_numbers_ok p \<longleftrightarrow>
     1 \<le> ps_Port p \<and> ps_Port p \<le> 65535 \<and>
     (\<forall>tp. ps_TargetPort p = Some tp \<longrightarrow> 1 \<le> tp \<and> tp \<le> 65535) \<and>
     (\<forall>pr. ps_Protocol p = Some pr \<longrightarrow> pr = ''TCP'' \<or> pr = ''UDP'')"

abbreviation given_names :: "port_spec list \<Rightarrow> string list" where
  "given_names ps \<equiv> filter (\<lambda>n. n \<noteq> '''') (map port_name ps)"

lemma validatePorts_Cons:
  "validatePorts names (p # ps) = None \<longleftrightarrow>
     port_numbers_ok p \<and>
     (if port_name p = '''' then validatePorts names ps = None
      else port_name p \<notin> set names \<and> validatePorts (port_name p # names) ps = None)"
  by (simp add: port_numbers_ok_def port_name_def split: option.splits)

lemma validatePorts_iff:
  "validatePorts names ps = None \<longleftrightarrow>
     (\<forall>p \<in> set ps. port_numbers_ok p) \<and> distinct (given_names ps) \<and> set (given_names ps) \<inter> set names = {}"
proof (induction ps arbitrary: names)
  case (Cons p ps)
  show ?case unfolding validatePorts_Cons Cons.IH by (cases "port_name p = ''''") auto
qed simp

lemma validateNodePorts_iff:
  "validateNodePorts spec = None \<longleftrightarrow> (\<forall>x \<in> set (hint_node_ports spec). 30000 \<le> snd x \<and> snd x \<le> 32767)"
proof -
  have "validateNodePorts spec = None \<longleftrightarrow> find (\<lambda>(_, np). np < 30000 \<or> np > 32767) (hint_node_ports spec) = None"
    by (simp add: validateNodePorts_def split: option.splits)
  then show ?thesis by (auto simp: find_None_iff not_less)
qed

lemma check_port_names_iff:
  "check_port_names m ps = None \<longleftrightarrow> (\<forall>p \<in> set ps. port_name p \<noteq> '''' \<and> map_of m (port_name p) \<noteq> None)"
  by (induction ps) (auto simp: Let_def port_name_def)

lemma check_node_ports_invalid: "check_node_ports spec = Some e \<Longrightarrow> \<exists>f m. e = network_invalid f m"
proof -
  have names: "check_port_names m ps = Some e \<Longrightarrow> \<exists>f t. e = network_invalid f t" for m ps
    by (induction ps) (auto simp: Let_def split: if_splits)
  then show "check_node_ports spec = Some e \<Longrightarrow> ?thesis"
    by (auto simp: check_node_ports_def Let_def split: if_splits option.splits)
qed

definition network_accepts :: "network_spec spec_codec \<Rightarrow> string \<Rightarrow> json option \<Rightarrow> bool" where
  "network_accepts codec i raw =
     (case parseNetworkSpec codec raw of
        Inl _ \<Rightarrow> False
      | Inr spec \<Rightarrow>
          let spec = drop_empty_level spec
          in network_ValidateCreate i spec = None \<and> ns_RoutingLevel spec \<noteq> Some ''application'' \<and> check_node_ports spec = None)"

lemma network_invalid_400: "network_mapStoreError (network_invalid f m) = SPResponseError 400 (error_text (network_invalid f m))"
  by (simp add: network_mapStoreError_def network_invalid_def)

lemma network_ValidateCreate_invalid: "network_ValidateCreate i spec = Some e \<Longrightarrow> \<exists>m. e = network_invalid '''' m"
  by (auto simp: network_ValidateCreate_def split: option.splits)

lemma network_refused:
  assumes "\<not> network_accepts codec i raw"
  shows "\<exists>m. network_CreateResource codec env ns tr i raw = (tr, Some (SPResponseError 400 m))"
proof (cases "parseNetworkSpec codec raw")
  case (Inr spec)
  show ?thesis
  proof (cases "network_ValidateCreate i (drop_empty_level spec)")
    case None
    with assms Inr show ?thesis
      by (auto simp: network_accepts_def network_CreateResource_def network_Create_def network_invalid_400 Let_def
          dest: check_node_ports_invalid split: option.splits)
  next
    case (Some e)
    then obtain m where "e = network_invalid '''' m" using network_ValidateCreate_invalid by blast
    with Some Inr show ?thesis by (simp add: network_CreateResource_def Let_def network_invalid_400)
  qed
qed (simp add: network_CreateResource_def)

text \<open>An accepted request is one call that creates the built Service.\<close>

lemma network_accepted:
  assumes "network_accepts codec i raw"
  obtains spec where "parseNetworkSpec codec raw = Inr spec"
    "network_ValidateCreate i (drop_empty_level spec) = None"
    "ns_RoutingLevel (drop_empty_level spec) \<noteq> Some ''application''"
    "check_node_ports (drop_empty_level spec) = None"
    "network_CreateResource codec env ns tr i raw =
       (let tr' = tr @ [CreateService (network_buildService (drop_empty_level spec) ns (network_labels (drop_empty_level spec) i))]
        in (tr', case k_create_service env tr' of
                   Inl e \<Rightarrow> Some (network_mapStoreError (network_create_error (nm_Name (ns_Metadata spec)) e))
                 | Inr _ \<Rightarrow> None))"
proof -
  from assms obtain spec where p: "parseNetworkSpec codec raw = Inr spec"
    by (auto simp: network_accepts_def split: sum.splits)
  have n: "nm_Name (ns_Metadata (drop_empty_level spec)) = nm_Name (ns_Metadata spec)"
    by (simp add: drop_empty_level_def)
  show thesis
    using assms p n by (intro that [of spec])
      (auto simp: network_accepts_def network_CreateResource_def network_Create_def kube_def Let_def split: sum.splits)
qed

lemma network_mapStoreError_sp: "sp_error (Some (network_mapStoreError e))"
  by (simp add: network_mapStoreError_def sp_error_def split: go_error.split)

lemma network_Delete_calls:
  "\<exists>seg. fst (network_Delete env ns tr i) = tr @ seg \<and> (\<forall>c \<in> set seg. \<not> creates c)"
  by (auto simp: network_Delete_def findService_def kube_def split: sum.splits list.splits option.splits)

interpretation net_h: embedded_handler "network_accepts codec" "network_CreateResource codec env ns" "network_DeleteResource env ns"
  for codec env ns
proof
  fix i raw tr
  show "\<not> network_accepts codec i raw \<Longrightarrow> \<exists>m. network_CreateResource codec env ns tr i raw = (tr, Some (SPResponseError 400 m))"
    by (rule network_refused)
  show "sp_error (snd (network_CreateResource codec env ns tr i raw))"
  proof (cases "network_accepts codec i raw")
    case True
    then show ?thesis
      by (rule network_accepted [where env = env and ns = ns and tr = tr])
        (simp add: network_mapStoreError_sp Let_def split: sum.split)
  next
    case False
    from network_refused [OF this, of env ns tr] show ?thesis by auto
  qed
  show "sp_error (snd (network_DeleteResource env ns tr i))"
    by (simp add: network_DeleteResource_def network_mapStoreError_sp split: prod.split option.split)
  show "\<exists>seg. fst (network_CreateResource codec env ns tr i raw) = tr @ seg \<and> list_all (\<lambda>c. creates c \<longrightarrow> network_accepts codec i raw) seg"
  proof (cases "network_accepts codec i raw")
    case True
    then show ?thesis
      by (rule network_accepted [where env = env and ns = ns and tr = tr]) (simp add: Let_def True)
  next
    case False
    from network_refused [OF this, of env ns tr] show ?thesis by auto
  qed
  show "\<exists>seg. fst (network_DeleteResource env ns tr i) = tr @ seg \<and> (\<forall>c \<in> set seg. \<not> creates c)"
    using network_Delete_calls [of env ns tr i] by (auto simp: network_DeleteResource_def split: prod.splits option.splits)
qed

section \<open>Created services\<close>

text \<open>A Service that the cluster may be asked to create for network \<open>i\<close>.\<close>

definition service_wf :: "string \<Rightarrow> string \<Rightarrow> service \<Rightarrow> bool" where
  "service_wf ns i svc \<longleftrightarrow>
     svc_Name svc \<noteq> '''' \<and> svc_Namespace svc = ns \<and> is_dcm_managed network_type (svc_Labels svc) i \<and>
     svc_Type svc \<in> {''ClusterIP'', ''NodePort'', ''LoadBalancer''} \<and>
     svc_Ports svc \<noteq> [] \<and> distinct (filter (\<lambda>n. n \<noteq> '''') (map port_Name (svc_Ports svc))) \<and>
     (\<forall>p \<in> set (svc_Ports svc).
        1 \<le> port_Port p \<and> port_Port p \<le> 65535 \<and>
        (\<exists>tp. port_TargetPort p = IntVal tp \<and> 1 \<le> tp \<and> tp \<le> 65535) \<and>
        port_Protocol p \<in> {''TCP'', ''UDP''} \<and>
        (port_NodePort p = 0 \<or> 30000 \<le> port_NodePort p \<and> port_NodePort p \<le> 32767) \<and>
        (svc_Type svc = ''NodePort'' \<longrightarrow> port_NodePort p \<noteq> 0))"

lemma assign_Nil [simp]: "assign_node_port [] p = p"
  by (simp add: assign_node_port_def)

lemma buildService_sel [simp]:
  "svc_Name (network_buildService spec ns ls) = nm_Name (ns_Metadata spec)"
  "svc_Namespace (network_buildService spec ns ls) = ns"
  "svc_Labels (network_buildService spec ns ls) = ls"
  "svc_Type (network_buildService spec ns ls) = inferServiceType spec"
  "svc_Ports (network_buildService spec ns ls) = map (\<lambda>p. assign_node_port (hint_node_ports spec) (resolvePort p)) (ns_Ports spec)"
  by (simp_all add: network_buildService_def hint_node_ports_def resolvePorts_def Let_def comp_def split: option.split)

lemma assign_sel [simp]:
  "port_Name (assign_node_port m p) = port_Name p" "port_Protocol (assign_node_port m p) = port_Protocol p"
  "port_Port (assign_node_port m p) = port_Port p" "port_TargetPort (assign_node_port m p) = port_TargetPort p"
  by (simp_all add: assign_node_port_def split: option.split)

lemma resolvePort_name [simp]: "port_Name (resolvePort p) = port_name p"
  by (simp add: resolvePort_def port_name_def)

lemma assign_node_port_cases:
  "port_NodePort p = 0 \<Longrightarrow> port_NodePort (assign_node_port m p) = (case map_of m (port_Name p) of None \<Rightarrow> 0 | Some np \<Rightarrow> np)"
  by (simp add: assign_node_port_def split: option.split)

lemma network_ValidateCreate_iff:
  "network_ValidateCreate i spec = None \<longleftrightarrow>
     validateNetworkID i = None \<and> ns_ServiceType spec = network_type \<and> nm_Name (ns_Metadata spec) \<noteq> '''' \<and> ns_Ports spec \<noteq> [] \<and>
     (\<forall>l. ns_RoutingLevel spec = Some l \<longrightarrow> l = ''application'' \<or> l = ''network'') \<and>
     (\<forall>p \<in> set (ns_Ports spec). port_numbers_ok p) \<and> distinct (given_names (ns_Ports spec)) \<and>
     (\<forall>x \<in> set (hint_node_ports spec). 30000 \<le> snd x \<and> snd x \<le> 32767) \<and>
     (\<forall>l. nm_Labels (ns_Metadata spec) = Some l \<longrightarrow> dom (map_of l) \<inter> set ReservedLabelKeys = {})"
proof -
  have c: "network_ValidateCreate i spec = None \<longleftrightarrow>
      validateNetworkID i = None \<and> network_validateCreateSpec spec = None \<and> validateUserLabels (nm_Labels (ns_Metadata spec)) = None"
    by (simp add: network_ValidateCreate_def split: option.split)
  have s: "network_validateCreateSpec spec = None \<longleftrightarrow>
      ns_ServiceType spec = network_type \<and> nm_Name (ns_Metadata spec) \<noteq> '''' \<and> ns_Ports spec \<noteq> [] \<and>
      (\<forall>l. ns_RoutingLevel spec = Some l \<longrightarrow> l = ''application'' \<or> l = ''network'') \<and>
      validatePorts [] (ns_Ports spec) = None \<and> validateNodePorts spec = None"
    by (simp add: network_validateCreateSpec_def split: option.split)
  show ?thesis unfolding c s validatePorts_iff validateNodePorts_iff validateUserLabels_iff by auto
qed

lemma network_labels_managed: "is_dcm_managed network_type (network_labels spec i) i"
  by (simp add: network_labels_def merged_managed base_managed split: option.split)

lemma resolved_port_wf:
  assumes "port_numbers_ok p"
  shows "1 \<le> port_Port (resolvePort p) \<and> port_Port (resolvePort p) \<le> 65535 \<and>
     (\<exists>tp. port_TargetPort (resolvePort p) = IntVal tp \<and> 1 \<le> tp \<and> tp \<le> 65535) \<and>
     port_Protocol (resolvePort p) \<in> {''TCP'', ''UDP''}"
  using assms by (auto simp: port_numbers_ok_def resolvePort_def split: option.split)

lemma built_service_wf:
  assumes v: "network_ValidateCreate i spec = None" and n: "check_node_ports spec = None"
  shows "service_wf ns i (network_buildService spec ns (network_labels spec i))"
proof -
  note v = v [unfolded network_ValidateCreate_iff]
  let ?m = "hint_node_ports spec"
  have np: "port_NodePort (assign_node_port ?m (resolvePort p)) = (case map_of ?m (port_name p) of None \<Rightarrow> 0 | Some np \<Rightarrow> np)" for p
    by (subst assign_node_port_cases) (simp_all add: resolvePort_def port_name_def)
  have range: "map_of ?m k = Some x \<Longrightarrow> 30000 \<le> x \<and> x \<le> 32767" for k x
    using v map_of_SomeD [of ?m k x] by force
  have nz: "map_of ?m k \<noteq> Some 0" for k using range [of k 0] by auto
  have all: "?m \<noteq> [] \<Longrightarrow> p \<in> set (ns_Ports spec) \<Longrightarrow> map_of ?m (port_name p) \<noteq> None" for p
    using n by (auto simp: check_node_ports_def Let_def check_port_names_iff split: option.splits if_splits)
  have "svc_Type (network_buildService spec ns (network_labels spec i)) = ''NodePort'' \<Longrightarrow> ?m \<noteq> []"
    by (simp add: inferServiceType_def split: option.splits if_splits)
  moreover have "distinct (filter (\<lambda>n. n \<noteq> '''') (map port_Name (svc_Ports (network_buildService spec ns (network_labels spec i)))))"
    using v by (simp add: comp_def)
  ultimately show ?thesis
    unfolding service_wf_def using v range all resolved_port_wf
    by (auto simp: np nz network_labels_managed inferServiceType_def split: option.split)
qed

text \<open>C33: a network create request either reaches the cluster as exactly one call, which creates a
  well-formed Service (in the configured namespace, carrying DCM's labels for this instance whatever the user's
  labels, with named ports distinct, all port, target and node port numbers in range and, for a \<open>NodePort\<close>
  service, a node port on every port), or it is refused with status 400 and the cluster is not touched; it
  succeeds exactly when the API server created the Service.\<close>

theorem network_create_safe:
  "(\<exists>svc. service_wf ns i svc \<and> fst (network_CreateResource codec env ns tr i raw) = tr @ [CreateService svc] \<and>
       (snd (network_CreateResource codec env ns tr i raw) = None \<longleftrightarrow> \<not> isl (k_create_service env (tr @ [CreateService svc])))) \<or>
   (\<exists>m. network_CreateResource codec env ns tr i raw = (tr, Some (SPResponseError 400 m)))"
proof (cases "network_accepts codec i raw")
  case True
  then obtain spec where a: "network_ValidateCreate i (drop_empty_level spec) = None" "check_node_ports (drop_empty_level spec) = None"
    and r: "network_CreateResource codec env ns tr i raw =
       (let tr' = tr @ [CreateService (network_buildService (drop_empty_level spec) ns (network_labels (drop_empty_level spec) i))]
        in (tr', case k_create_service env tr' of
                   Inl e \<Rightarrow> Some (network_mapStoreError (network_create_error (nm_Name (ns_Metadata spec)) e))
                 | Inr _ \<Rightarrow> None))"
    by (rule network_accepted [where env = env and ns = ns and tr = tr])
  show ?thesis
    using built_service_wf [OF a, of ns]
    by (intro disjI1 exI conjI, assumption) (auto simp: r Let_def split: sum.split)
next
  case False
  then show ?thesis by (intro disjI2 network_refused)
qed

section \<open>Reading a network back\<close>

text \<open>What the API server keeps of a Service it was asked to create: the name, namespace, labels and type,
  the ports in order, and a node port that was asked for.  It assigns the rest.\<close>

definition kept_port :: "service_port \<Rightarrow> service_port \<Rightarrow> bool" where
  "kept_port p q \<longleftrightarrow>
     port_Name q = port_Name p \<and> port_Protocol q = port_Protocol p \<and> port_Port q = port_Port p \<and>
     port_TargetPort q = port_TargetPort p \<and> (port_NodePort p \<noteq> 0 \<longrightarrow> port_NodePort q = port_NodePort p)"

definition stored_as :: "service \<Rightarrow> service \<Rightarrow> bool" where
  "stored_as sent kept \<longleftrightarrow>
     svc_Name kept = svc_Name sent \<and> svc_Namespace kept = svc_Namespace sent \<and>
     map_of (svc_Labels kept) = map_of (svc_Labels sent) \<and> svc_Type kept = svc_Type sent \<and>
     list_all2 kept_port (svc_Ports sent) (svc_Ports kept)"

text \<open>How a port reads back: the protocol and the target port with their defaults filled in.\<close>

definition reads_back :: "(string \<times> int) list \<Rightarrow> port_spec \<Rightarrow> port_spec \<Rightarrow> bool" where
  "reads_back nodePorts p q \<longleftrightarrow>
     port_name q = port_name p \<and> ps_Port q = ps_Port p \<and>
     ps_Protocol q = Some (case ps_Protocol p of None \<Rightarrow> ''TCP'' | Some pr \<Rightarrow> pr) \<and>
     ps_TargetPort q = Some (case ps_TargetPort p of None \<Rightarrow> ps_Port p | Some tp \<Rightarrow> tp) \<and>
     (\<forall>np. map_of nodePorts (port_name p) = Some np \<longrightarrow> ps_NodePort q = Some np)"

abbreviation labels_or_none :: "labels option \<Rightarrow> labels" where
  "labels_or_none m \<equiv> (case m of None \<Rightarrow> [] | Some l \<Rightarrow> l)"

lemma managed_map_of: "map_of m = map_of m' \<Longrightarrow> is_dcm_managed st m i = is_dcm_managed st m' i"
  by (simp add: is_dcm_managed_def label_at_def)

lemma port_reads_back:
  assumes ok: "port_numbers_ok p" and range: "\<And>np. map_of m (port_name p) = Some np \<Longrightarrow> 0 < np"
    and k: "kept_port (assign_node_port m (resolvePort p)) q"
  shows "reads_back m p (portFromService q)"
proof -
  obtain tp where tp: "port_TargetPort q = IntVal tp" "tp = (case ps_TargetPort p of None \<Rightarrow> ps_Port p | Some tp \<Rightarrow> tp)" "0 < tp" "tp \<le> 65535"
    using ok k by (auto simp: kept_port_def port_numbers_ok_def resolvePort_def split: option.splits)
  have np: "port_NodePort q = np" "0 < np" if "map_of m (port_name p) = Some np" for np
    using k range [OF that] that by (simp_all add: kept_port_def assign_node_port_def)
  have "wrap32 tp = tp" using tp by (intro wrap32_id) auto
  then show ?thesis
    using k tp np by (auto simp: reads_back_def portFromService_def kept_port_def IntValue_def port_name_def resolvePort_def Let_def split: option.splits)
qed

lemma user_labels_read_back:
  assumes "map_of (svc_Labels kept) = map_of (network_labels spec i)"
    and "\<forall>l. nm_Labels (ns_Metadata spec) = Some l \<longrightarrow> dom (map_of l) \<inter> set ReservedLabelKeys = {}"
  shows "map_of (userLabels (svc_Labels kept)) = map_of (labels_or_none (nm_Labels (ns_Metadata spec)))"
proof -
  have "map_of (userLabels (svc_Labels kept)) = map_of (userLabels (network_labels spec i))"
    using assms(1) by (simp add: map_of_userLabels)
  also have "\<dots> = map_of (labels_or_none (nm_Labels (ns_Metadata spec)))"
  proof (cases "nm_Labels (ns_Metadata spec)")
    case None
    then show ?thesis by (simp add: network_labels_def userLabels_def dcm_Labels_def)
  next
    case (Some l)
    then show ?thesis using assms(2)
      by (simp add: network_labels_def merged_user_labels) (auto simp: restrict_map_def fun_eq_iff domIff)
  qed
  finally show ?thesis .
qed

text \<open>C34: a network that was created from a valid specification reads back as it was specified: when the
  cluster lists one Service for the instance, stored as it was sent, \<open>Get\<close> returns a network with the
  instance's id, the specified name, user labels and routing level, and the specified ports in order, with the
  defaults for protocol and target port and the requested node ports.\<close>

theorem network_read_back:
  assumes v: "network_ValidateCreate i spec = None" and level: "ns_RoutingLevel spec \<noteq> Some ''application''"
    and list: "k_list_services env (tr @ [ListServices ns (dcm_Labels network_type i) 0 '''']) = Inr ([kept], c)"
    and kept: "stored_as (network_buildService spec ns (network_labels spec i)) kept"
  shows "\<exists>tr' n. network_Get env ns tr i = (tr', Inr n) \<and> net_Id n = i \<and>
     nm_Name (ns_Metadata (net_Spec n)) = nm_Name (ns_Metadata spec) \<and>
     map_of (labels_or_none (nm_Labels (ns_Metadata (net_Spec n)))) = map_of (labels_or_none (nm_Labels (ns_Metadata spec))) \<and>
     ns_RoutingLevel (net_Spec n) = ns_RoutingLevel spec \<and>
     list_all2 (reads_back (hint_node_ports spec)) (ns_Ports spec) (ns_Ports (net_Spec n))"
proof -
  note v = v [unfolded network_ValidateCreate_iff]
  have m: "map_of (svc_Labels kept) = map_of (network_labels spec i)" using kept by (simp add: stored_as_def)
  have managed: "is_dcm_managed network_type (svc_Labels kept) i"
    using managed_map_of [OF m] network_labels_managed by simp
  have get: "network_Get env ns tr i = (tr @ [ListServices ns (dcm_Labels network_type i) 0 ''''], Inr (serviceToNetwork kept i))"
    using list managed by (simp add: network_Get_def findService_def kube_def)
  have range: "map_of (hint_node_ports spec) k = Some np \<Longrightarrow> 0 < np" for k np
    using v map_of_SomeD [of "hint_node_ports spec" k np] by force
  have ports: "list_all2 (reads_back (hint_node_ports spec)) (ns_Ports spec) (portsFromService kept)"
    using kept v range
    by (auto simp: stored_as_def portsFromService_def list_all2_map1 list_all2_map2
        intro: port_reads_back elim!: list.rel_mono_strong)
  have lev: "ns_RoutingLevel (net_Spec (serviceToNetwork kept i)) = ns_RoutingLevel spec"
    using kept v level by (auto simp: serviceToNetwork_def stored_as_def inferServiceType_def split: option.splits if_splits)
  have ul: "map_of (labels_or_none (nm_Labels (ns_Metadata (net_Spec (serviceToNetwork kept i))))) =
      map_of (labels_or_none (nm_Labels (ns_Metadata spec)))"
  proof -
    have "labels_or_none (nm_Labels (ns_Metadata (net_Spec (serviceToNetwork kept i)))) = userLabels (svc_Labels kept)"
      by (simp add: serviceToNetwork_def Let_def)
    then show ?thesis using user_labels_read_back [OF m] v by simp
  qed
  show ?thesis
  proof (intro exI conjI)
    show "network_Get env ns tr i = (tr @ [ListServices ns (dcm_Labels network_type i) 0 ''''], Inr (serviceToNetwork kept i))" by (rule get)
    show "nm_Name (ns_Metadata (net_Spec (serviceToNetwork kept i))) = nm_Name (ns_Metadata spec)"
      using kept by (simp add: serviceToNetwork_def stored_as_def)
    show "list_all2 (reads_back (hint_node_ports spec)) (ns_Ports spec) (ns_Ports (net_Spec (serviceToNetwork kept i)))"
      using ports by (simp add: serviceToNetwork_def)
  qed (simp add: serviceToNetwork_def, rule ul, rule lev)
qed

definition web_spec :: network_spec where
  "web_spec =
     \<lparr>ns_Metadata = \<lparr>nm_Name = ''web'', nm_Namespace = None, nm_Labels = Some [(''tier'', ''front'')]\<rparr>,
      ns_Ports = [\<lparr>ps_Name = Some ''http'', ps_NodePort = None, ps_Port = 80, ps_Protocol = None, ps_TargetPort = Some 8080\<rparr>],
      ns_ProviderHints = Some (Some \<lparr>nh_ClusterIp = None, nh_NodePorts = Some [(''http'', 31000)], nh_Selector = None\<rparr>),
      ns_RoutingLevel = None, ns_ServiceType = ''network''\<rparr>"

definition web_kube :: kube_env where
  "web_kube =
     \<lparr>k_list_services = (\<lambda>_. Inr ([network_buildService web_spec ''apps'' (network_labels web_spec ''web-1'')], '''')),
      k_create_service = (\<lambda>_. Inr (network_buildService web_spec ''apps'' (network_labels web_spec ''web-1''))),
      k_list_deployments = (\<lambda>_. Inr []), k_create_deployment = (\<lambda>_. Inl undefined), k_list_pods = (\<lambda>_. Inr []),
      k_get_pvc = (\<lambda>_. Inl undefined), k_list_pvcs = (\<lambda>_. Inr ([], '''')), k_create_pvc = (\<lambda>_. Inl undefined),
      k_delete = (\<lambda>_. None), k_get_storage_class = (\<lambda>_. None), k_list_vms = (\<lambda>_. Inr []), k_write_vm = (\<lambda>_. Inl undefined),
      k_list_hosted_clusters = (\<lambda>_. Inr []), k_list_node_pools = (\<lambda>_. Inr []), k_list_image_sets = (\<lambda>_. Inr []),
      k_get_secret = (\<lambda>_. Inl undefined), k_write = (\<lambda>_. None)\<rparr>"

lemma web_valid: "network_ValidateCreate ''web-1'' web_spec = None"
  by code_simp

lemma web_stored: "stored_as (network_buildService web_spec ns ls) (network_buildService web_spec ns ls)"
  by (simp add: stored_as_def kept_port_def list_all2_same)

theorem network_read_back_witness:
  "network_ValidateCreate ''web-1'' web_spec = None \<and>
   (\<exists>tr' n. network_Get web_kube ''apps'' [] ''web-1'' = (tr', Inr n) \<and> net_Id n = ''web-1'' \<and>
      map_of (labels_or_none (nm_Labels (ns_Metadata (net_Spec n)))) = [''tier'' \<mapsto> ''front''] \<and>
      list_all2 (reads_back [(''http'', 31000)]) (ns_Ports web_spec) (ns_Ports (net_Spec n)))"
proof -
  have h: "hint_node_ports web_spec = [(''http'', 31000)]" by code_simp
  have l: "ns_RoutingLevel web_spec \<noteq> Some ''application''" "nm_Labels (ns_Metadata web_spec) = Some [(''tier'', ''front'')]"
    by (simp_all add: web_spec_def)
  have k: "k_list_services web_kube tr = Inr ([network_buildService web_spec ''apps'' (network_labels web_spec ''web-1'')], '''')" for tr
    by (simp add: web_kube_def)
  show ?thesis
    using network_read_back [OF web_valid l(1) k web_stored, of "[]"] web_valid by (auto simp: h l)
qed

section \<open>Deleting a network\<close>

text \<open>Deleting a network first lists the Services that carry its labels.  Only when there is exactly one,
  and its labels confirm that DCM's network provider created it for this instance, is that Service deleted, and
  the request then succeeds exactly when the server deleted it or no longer had it.  Otherwise
  nothing is deleted: no Service answers 404, several answer 409, an API failure answers 500 and is retried.\<close>

lemma network_delete_safe:
  "let c = ListServices ns (dcm_Labels network_type i) 0 ''''; r = network_DeleteResource env ns tr i
   in case k_list_services env (tr @ [c]) of
        Inl e \<Rightarrow> \<exists>m. r = (tr @ [c], Some (SPResponseError 500 m))
      | Inr (items, _) \<Rightarrow>
          (case items of
             [svc] \<Rightarrow>
               if is_dcm_managed network_type (svc_Labels svc) i
               then fst r = tr @ [c, DeleteService ns (svc_Name svc)] \<and>
                    (snd r = None \<longleftrightarrow>
                       (case k_delete env (tr @ [c, DeleteService ns (svc_Name svc)]) of
                          None \<Rightarrow> True | Some e \<Rightarrow> ke_Reason e = NotFound))
               else \<exists>m. r = (tr @ [c], Some (SPResponseError 404 m))
           | [] \<Rightarrow> \<exists>m. r = (tr @ [c], Some (SPResponseError 404 m))
           | _ \<Rightarrow> \<exists>m. r = (tr @ [c], Some (SPResponseError 409 m)))"
  by (simp add: Let_def network_DeleteResource_def network_Delete_def findService_def kube_def network_mapStoreError_def
      network_not_found_def network_conflict_def split: sum.split list.split option.split)

end
