(* ===== verification/Storage_Provider.thy ===== *)
theory Storage_Provider
  imports Kube_Api
begin

text \<open>
  The embedded storage provider: request validation (\<open>openshift/storage/validate\<close>), the translation between
  volume specifications and PersistentVolumeClaims (\<open>openshift/storage/kubernetes/convert.go\<close>), the store
  over the cluster (\<open>store*.go\<close>) and the handler the router calls (\<open>embedded/storage/handler.go\<close>).
  \<open>resource.ParseQuantity\<close> is the parameter \<open>pq\<close>.
\<close>

section \<open>API types\<close>

record volume_k8s_hints =
  vh_AccessMode :: "string option"
  vh_StorageClass :: "string option"
  vh_VolumeMode :: "string option"

record volume_metadata =
  vm_Labels :: "labels option"
  vm_Name :: string
  vm_Namespace :: "string option"
  vm_StorageClass :: "string option"
  vm_VolumeName :: "string option"

record storage_spec =
  ss_Capacity :: string
  ss_Metadata :: volume_metadata
  ss_ProviderHints :: "volume_k8s_hints option option"
  ss_ServiceType :: string

record volume =
  vol_Id :: string
  vol_Path :: string
  vol_CreateTime :: time
  vol_UpdateTime :: time
  vol_Spec :: storage_spec
  vol_Status :: string

record storage_config =
  sc_Namespace :: string
  sc_DefaultStorageClass :: string
  sc_DefaultAccessMode :: string

abbreviation storage_type :: string where
  "storage_type \<equiv> ''storage''"

definition volume_hints :: "storage_spec \<Rightarrow> volume_k8s_hints option" where
  "volume_hints spec = (case ss_ProviderHints spec of None \<Rightarrow> None | Some h \<Rightarrow> h)"

section \<open>Validation\<close>

definition validateVolumeID :: "string \<Rightarrow> string option" where
  "validateVolumeID i =
     (if i = ''health'' then Some (''volume ID '' @ go_quote i @ '' is reserved and cannot be used'')
      else if \<not> re_match aep122IDPattern i then Some (''volume ID '' @ go_quote i @ '' must match AEP-122 pattern'')
      else None)"

definition storage_validateCreateSpec :: "storage_spec \<Rightarrow> string option" where
  "storage_validateCreateSpec spec =
     (if ss_ServiceType spec \<noteq> storage_type then Some (''service_type must be '' @ go_quote storage_type)
      else if ss_Capacity spec = '''' then Some ''capacity is required''
      else if vm_Name (ss_Metadata spec) = '''' then Some ''metadata.name is required''
      else None)"

definition storage_ValidateCreate :: "string \<Rightarrow> storage_spec \<Rightarrow> go_error option" where
  "storage_ValidateCreate i spec =
     (case validateVolumeID i of
        Some e \<Rightarrow> Some (InvalidArgumentError e)
      | None \<Rightarrow>
          (case storage_validateCreateSpec spec of
             Some e \<Rightarrow> Some (InvalidArgumentError e)
           | None \<Rightarrow> map_option InvalidArgumentError (validateUserLabels (vm_Labels (ss_Metadata spec)))))"

section \<open>Conversion to and from PersistentVolumeClaims\<close>

fun pvcResizeStatus :: "pvc_condition list \<Rightarrow> string option" where
  "pvcResizeStatus [] = None"
| "pvcResizeStatus (c # cs) =
     (if pc_Status c \<noteq> ''True'' then pvcResizeStatus cs
      else if pc_Type c = ''Resizing'' then Some ''volume expansion in progress''
      else if pc_Type c = ''FileSystemResizePending'' then Some ''filesystem resize pending''
      else pvcResizeStatus cs)"

definition MapPVCToStatus :: "pvc option \<Rightarrow> string \<times> string" where
  "MapPVCToStatus claim =
     (case claim of
        None \<Rightarrow> (''DELETED'', ''resource no longer exists'')
      | Some p \<Rightarrow>
          if pvc_DeletionTimestamp p \<noteq> None then (''DELETING'', ''PVC is terminating'')
          else if pvc_Phase p = ''Pending'' then (''PROVISIONING'', ''PVC is pending binding'')
          else if pvc_Phase p = ''Lost'' then (''FAILED'', ''PVC is lost'')
          else if pvc_Phase p = ''Bound'' then
            (case pvcResizeStatus (pvc_Conditions p) of
               Some msg \<Rightarrow> (''PROVISIONING'', msg)
             | None \<Rightarrow>
                 (''RUNNING'', if pvc_VolumeName p \<noteq> '''' then ''PVC is bound to volume '' @ pvc_VolumeName p else ''PVC is bound''))
          else (''PROVISIONING'', pvc_Phase p))"

definition storageClassFromPVC :: "pvc \<Rightarrow> string" where
  "storageClassFromPVC p = (case pvc_StorageClassName p of Some c \<Rightarrow> c | None \<Rightarrow> '''')"

definition non_empty :: "string \<Rightarrow> string option" where
  "non_empty s = (if s \<noteq> '''' then Some s else None)"

definition providerHintsFromPVC :: "pvc \<Rightarrow> volume_k8s_hints option option" where
  "providerHintsFromPVC p =
     (let h = \<lparr>vh_AccessMode = (case pvc_AccessModes p of am # _ \<Rightarrow> Some am | [] \<Rightarrow> None),
               vh_StorageClass = non_empty (storageClassFromPVC p),
               vh_VolumeMode = pvc_VolumeMode p\<rparr>
      in if vh_AccessMode h = None \<and> vh_StorageClass h = None \<and> vh_VolumeMode h = None then None else Some (Some h))"

definition volumeFromPVC :: "pvc \<Rightarrow> string \<Rightarrow> volume" where
  "volumeFromPVC p instanceID =
     \<lparr>vol_Id = instanceID, vol_Path = ''volumes/'' @ instanceID,
      vol_CreateTime = pvc_CreationTimestamp p,
      vol_UpdateTime =
        (case latest_time (map pc_LastTransitionTime (pvc_Conditions p)) of
           Some t \<Rightarrow> t | None \<Rightarrow> pvc_CreationTimestamp p),
      vol_Spec =
        \<lparr>ss_Capacity = (case pvc_StorageRequest p of Some q \<Rightarrow> q_String q | None \<Rightarrow> ''0''),
         ss_Metadata =
           \<lparr>vm_Labels = (let ul = userLabels (pvc_Labels p) in if ul \<noteq> [] then Some ul else None),
            vm_Name = pvc_Name p, vm_Namespace = Some (pvc_Namespace p),
            vm_StorageClass = non_empty (storageClassFromPVC p),
            vm_VolumeName = non_empty (pvc_VolumeName p)\<rparr>,
         ss_ProviderHints = providerHintsFromPVC p,
         ss_ServiceType = storage_type\<rparr>,
      vol_Status = fst (MapPVCToStatus (Some p))\<rparr>"

definition access_modes :: "string list" where
  "access_modes = [''ReadWriteOnce'', ''ReadOnlyMany'', ''ReadWriteMany'']"

definition resolveAccessMode :: "storage_spec \<Rightarrow> string \<Rightarrow> go_error + string" where
  "resolveAccessMode spec defaultMode =
     (case (case volume_hints spec of None \<Rightarrow> None | Some h \<Rightarrow> vh_AccessMode h) of
        Some mode \<Rightarrow>
          if mode \<in> set access_modes then Inr mode
          else Inl (InvalidArgumentError (''unsupported access mode '' @ go_quote mode))
      | None \<Rightarrow>
          if defaultMode \<noteq> ''''
          then if defaultMode \<in> set access_modes then Inr defaultMode
               else Inl (InvalidArgumentError (''unsupported default access mode '' @ go_quote defaultMode))
          else Inr ''ReadWriteOnce'')"

definition resolveStorageClass :: "storage_spec \<Rightarrow> string \<Rightarrow> string" where
  "resolveStorageClass spec defaultClass =
     (case (case volume_hints spec of None \<Rightarrow> None | Some h \<Rightarrow> vh_StorageClass h) of
        Some c \<Rightarrow> c
      | None \<Rightarrow> defaultClass)"

definition resolveVolumeMode :: "string \<Rightarrow> go_error + string" where
  "resolveVolumeMode vm =
     (if vm = ''Filesystem'' \<or> vm = ''Block'' then Inr vm
      else Inl (InvalidArgumentError (''unsupported volume mode '' @ go_quote vm)))"

definition buildPVC :: "(string \<Rightarrow> string + quantity) \<Rightarrow> storage_spec \<Rightarrow> storage_config \<Rightarrow> labels \<Rightarrow> go_error + pvc" where
  "buildPVC pq spec cfg ls =
     (case pq (ss_Capacity spec) of
        Inl e \<Rightarrow> Inl (InvalidArgumentError (''invalid capacity '' @ go_quote (ss_Capacity spec) @ '': '' @ e))
      | Inr qty \<Rightarrow>
          (case resolveAccessMode spec (sc_DefaultAccessMode cfg) of
             Inl e \<Rightarrow> Inl (Wrapped ''resolving access mode'' e)
           | Inr accessMode \<Rightarrow>
               let claim =
                 \<lparr>pvc_Name = vm_Name (ss_Metadata spec), pvc_Namespace = sc_Namespace cfg, pvc_Labels = ls,
                  pvc_CreationTimestamp = 0, pvc_DeletionTimestamp = None, pvc_AccessModes = [accessMode],
                  pvc_StorageRequest = Some qty,
                  pvc_StorageClassName = non_empty (resolveStorageClass spec (sc_DefaultStorageClass cfg)),
                  pvc_VolumeName = '''', pvc_VolumeMode = None, pvc_Phase = '''', pvc_Conditions = []\<rparr>
               in case (case volume_hints spec of None \<Rightarrow> None | Some h \<Rightarrow> vh_VolumeMode h) of
                    None \<Rightarrow> Inr claim
                  | Some vm \<Rightarrow>
                      (case resolveVolumeMode vm of
                         Inl e \<Rightarrow> Inl (Wrapped ''resolving volume mode'' e)
                       | Inr mode \<Rightarrow> Inr (claim\<lparr>pvc_VolumeMode := Some mode\<rparr>))))"

section \<open>The store\<close>

definition storage_not_found :: "string \<Rightarrow> go_error" where
  "storage_not_found i = NotFoundError (''volume '' @ go_quote i @ '' not found'')"

definition in_namespace :: "string \<Rightarrow> string \<Rightarrow> string \<Rightarrow> string" where
  "in_namespace what name ns = what @ '' '' @ go_quote name @ '' in namespace '' @ go_quote ns"

definition findPVC :: "kube_env \<Rightarrow> storage_config \<Rightarrow> kube_trace \<Rightarrow> string \<Rightarrow> kube_trace \<times> (go_error + pvc)" where
  "findPVC env cfg tr volumeID =
     (case kube (k_get_pvc env) tr (GetPVC (sc_Namespace cfg) volumeID) of
        (tr, Inl e) \<Rightarrow>
          (tr, Inl (if ke_Reason e = NotFound then storage_not_found volumeID
                    else Wrapped (in_namespace ''getting PVC'' volumeID (sc_Namespace cfg)) (KubeError e)))
      | (tr, Inr p) \<Rightarrow>
          if \<not> is_dcm_managed storage_type (pvc_Labels p) volumeID then (tr, Inl (storage_not_found volumeID))
          else (tr, Inr p))"

definition validateStorageClass :: "kube_env \<Rightarrow> kube_trace \<Rightarrow> string \<Rightarrow> kube_trace \<times> go_error option" where
  "validateStorageClass env tr name =
     (case kube (k_get_storage_class env) tr (GetStorageClass name) of
        (tr, None) \<Rightarrow> (tr, None)
      | (tr, Some e) \<Rightarrow>
          (tr, Some (if ke_Reason e = NotFound
                     then FailedPreconditionError (''StorageClass '' @ go_quote name @ '' does not exist'')
                     else Wrapped (''getting StorageClass '' @ go_quote name) (KubeError e))))"

definition storage_labels :: "storage_spec \<Rightarrow> string \<Rightarrow> labels" where
  "storage_labels spec i =
     (case vm_Labels (ss_Metadata spec) of
        None \<Rightarrow> dcm_Labels storage_type i
      | Some user \<Rightarrow> mergeLabels (dcm_Labels storage_type i) user)"

definition storage_Create ::
  "(string \<Rightarrow> string + quantity) \<Rightarrow> kube_env \<Rightarrow> storage_config \<Rightarrow> kube_trace \<Rightarrow> storage_spec \<Rightarrow> string \<Rightarrow> kube_trace \<times> (go_error + volume)" where
  "storage_Create pq env cfg tr spec i =
     (let spec = spec\<lparr>ss_Metadata := (ss_Metadata spec)\<lparr>vm_Name := i\<rparr>\<rparr>;
          storageClass = resolveStorageClass spec (sc_DefaultStorageClass cfg)
      in case (if storageClass \<noteq> '''' then validateStorageClass env tr storageClass else (tr, None)) of
           (tr, Some e) \<Rightarrow>
             (tr, Inl (Wrapped (''validating StorageClass '' @ go_quote storageClass @ '' for volume '' @ go_quote i) e))
         | (tr, None) \<Rightarrow>
             (case buildPVC pq spec cfg (storage_labels spec i) of
                Inl e \<Rightarrow> (tr, Inl (Wrapped (''building PVC for volume '' @ go_quote i) e))
              | Inr claim \<Rightarrow>
                  (case kube (k_create_pvc env) tr (CreatePVC claim) of
                     (tr, Inl e) \<Rightarrow>
                       (tr, Inl (if ke_Reason e = AlreadyExists
                                 then ConflictError (''volume '' @ go_quote i @ '' already exists'')
                                 else Wrapped (in_namespace ''creating PVC'' i (sc_Namespace cfg)) (KubeError e)))
                   | (tr, Inr created) \<Rightarrow> (tr, Inr (volumeFromPVC created i)))))"

definition storage_Delete :: "kube_env \<Rightarrow> storage_config \<Rightarrow> kube_trace \<Rightarrow> string \<Rightarrow> kube_trace \<times> go_error option" where
  "storage_Delete env cfg tr volumeID =
     (case findPVC env cfg tr volumeID of
        (tr, Inl e) \<Rightarrow> (tr, Some (Wrapped (''deleting volume '' @ go_quote volumeID) e))
      | (tr, Inr p) \<Rightarrow>
          (case kube (k_delete env) tr (DeletePVC (sc_Namespace cfg) (pvc_Name p)) of
             (tr, None) \<Rightarrow> (tr, None)
           | (tr, Some e) \<Rightarrow>
               if ke_Reason e = NotFound then (tr, None)
               else (tr, Some (Wrapped (in_namespace ''deleting PVC'' (pvc_Name p) (sc_Namespace cfg)) (KubeError e)))))"

definition storage_Get :: "kube_env \<Rightarrow> storage_config \<Rightarrow> kube_trace \<Rightarrow> string \<Rightarrow> kube_trace \<times> (go_error + volume)" where
  "storage_Get env cfg tr volumeID =
     (case findPVC env cfg tr volumeID of
        (tr, Inl e) \<Rightarrow> (tr, Inl (Wrapped (''getting volume '' @ go_quote volumeID) e))
      | (tr, Inr p) \<Rightarrow> (tr, Inr (volumeFromPVC p volumeID)))"

definition storage_mapListError :: "kube_error \<Rightarrow> go_error" where
  "storage_mapListError e =
     (case ke_Status e of
        Some (code, m) \<Rightarrow>
          if code = 400
          then InvalidArgumentError (if bad_page_token m then ''invalid page_token'' else if m \<noteq> '''' then m else ''invalid argument'')
          else KubeError e
      | None \<Rightarrow> KubeError e)"

definition storage_List ::
  "kube_env \<Rightarrow> storage_config \<Rightarrow> kube_trace \<Rightarrow> int \<Rightarrow> string \<Rightarrow> kube_trace \<times> (go_error + volume list \<times> string option)" where
  "storage_List env cfg tr maxPageSize pageToken =
     (case kube (k_list_pvcs env) tr
             (ListPVCs (sc_Namespace cfg) (dcm_Selector storage_type) (normalizePageSize maxPageSize) pageToken) of
        (tr, Inl e) \<Rightarrow>
          (tr, Inl (Wrapped (''listing PVCs in namespace '' @ go_quote (sc_Namespace cfg)) (storage_mapListError e)))
      | (tr, Inr (items, continue)) \<Rightarrow>
          (tr, Inr (map (\<lambda>p. volumeFromPVC p (pvc_Name p))
                      (filter (\<lambda>p. is_dcm_managed storage_type (pvc_Labels p) (pvc_Name p)) items),
                    non_empty continue)))"

section \<open>The embedded handler\<close>

definition storage_mapStoreError :: "go_error \<Rightarrow> fwd_error" where
  "storage_mapStoreError e =
     (case root_cause e of
        NotFoundError _ \<Rightarrow> SPResponseError 404 (error_text e)
      | ConflictError _ \<Rightarrow> SPResponseError 409 (error_text e)
      | InvalidArgumentError _ \<Rightarrow> SPResponseError 400 (error_text e)
      | FailedPreconditionError _ \<Rightarrow> SPResponseError 422 (error_text e)
      | _ \<Rightarrow> SPResponseError 500 (error_text e))"

definition parse_bare_storage :: "storage_spec spec_codec \<Rightarrow> json \<Rightarrow> string + storage_spec" where
  "parse_bare_storage codec payload =
     (case dec_spec codec payload of
        Inl e \<Rightarrow> Inl (''invalid storage spec: '' @ e)
      | Inr spec \<Rightarrow> if vm_Name (ss_Metadata spec) = '''' then Inl ''spec.metadata.name is required'' else Inr spec)"

definition parseStorageSpec :: "storage_spec spec_codec \<Rightarrow> json option \<Rightarrow> string + storage_spec" where
  "parseStorageSpec codec raw =
     (case SpecJSON codec raw of
        Inl e \<Rightarrow> Inl e
      | Inr payload \<Rightarrow>
          (case dec_resource codec payload of
             Inr spec \<Rightarrow> if ss_ServiceType spec \<noteq> '''' then Inr spec else parse_bare_storage codec payload
           | Inl _ \<Rightarrow> parse_bare_storage codec payload))"

text \<open>Both branches of the handler's renaming make the resource id the name.\<close>

definition rename_volume :: "string \<Rightarrow> storage_spec \<Rightarrow> storage_spec" where
  "rename_volume i spec =
     (let originalName = vm_Name (ss_Metadata spec)
      in if originalName \<noteq> i \<and> originalName \<noteq> '''' then spec\<lparr>ss_Metadata := (ss_Metadata spec)\<lparr>vm_Name := i\<rparr>\<rparr>
         else if originalName = '''' then spec\<lparr>ss_Metadata := (ss_Metadata spec)\<lparr>vm_Name := i\<rparr>\<rparr>
         else spec)"

definition storage_CreateResource ::
  "storage_spec spec_codec \<Rightarrow> (string \<Rightarrow> string + quantity) \<Rightarrow> kube_env \<Rightarrow> storage_config \<Rightarrow>
   kube_trace \<Rightarrow> string \<Rightarrow> json option \<Rightarrow> kube_trace \<times> fwd_error option" where
  "storage_CreateResource codec pq env cfg tr resourceID raw =
     (case parseStorageSpec codec raw of
        Inl e \<Rightarrow> (tr, Some (SPResponseError 400 e))
      | Inr spec \<Rightarrow>
          let spec = rename_volume resourceID spec
          in case storage_ValidateCreate resourceID spec of
               Some e \<Rightarrow> (tr, Some (storage_mapStoreError e))
             | None \<Rightarrow>
                 (case storage_Create pq env cfg tr spec resourceID of
                    (tr, Inl e) \<Rightarrow> (tr, Some (storage_mapStoreError e))
                  | (tr, Inr _) \<Rightarrow> (tr, None)))"

definition storage_DeleteResource :: "kube_env \<Rightarrow> storage_config \<Rightarrow> kube_trace \<Rightarrow> string \<Rightarrow> kube_trace \<times> fwd_error option" where
  "storage_DeleteResource env cfg tr resourceID =
     (case storage_Delete env cfg tr resourceID of
        (tr, Some e) \<Rightarrow> (tr, Some (storage_mapStoreError e))
      | (tr, None) \<Rightarrow> (tr, None))"

section \<open>What is accepted\<close>

definition storage_accepts :: "storage_spec spec_codec \<Rightarrow> string \<Rightarrow> json option \<Rightarrow> bool" where
  "storage_accepts codec i raw =
     (case parseStorageSpec codec raw of
        Inl _ \<Rightarrow> False
      | Inr spec \<Rightarrow> storage_ValidateCreate i (rename_volume i spec) = None)"

lemma storage_ValidateCreate_invalid: "storage_ValidateCreate i spec = Some e \<Longrightarrow> \<exists>m. e = InvalidArgumentError m"
  by (auto simp: storage_ValidateCreate_def split: option.splits)

lemma storage_refused:
  assumes "\<not> storage_accepts codec i raw"
  shows "\<exists>m. storage_CreateResource codec pq env cfg tr i raw = (tr, Some (SPResponseError 400 m))"
proof (cases "parseStorageSpec codec raw")
  case (Inr spec)
  with assms obtain m where "storage_ValidateCreate i (rename_volume i spec) = Some (InvalidArgumentError m)"
    using storage_ValidateCreate_invalid by (fastforce simp: storage_accepts_def)
  with Inr show ?thesis by (simp add: storage_CreateResource_def Let_def storage_mapStoreError_def)
qed (simp add: storage_CreateResource_def)

lemma storage_mapStoreError_sp: "sp_error (Some (storage_mapStoreError e))"
  by (simp add: storage_mapStoreError_def sp_error_def split: go_error.split)

lemma rename_volume_eq: "rename_volume i spec = spec\<lparr>ss_Metadata := (ss_Metadata spec)\<lparr>vm_Name := i\<rparr>\<rparr>"
  by (simp add: rename_volume_def Let_def)

lemma resolveStorageClass_rename [simp]: "resolveStorageClass (rename_volume i spec) d = resolveStorageClass spec d"
  by (simp add: resolveStorageClass_def volume_hints_def rename_volume_eq)

section \<open>Created claims\<close>

text \<open>A claim that the cluster may be asked to create for volume \<open>i\<close> of capacity \<open>qty\<close>.\<close>

definition pvc_wf :: "storage_config \<Rightarrow> string \<Rightarrow> quantity \<Rightarrow> pvc \<Rightarrow> bool" where
  "pvc_wf cfg i qty p \<longleftrightarrow>
     validateVolumeID i = None \<and> pvc_Name p = i \<and> pvc_Namespace p = sc_Namespace cfg \<and>
     is_dcm_managed storage_type (pvc_Labels p) i \<and> pvc_StorageRequest p = Some qty \<and>
     (\<exists>mode \<in> set access_modes. pvc_AccessModes p = [mode]) \<and>
     pvc_VolumeMode p \<in> {None, Some ''Filesystem'', Some ''Block''} \<and> pvc_StorageClassName p \<noteq> Some ''''"

lemma storage_labels_managed: "is_dcm_managed storage_type (storage_labels spec i) i"
  by (simp add: storage_labels_def merged_managed base_managed split: option.split)

lemma resolveAccessMode_cases:
  "(\<exists>mode \<in> set access_modes. resolveAccessMode spec d = Inr mode) \<or> (\<exists>m. resolveAccessMode spec d = Inl (InvalidArgumentError m))"
  by (auto simp: resolveAccessMode_def access_modes_def split: option.split)

lemma resolveVolumeMode_cases:
  "resolveVolumeMode vm = Inr vm \<and> vm \<in> {''Filesystem'', ''Block''} \<or> (\<exists>m. resolveVolumeMode vm = Inl (InvalidArgumentError m))"
  by (simp add: resolveVolumeMode_def)

lemma buildPVC_cases:
  "(\<exists>p qty. buildPVC pq spec cfg ls = Inr p \<and> pq (ss_Capacity spec) = Inr qty \<and>
      pvc_Name p = vm_Name (ss_Metadata spec) \<and> pvc_Namespace p = sc_Namespace cfg \<and> pvc_Labels p = ls \<and>
      pvc_StorageRequest p = Some qty \<and> (\<exists>mode \<in> set access_modes. pvc_AccessModes p = [mode]) \<and>
      pvc_VolumeMode p \<in> {None, Some ''Filesystem'', Some ''Block''} \<and>
      pvc_StorageClassName p = non_empty (resolveStorageClass spec (sc_DefaultStorageClass cfg))) \<or>
   (\<exists>e m. buildPVC pq spec cfg ls = Inl e \<and> root_cause e = InvalidArgumentError m)"
proof (cases "pq (ss_Capacity spec)")
  case (Inr qty)
  show ?thesis
  proof (cases "resolveAccessMode spec (sc_DefaultAccessMode cfg)")
    case (Inl e)
    with resolveAccessMode_cases [of spec "sc_DefaultAccessMode cfg"] Inr show ?thesis by (auto simp: buildPVC_def)
  next
    case mode: (Inr mode)
    have "mode \<in> set access_modes" using resolveAccessMode_cases [of spec "sc_DefaultAccessMode cfg"] mode by auto
    then show ?thesis
      using Inr mode by (simp add: buildPVC_def Let_def resolveVolumeMode_def split: option.split)
  qed
qed (simp add: buildPVC_def)

text \<open>The call that checks the StorageClass.\<close>

definition class_calls :: "storage_config \<Rightarrow> storage_spec \<Rightarrow> kube_trace" where
  "class_calls cfg spec =
     (let cls = resolveStorageClass spec (sc_DefaultStorageClass cfg) in if cls = '''' then [] else [GetStorageClass cls])"

lemma class_calls_bound: "set (class_calls cfg spec) \<subseteq> range GetStorageClass \<and> length (class_calls cfg spec) \<le> 1"
  by (simp add: class_calls_def Let_def)

lemma storage_CreateResource_no_class:
  assumes spec: "parseStorageSpec codec raw = Inr spec" "storage_ValidateCreate i (rename_volume i spec) = None"
    and cls: "class_calls cfg spec = [c]" "k_get_storage_class env (tr @ [c]) = Some e"
  shows "\<exists>m. storage_CreateResource codec pq env cfg tr i raw =
     (tr @ [c], Some (SPResponseError (if ke_Reason e = NotFound then 422 else 500) m))"
proof -
  from cls have "resolveStorageClass spec (sc_DefaultStorageClass cfg) \<noteq> ''''"
      "c = GetStorageClass (resolveStorageClass spec (sc_DefaultStorageClass cfg))"
    by (auto simp: class_calls_def Let_def split: if_splits)
  with assms show ?thesis
    by (simp add: storage_CreateResource_def storage_Create_def validateStorageClass_def kube_def Let_def
        rename_volume_eq [symmetric] storage_mapStoreError_def)
qed

lemma storage_CreateResource_run:
  assumes spec: "parseStorageSpec codec raw = Inr spec" "storage_ValidateCreate i (rename_volume i spec) = None"
    and cls: "class_calls cfg spec = [] \<or> k_get_storage_class env (tr @ class_calls cfg spec) = None"
  defines "s \<equiv> rename_volume i spec" and "tr1 \<equiv> tr @ class_calls cfg spec"
  shows "storage_CreateResource codec pq env cfg tr i raw =
     (case buildPVC pq s cfg (storage_labels s i) of
        Inl e \<Rightarrow> (tr1, Some (storage_mapStoreError (Wrapped (''building PVC for volume '' @ go_quote i) e)))
      | Inr p \<Rightarrow> (tr1 @ [CreatePVC p],
          case k_create_pvc env (tr1 @ [CreatePVC p]) of
            Inl e \<Rightarrow> Some (storage_mapStoreError
                       (if ke_Reason e = AlreadyExists then ConflictError (''volume '' @ go_quote i @ '' already exists'')
                        else Wrapped (in_namespace ''creating PVC'' i (sc_Namespace cfg)) (KubeError e)))
          | Inr _ \<Rightarrow> None))"
proof -
  have s: "s\<lparr>ss_Metadata := (ss_Metadata s)\<lparr>vm_Name := i\<rparr>\<rparr> = s" by (simp add: s_def rename_volume_eq)
  have r: "resolveStorageClass s d = resolveStorageClass spec d" for d by (simp add: s_def)
  let ?cls = "resolveStorageClass spec (sc_DefaultStorageClass cfg)"
  have v: "(if ?cls \<noteq> '''' then validateStorageClass env tr ?cls else (tr, None)) = (tr1, None)"
    using cls by (auto simp: validateStorageClass_def kube_def class_calls_def Let_def tr1_def)
  show ?thesis
  proof (cases "?cls = ''''")
    case True
    then show ?thesis using spec v
      by (simp add: storage_CreateResource_def storage_Create_def kube_def Let_def s_def [symmetric] s r split: sum.split)
  next
    case False
    then have "validateStorageClass env tr ?cls = (tr1, None)" using v by simp
    with False spec show ?thesis
      by (simp add: storage_CreateResource_def storage_Create_def kube_def Let_def s_def [symmetric] s r split: sum.split)
  qed
qed

text \<open>C35: a volume create request that reaches the cluster creates exactly one claim: it is named after the
  resource id, carries DCM's labels for it whatever the user's labels, asks for the parsed capacity, has a supported
  access mode and volume mode, and names a StorageClass only after the server confirmed that class in the
  call before.  Every other request creates nothing; it is refused with 400, with 422 for a missing
  StorageClass, or with 500 when the class could not be read.\<close>

theorem storage_create_safe:
  "\<exists>pre. set pre \<subseteq> range GetStorageClass \<and> length pre \<le> 1 \<and>
     ((\<exists>p qty capacity. pvc_wf cfg i qty p \<and> pq capacity = Inr qty \<and>
         fst (storage_CreateResource codec pq env cfg tr i raw) = tr @ pre @ [CreatePVC p] \<and>
         (snd (storage_CreateResource codec pq env cfg tr i raw) = None \<longleftrightarrow> \<not> isl (k_create_pvc env (tr @ pre @ [CreatePVC p]))) \<and>
         (case pvc_StorageClassName p of
            None \<Rightarrow> pre = []
          | Some cls \<Rightarrow> pre = [GetStorageClass cls] \<and> k_get_storage_class env (tr @ pre) = None)) \<or>
      (\<exists>code m. storage_CreateResource codec pq env cfg tr i raw = (tr @ pre, Some (SPResponseError code m)) \<and>
         (code = 400 \<or> pre \<noteq> [] \<and> (\<exists>e. k_get_storage_class env (tr @ pre) = Some e \<and> code = (if ke_Reason e = NotFound then 422 else 500)))))"
proof (cases "storage_accepts codec i raw")
  case False
  from storage_refused [OF this, of pq env cfg tr] show ?thesis by (intro exI [of _ "[]"]) auto
next
  case True
  then obtain spec where spec: "parseStorageSpec codec raw = Inr spec" "storage_ValidateCreate i (rename_volume i spec) = None"
    by (auto simp: storage_accepts_def split: sum.splits)
  let ?pre = "class_calls cfg spec"
  show ?thesis
  proof (cases "?pre = [] \<or> k_get_storage_class env (tr @ ?pre) = None")
    case False
    then obtain c e where e: "?pre = [c]" "k_get_storage_class env (tr @ [c]) = Some e"
      by (auto simp: class_calls_def Let_def split: if_splits)
    from storage_CreateResource_no_class [OF spec e, of pq] e class_calls_bound [of cfg spec]
    show ?thesis by (intro exI [of _ ?pre]) auto
  next
    case ok: True
    note run = storage_CreateResource_run [OF spec ok, of pq]
    define s where "s = rename_volume i spec"
    have cls: "resolveStorageClass s d = resolveStorageClass spec d" for d by (simp add: s_def)
    have vid: "validateVolumeID i = None" using spec(2) by (simp add: storage_ValidateCreate_def split: option.splits)
    show ?thesis
      using buildPVC_cases [of pq s cfg "storage_labels s i"]
    proof (elim disjE exE conjE)
      fix p qty
      assume p: "buildPVC pq s cfg (storage_labels s i) = Inr p" "pq (ss_Capacity s) = Inr qty" "pvc_Name p = vm_Name (ss_Metadata s)"
        "pvc_Namespace p = sc_Namespace cfg" "pvc_Labels p = storage_labels s i" "pvc_StorageRequest p = Some qty"
        "\<exists>mode \<in> set access_modes. pvc_AccessModes p = [mode]" "pvc_VolumeMode p \<in> {None, Some ''Filesystem'', Some ''Block''}"
        "pvc_StorageClassName p = non_empty (resolveStorageClass s (sc_DefaultStorageClass cfg))"
      have "pvc_wf cfg i qty p"
        using p vid storage_labels_managed by (simp add: pvc_wf_def non_empty_def s_def rename_volume_eq)
      then show ?thesis
        using p(1,2,9) ok class_calls_bound [of cfg spec]
        by (intro exI [of _ ?pre] conjI disjI1 exI [of _ p] exI [of _ qty] exI [of _ "ss_Capacity s"])
          (auto simp: run s_def [symmetric] cls class_calls_def Let_def non_empty_def split: sum.split)
    next
      fix e m
      assume "buildPVC pq s cfg (storage_labels s i) = Inl e" "root_cause e = InvalidArgumentError m"
      then show ?thesis using class_calls_bound [of cfg spec]
        by (intro exI [of _ ?pre]) (simp add: run s_def [symmetric] storage_mapStoreError_def)
    qed
  qed
qed

lemma storage_answer: "sp_error (snd (storage_CreateResource codec pq env cfg tr i raw))"
  by (auto simp: storage_CreateResource_def storage_mapStoreError_sp Let_def split: sum.split option.split prod.split)

lemma storage_DeleteResource_calls:
  "\<exists>seg. fst (storage_DeleteResource env cfg tr i) = tr @ seg \<and> (\<forall>c \<in> set seg. \<not> creates c)"
  by (auto simp: storage_DeleteResource_def storage_Delete_def findPVC_def kube_def split: sum.splits list.splits option.splits)

lemma storage_create_calls:
  "\<exists>seg. fst (storage_CreateResource codec pq env cfg tr i raw) = tr @ seg \<and> list_all (\<lambda>c. creates c \<longrightarrow> storage_accepts codec i raw) seg"
proof (cases "storage_accepts codec i raw")
  case False
  from storage_refused [OF this, of pq env cfg tr] show ?thesis by auto
next
  case True
  have "\<exists>seg. fst (storage_CreateResource codec pq env cfg tr i raw) = tr @ seg"
    by (auto simp: storage_CreateResource_def storage_Create_def validateStorageClass_def kube_def Let_def
        split: sum.split option.split prod.split)
  then show ?thesis using True by (auto simp: list_all_iff)
qed

interpretation sto_h: embedded_handler "storage_accepts codec" "storage_CreateResource codec pq env cfg" "storage_DeleteResource env cfg"
  for codec pq env cfg
proof
  fix i raw tr
  show "sp_error (snd (storage_DeleteResource env cfg tr i))"
    by (simp add: storage_DeleteResource_def storage_mapStoreError_sp split: prod.split option.split)
qed (rule storage_refused storage_answer storage_create_calls storage_DeleteResource_calls; assumption?)+

section \<open>Deleting a volume\<close>

text \<open>A claim is deleted only after it was read under the resource id and its labels confirm that DCM's storage
  provider created it for that id; a claim that is already gone counts as deleted.\<close>

lemma storage_delete_safe:
  "let c = GetPVC (sc_Namespace cfg) i; r = storage_DeleteResource env cfg tr i
   in case k_get_pvc env (tr @ [c]) of
        Inl e \<Rightarrow> \<exists>m. r = (tr @ [c], Some (SPResponseError (if ke_Reason e = NotFound then 404 else 500) m))
      | Inr p \<Rightarrow>
          if is_dcm_managed storage_type (pvc_Labels p) i
          then fst r = tr @ [c, DeletePVC (sc_Namespace cfg) (pvc_Name p)] \<and>
               (snd r = None \<longleftrightarrow>
                  (case k_delete env (tr @ [c, DeletePVC (sc_Namespace cfg) (pvc_Name p)]) of
                     None \<Rightarrow> True | Some e \<Rightarrow> ke_Reason e = NotFound))
          else \<exists>m. r = (tr @ [c], Some (SPResponseError 404 m))"
  by (simp add: Let_def storage_DeleteResource_def storage_Delete_def findPVC_def kube_def storage_mapStoreError_def
      storage_not_found_def split: sum.split option.split)

end
