(* ===== verification/Page_Token.thy ===== *)
theory Page_Token
  imports Kube_Api
begin

text \<open>
  The page tokens of the container provider (\<open>openshift/container/kubernetes/store_list.go\<close>): an offset in
  decimal, base64-encoded.  Base64 is the standard encoding with padding; decoding skips line breaks
  and accepts, as Go's non-strict decoder does, any value of the unused bits of the last group.
\<close>

section \<open>Base64\<close>

definition b64_char :: "nat \<Rightarrow> char" where
  "b64_char n =
     char_of (if n < 26 then n + 65 else if n < 52 then n + 71 else if n < 62 then n - 4 else if n = 62 then 43 else 47)"

definition b64_val :: "char \<Rightarrow> nat option" where
  "b64_val c =
     (let n = of_char c :: nat
      in if 65 \<le> n \<and> n \<le> 90 then Some (n - 65)
         else if 97 \<le> n \<and> n \<le> 122 then Some (n - 71)
         else if 48 \<le> n \<and> n \<le> 57 then Some (n + 4)
         else if n = 43 then Some 62
         else if n = 47 then Some 63
         else None)"

abbreviation code :: "char \<Rightarrow> nat" where
  "code c \<equiv> of_char c"

fun EncodeToString :: "string \<Rightarrow> string" where
  "EncodeToString [] = []"
| "EncodeToString [a] = [b64_char (code a div 4), b64_char (code a mod 4 * 16), CHR ''='', CHR ''='']"
| "EncodeToString [a, b] =
     [b64_char (code a div 4), b64_char (code a mod 4 * 16 + code b div 16), b64_char (code b mod 16 * 4), CHR ''='']"
| "EncodeToString (a # b # c # s) =
     b64_char (code a div 4) # b64_char (code a mod 4 * 16 + code b div 16) #
     b64_char (code b mod 16 * 4 + code c div 64) # b64_char (code c mod 64) # EncodeToString s"

fun decode_groups :: "string \<Rightarrow> string option" where
  "decode_groups [] = Some []"
| "decode_groups (p # q # r # t # s) =
     (case (b64_val p, b64_val q) of
        (Some v, Some w) \<Rightarrow>
          (case b64_val r of
             Some x \<Rightarrow>
               (case b64_val t of
                  Some y \<Rightarrow>
                    map_option (\<lambda>rest. char_of (v * 4 + w div 16) # char_of (w mod 16 * 16 + x div 4) # char_of (x mod 4 * 64 + y) # rest)
                      (decode_groups s)
                | None \<Rightarrow>
                    if t = CHR ''='' \<and> s = [] then Some [char_of (v * 4 + w div 16), char_of (w mod 16 * 16 + x div 4)] else None)
           | None \<Rightarrow> if r = CHR ''='' \<and> t = CHR ''='' \<and> s = [] then Some [char_of (v * 4 + w div 16)] else None)
      | _ \<Rightarrow> None)"
| "decode_groups _ = None"

definition DecodeString :: "string \<Rightarrow> string option" where
  "DecodeString s = decode_groups (filter (\<lambda>c. c \<noteq> CHR 0x0D \<and> c \<noteq> CHR 0x0A) s)"

section \<open>Tokens\<close>

definition decodePageToken :: "string \<Rightarrow> go_error + nat" where
  "decodePageToken token =
     (if token = '''' then Inr 0
      else case DecodeString token of
        None \<Rightarrow> Inl (InvalidArgumentError ''invalid page_token'')
      | Some decoded \<Rightarrow>
          (case parse_int64 decoded of
             None \<Rightarrow> Inl (InvalidArgumentError ''invalid page_token'')
           | Some offset \<Rightarrow>
               if offset < 0 then Inl (InvalidArgumentError ''invalid page_token'') else Inr (nat offset)))"

definition page_token :: "nat \<Rightarrow> string" where
  "page_token offset = EncodeToString (show_nat offset)"

section \<open>Round trip\<close>

lemma b64_val_char [simp]: "n < 64 \<Longrightarrow> b64_val (b64_char n) = Some n"
  by (simp add: b64_val_def b64_char_def Let_def) linarith

lemma b64_char_plain: "n < 64 \<Longrightarrow> b64_char n \<noteq> CHR 0x0D \<and> b64_char n \<noteq> CHR 0x0A"
proof -
  assume "n < 64"
  moreover have "b64_val (CHR 0x0D) = None" "b64_val (CHR 0x0A) = None" by (simp_all add: b64_val_def)
  ultimately show ?thesis by (metis b64_val_char option.distinct(1))
qed

lemma code_less: "code c < 256"
  by (metis of_char_mod_256 mod_less_divisor zero_less_numeral)

lemma high_bits [simp]:
  "code b div 16 div 16 = 0" "code b div 16 mod 16 = code b div 16"
  "code c div 64 div 4 = 0" "code c div 64 mod 4 = code c div 64" "code a div 4 < 64"
  using code_less [of a] code_less [of b] code_less [of c] by (simp_all add: div_mult2_eq [symmetric] less_mult_imp_div_less)

lemma sextets [simp]:
  "code a mod 4 * 16 < 64" "code a mod 4 * 16 + code b div 16 < 64"
  "code b mod 16 * 4 < 64" "code b mod 16 * 4 + code c div 64 < 64" "code c mod 64 < 64"
proof -
  have m: "code a mod 4 < 4" "code b mod 16 < 16" "code c mod 64 < 64" by simp_all
  have d: "code b div 16 < 16" "code c div 64 < 4"
    using code_less [of b] code_less [of c] by (simp_all add: less_mult_imp_div_less)
  show "code a mod 4 * 16 < 64" "code a mod 4 * 16 + code b div 16 < 64"
    "code b mod 16 * 4 < 64" "code b mod 16 * 4 + code c div 64 < 64" "code c mod 64 < 64"
    using m d by linarith+
qed

lemma Encode_plain: "filter (\<lambda>c. c \<noteq> CHR 0x0D \<and> c \<noteq> CHR 0x0A) (EncodeToString s) = EncodeToString s"
  by (induction s rule: EncodeToString.induct) (simp_all add: b64_char_plain)

lemma decode_encode: "decode_groups (EncodeToString s) = Some s"
  by (induction s rule: EncodeToString.induct) (simp_all add: b64_val_def [of "CHR ''=''"])

lemma DecodeString_EncodeToString: "DecodeString (EncodeToString s) = Some s"
  unfolding DecodeString_def Encode_plain by (rule decode_encode)

lemma page_token_not_empty: "page_token n \<noteq> []"
proof -
  have "s \<noteq> [] \<Longrightarrow> EncodeToString s \<noteq> []" for s by (cases s rule: EncodeToString.cases) simp_all
  then show ?thesis using show_nat_digits [of n] by (simp add: page_token_def)
qed

lemma decode_page_token:
  assumes "int n < 2 ^ 63"
  shows "decodePageToken (page_token n) = Inr n"
proof -
  have "DecodeString (page_token n) = Some (show_nat n)"
    unfolding page_token_def by (rule DecodeString_EncodeToString)
  then show ?thesis
    using page_token_not_empty [of n] by (simp add: decodePageToken_def parse_show_nat [OF assms])
qed

end
