(* ===== verification/Container_Provider.thy ===== *)
theory Container_Provider
  imports Page_Token "HOL-Library.Char_ord" "HOL-Library.List_Lexorder" "HOL-Library.Multiset"
begin

text \<open>
  The embedded container provider: units (\<open>openshift/container/units\<close>), request validation (\<open>validate\<close>), the
  translation between container specifications and Deployments and Services
  (\<open>openshift/container/kubernetes/convert.go\<close>), the store over the cluster (\<open>store*.go\<close>) and the handler the
  router calls (\<open>embedded/container/handler.go\<close>).  \<open>resource.ParseQuantity\<close> is the parameter \<open>pq\<close>.
\<close>

section \<open>API types\<close>

record container_port =
  cp_ContainerPort :: int
  cp_Visibility :: string

record container_process =
  proc_Args :: "string list option"
  proc_Command :: "string list option"
  proc_Env :: "(string \<times> string) list option"

record container_network =
  cn_Ip :: "string option"
  cn_Ports :: "container_port list option"

record container_resources =
  cr_CpuMin :: string
  cr_CpuMax :: string
  cr_MemoryMin :: string
  cr_MemoryMax :: string

record container_metadata =
  cm_Labels :: "labels option"
  cm_Name :: string
  cm_Namespace :: "string option"

record container_spec =
  cs_Image :: string
  cs_Metadata :: container_metadata
  cs_Network :: "container_network option"
  cs_Process :: "container_process option"
  cs_Resources :: container_resources
  cs_ServiceType :: string

record service_info =
  si_ClusterIp :: "string option"
  si_ExternalIp :: "string option"
  si_Name :: string
  si_Ports :: "(int \<times> string \<times> int) list option" \<comment> \<open>port, protocol and target port\<close>
  si_Type :: string

record container =
  co_CreateTime :: "time option"
  co_Id :: string
  co_Path :: string
  co_Service :: "service_info option"
  co_Spec :: container_spec
  co_Status :: "string option"
  co_UpdateTime :: "time option"

record container_config =
  cc_Namespace :: string
  cc_ExternalServiceType :: string

abbreviation container_type :: string where
  "container_type \<equiv> ''container''"

type_synonym quantity_parser = "string \<Rightarrow> string + quantity"

section \<open>Units\<close>

definition ConvertCPU :: "quantity_parser \<Rightarrow> container_resources \<Rightarrow> string + quantity \<times> quantity" where
  "ConvertCPU pq res =
     (case pq (cr_CpuMin res) of
        Inl e \<Rightarrow> Inl (''invalid cpu.min '' @ go_quote (cr_CpuMin res) @ '': '' @ e)
      | Inr requests \<Rightarrow>
          (case pq (cr_CpuMax res) of
             Inl e \<Rightarrow> Inl (''invalid cpu.max '' @ go_quote (cr_CpuMax res) @ '': '' @ e)
           | Inr limits \<Rightarrow> Inr (requests, limits)))"

definition CPUQuantityToAPI :: "quantity \<Rightarrow> string" where
  "CPUQuantityToAPI q = show_int (q_MilliValue q) @ ''m''"

definition apiToK8s :: "(string \<times> string) list" where
  "apiToK8s = [(''MB'', ''Mi''), (''GB'', ''Gi''), (''TB'', ''Ti'')]"

definition k8sToAPI :: "(string \<times> string) list" where
  "k8sToAPI = [(''Mi'', ''MB''), (''Gi'', ''GB''), (''Ti'', ''TB'')]"

text \<open>The loop over a unit map: the first entry whose suffix can be cut (at most one can).\<close>

fun replace_unit :: "(string \<times> string) list \<Rightarrow> string \<Rightarrow> string option" where
  "replace_unit [] s = None"
| "replace_unit ((unit, unit') # us) s =
     (case cut_suffix s unit of Some num \<Rightarrow> Some (num @ unit') | None \<Rightarrow> replace_unit us s)"

definition ConvertMemory :: "quantity_parser \<Rightarrow> string \<Rightarrow> string + quantity" where
  "ConvertMemory pq memoryStr =
     (case replace_unit apiToK8s memoryStr of
        Some s \<Rightarrow> pq s
      | None \<Rightarrow> Inl (''unsupported memory unit in '' @ go_quote memoryStr))"

definition MemoryQuantityToAPI :: "quantity \<Rightarrow> string" where
  "MemoryQuantityToAPI q = (case replace_unit k8sToAPI (q_String q) of Some s \<Rightarrow> s | None \<Rightarrow> q_String q)"

section \<open>Validation\<close>

text \<open>A validation error: its detail and the JSON pointer it concerns.\<close>

type_synonym validation_detail = "string \<times> string"

definition jsonPointerEscape :: "string \<Rightarrow> string" where
  "jsonPointerEscape s =
     concat (map (\<lambda>c. if c = CHR ''~'' then ''~0'' else if c = CHR ''/'' then ''~1'' else [c]) s)"

definition labelPointer :: "string \<Rightarrow> string" where
  "labelPointer key = ''#/spec/metadata/labels/'' @ jsonPointerEscape key"

definition checkContainerID :: "string \<Rightarrow> validation_detail option" where
  "checkContainerID i =
     (if i = ''health'' then Some (''container ID '' @ go_quote i @ '' is reserved and cannot be used'', ''#/spec/id'') else None)"

text \<open>The errors of one bound pair: a minimum or maximum that does not parse, or a minimum above the maximum.\<close>

definition check_range :: "string \<Rightarrow> (string \<Rightarrow> string + quantity) \<Rightarrow> string \<Rightarrow> string \<Rightarrow> validation_detail list" where
  "check_range what parse lo hi =
     (case parse lo of Inl e \<Rightarrow> [(''invalid '' @ what @ ''.min '' @ go_quote lo @ '': '' @ e, ''#/spec/resources/'' @ what @ ''/min'')] | Inr _ \<Rightarrow> []) @
     (case parse hi of Inl e \<Rightarrow> [(''invalid '' @ what @ ''.max '' @ go_quote hi @ '': '' @ e, ''#/spec/resources/'' @ what @ ''/max'')] | Inr _ \<Rightarrow> []) @
     (case (parse lo, parse hi) of
        (Inr l, Inr h) \<Rightarrow>
          if q_nano l > q_nano h
          then [(what @ ''.min ('' @ lo @ '') must not exceed '' @ what @ ''.max ('' @ hi @ '')'', ''#/spec/resources/'' @ what @ ''/min'')]
          else []
      | _ \<Rightarrow> [])"

definition checkResources :: "quantity_parser \<Rightarrow> container_resources \<Rightarrow> validation_detail list" where
  "checkResources pq res =
     check_range ''cpu'' pq (cr_CpuMin res) (cr_CpuMax res) @
     check_range ''memory'' (ConvertMemory pq) (cr_MemoryMin res) (cr_MemoryMax res)"

definition checkUserLabels :: "labels option \<Rightarrow> validation_detail list" where
  "checkUserLabels m =
     (case m of
        None \<Rightarrow> []
      | Some m \<Rightarrow>
          map (\<lambda>k. (''label '' @ go_quote k @ '' is reserved by DCM and cannot be set by the user'', labelPointer k))
            (filter (\<lambda>k. map_of m k \<noteq> None) (sort ReservedLabelKeys)))"

definition container_ValidateCreate :: "quantity_parser \<Rightarrow> string \<Rightarrow> container_spec \<Rightarrow> go_error option" where
  "container_ValidateCreate pq i spec =
     (case checkContainerID i of
        Some e \<Rightarrow> Some (InvalidArgumentError (fst e))
      | None \<Rightarrow>
          (case checkResources pq (cs_Resources spec) @ checkUserLabels (cm_Labels (cs_Metadata spec)) of
             [] \<Rightarrow> None
           | e # _ \<Rightarrow> Some (InvalidArgumentError (fst e))))"

section \<open>From a specification to Kubernetes objects\<close>

definition spec_ports :: "container_spec \<Rightarrow> container_port list" where
  "spec_ports spec =
     (case cs_Network spec of None \<Rightarrow> [] | Some n \<Rightarrow> (case cn_Ports n of None \<Rightarrow> [] | Some ps \<Rightarrow> ps))"

definition portsWithVisibility :: "container_spec \<Rightarrow> container_port list" where
  "portsWithVisibility spec = filter (\<lambda>p. cp_Visibility p \<noteq> ''none'') (spec_ports spec)"

definition hasExternalPort :: "container_port list \<Rightarrow> bool" where
  "hasExternalPort ports = list_ex (\<lambda>p. cp_Visibility p = ''external'') ports"

definition container_resolveServiceType :: "container_config \<Rightarrow> container_port list \<Rightarrow> string" where
  "container_resolveServiceType cfg ports = (if hasExternalPort ports then cc_ExternalServiceType cfg else ''ClusterIP'')"

definition process_list :: "(container_process \<Rightarrow> 'a list option) \<Rightarrow> container_spec \<Rightarrow> 'a list" where
  "process_list f spec = (case cs_Process spec of None \<Rightarrow> [] | Some p \<Rightarrow> (case f p of None \<Rightarrow> [] | Some xs \<Rightarrow> xs))"

definition buildDeployment :: "quantity_parser \<Rightarrow> container_spec \<Rightarrow> string \<Rightarrow> container_config \<Rightarrow> labels \<Rightarrow> string + deployment" where
  "buildDeployment pq spec i cfg ls =
     (let res = cs_Resources spec
      in case ConvertCPU pq res of
           Inl e \<Rightarrow> Inl (''converting CPU resources: '' @ e)
         | Inr (cpuReq, cpuLim) \<Rightarrow>
             (case ConvertMemory pq (cr_MemoryMin res) of
                Inl e \<Rightarrow> Inl (''converting memory.min: '' @ e)
              | Inr memReq \<Rightarrow>
                  (case ConvertMemory pq (cr_MemoryMax res) of
                     Inl e \<Rightarrow> Inl (''converting memory.max: '' @ e)
                   | Inr memLim \<Rightarrow>
                       Inr \<lparr>dep_Name = '''', dep_GenerateName = cm_Name (cs_Metadata spec) @ ''-'', dep_Namespace = cc_Namespace cfg,
                            dep_Labels = ls, dep_CreationTimestamp = 0, dep_Replicas = Some 1,
                            dep_Selector = dcm_Labels container_type i, dep_TemplateLabels = ls,
                            dep_Containers =
                              [\<lparr>kc_Name = cm_Name (cs_Metadata spec), kc_Image = cs_Image spec,
                                kc_Requests = [(''cpu'', cpuReq), (''memory'', memReq)],
                                kc_Limits = [(''cpu'', cpuLim), (''memory'', memLim)],
                                kc_Command = process_list proc_Command spec,
                                kc_Args = process_list proc_Args spec,
                                kc_Env = process_list proc_Env spec,
                                kc_Ports = map (\<lambda>p. wrap32 (cp_ContainerPort p)) (spec_ports spec)\<rparr>],
                            dep_UpdatedReplicas = 0, dep_UnavailableReplicas = 0, dep_ConditionTimes = []\<rparr>)))"

definition container_buildService ::
  "container_spec \<Rightarrow> string \<Rightarrow> container_config \<Rightarrow> labels \<Rightarrow> string \<Rightarrow> container_port list \<Rightarrow> service" where
  "container_buildService spec i cfg ls svcType servicePorts =
     \<lparr>svc_Name = '''', svc_GenerateName = cm_Name (cs_Metadata spec) @ ''-'', svc_Namespace = cc_Namespace cfg,
      svc_Labels = ls, svc_CreationTimestamp = 0, svc_Type = svcType, svc_ClusterIP = '''',
      svc_Ports =
        map (\<lambda>p. \<lparr>port_Name = ''port-'' @ show_int (cp_ContainerPort p), port_Protocol = ''TCP'',
                   port_Port = wrap32 (cp_ContainerPort p),
                   port_TargetPort = IntVal (wrap32 (cp_ContainerPort p)), port_NodePort = 0\<rparr>) servicePorts,
      svc_Selector = dcm_Labels container_type i, svc_Ingress = []\<rparr>"

section \<open>From Kubernetes objects to a container\<close>

definition MapPodPhaseToStatus :: "string \<Rightarrow> string option" where
  "MapPodPhaseToStatus phase =
     (if phase = ''Pending'' then Some ''PENDING''
      else if phase = ''Running'' then Some ''RUNNING''
      else if phase = ''Failed'' then Some ''FAILED''
      else if phase = ''Unknown'' then Some ''UNKNOWN''
      else None)"

definition cpu_of :: "(string \<times> quantity) list \<Rightarrow> string" where
  "cpu_of m = (case map_of m ''cpu'' of Some q \<Rightarrow> CPUQuantityToAPI q | None \<Rightarrow> '''')"

definition memory_of :: "(string \<times> quantity) list \<Rightarrow> string" where
  "memory_of m = (case map_of m ''memory'' of Some q \<Rightarrow> MemoryQuantityToAPI q | None \<Rightarrow> '''')"

definition resourcesFromContainer :: "k8s_container \<Rightarrow> container_resources" where
  "resourcesFromContainer c =
     (let lo = cpu_of (kc_Requests c); hi = cpu_of (kc_Limits c)
      in \<lparr>cr_CpuMin = (if lo = '''' \<and> hi \<noteq> '''' then hi else lo),
          cr_CpuMax = (if lo = '''' \<and> hi \<noteq> '''' then hi else if hi = '''' \<and> lo \<noteq> '''' then lo else hi),
          cr_MemoryMin = memory_of (kc_Requests c),
          cr_MemoryMax = memory_of (kc_Limits c)\<rparr>)"

definition non_nil :: "'a list \<Rightarrow> 'a list option" where
  "non_nil xs = (if xs = [] then None else Some xs)"

definition processFromContainer :: "k8s_container \<Rightarrow> container_process option" where
  "processFromContainer c =
     (if kc_Command c = [] \<and> kc_Args c = [] \<and> kc_Env c = [] then None
      else Some \<lparr>proc_Args = non_nil (kc_Args c), proc_Command = non_nil (kc_Command c), proc_Env = non_nil (kc_Env c)\<rparr>)"

text \<open>\<open>None\<close> is the panic of \<open>containers[0]\<close> on a Deployment without containers.\<close>

definition containerFromDeployment :: "deployment \<Rightarrow> string \<Rightarrow> container option" where
  "containerFromDeployment d instanceID =
     (case dep_Containers d of
        [] \<Rightarrow> None
      | c # _ \<Rightarrow>
          Some \<lparr>co_CreateTime = Some (dep_CreationTimestamp d), co_Id = instanceID, co_Path = ''containers/'' @ instanceID,
                co_Service = None,
                co_Spec =
                  \<lparr>cs_Image = kc_Image c,
                   cs_Metadata =
                     \<lparr>cm_Labels = non_nil (userLabels (dep_Labels d)), cm_Name = dep_Name d, cm_Namespace = Some (dep_Namespace d)\<rparr>,
                   cs_Network =
                     (if kc_Ports c \<noteq> []
                      then Some \<lparr>cn_Ip = None,
                                 cn_Ports = Some (map (\<lambda>p. \<lparr>cp_ContainerPort = p, cp_Visibility = ''none''\<rparr>) (kc_Ports c))\<rparr>
                      else None),
                   cs_Process = processFromContainer c,
                   cs_Resources = resourcesFromContainer c,
                   cs_ServiceType = container_type\<rparr>,
                co_Status = None, co_UpdateTime = None\<rparr>)"

definition or_else :: "'a option \<Rightarrow> 'a option \<Rightarrow> 'a option" where
  "or_else x y = (case x of None \<Rightarrow> y | Some _ \<Rightarrow> x)"

definition enrichWithPod :: "container \<Rightarrow> pod \<Rightarrow> container" where
  "enrichWithPod c p =
     (let c = c\<lparr>co_Status := or_else (MapPodPhaseToStatus (pod_Phase p)) (co_Status c)\<rparr>;
          c = (if pod_PodIP p \<noteq> ''''
               then let n = (case cs_Network (co_Spec c) of Some n \<Rightarrow> n | None \<Rightarrow> \<lparr>cn_Ip = None, cn_Ports = None\<rparr>)
                    in c\<lparr>co_Spec := (co_Spec c)\<lparr>cs_Network := Some (n\<lparr>cn_Ip := Some (pod_PodIP p)\<rparr>)\<rparr>\<rparr>
               else c)
      in c\<lparr>co_UpdateTime := or_else (latest_time (pod_ConditionTimes p)) (co_UpdateTime c)\<rparr>)"

definition inferVisibility :: "string \<Rightarrow> string" where
  "inferVisibility svcType = (if svcType = ''LoadBalancer'' \<or> svcType = ''NodePort'' then ''external'' else ''internal'')"

definition enrichWithService :: "container \<Rightarrow> service \<Rightarrow> container" where
  "enrichWithService c svc =
     (let info =
            \<lparr>si_ClusterIp = (if svc_ClusterIP svc \<noteq> '''' then Some (svc_ClusterIP svc) else None),
             si_ExternalIp = (case svc_Ingress svc of (ip, _) # _ \<Rightarrow> if ip \<noteq> '''' then Some ip else None | [] \<Rightarrow> None),
             si_Name = svc_Name svc,
             si_Ports = non_nil (map (\<lambda>p. (port_Port p, port_Protocol p, IntValue (port_TargetPort p))) (svc_Ports svc)),
             si_Type = svc_Type svc\<rparr>;
          targets = map (\<lambda>p. IntValue (port_TargetPort p)) (svc_Ports svc);
          shown = (\<lambda>p. if cp_ContainerPort p \<in> set targets then p\<lparr>cp_Visibility := inferVisibility (svc_Type svc)\<rparr> else p);
          c = c\<lparr>co_Service := Some info\<rparr>
      in case cs_Network (co_Spec c) of
           Some n \<Rightarrow> c\<lparr>co_Spec := (co_Spec c)\<lparr>cs_Network := Some (n\<lparr>cn_Ports := map_option (map shown) (cn_Ports n)\<rparr>)\<rparr>\<rparr>
         | None \<Rightarrow> c)"

definition isRollingUpdate :: "deployment \<Rightarrow> bool" where
  "isRollingUpdate d \<longleftrightarrow>
     (case dep_Replicas d of Some n \<Rightarrow> dep_UpdatedReplicas d \<noteq> n | None \<Rightarrow> False) \<or> dep_UnavailableReplicas d > 0"

definition selectActivePod :: "pod \<Rightarrow> pod list \<Rightarrow> pod" where
  "selectActivePod p ps =
     (case find (\<lambda>p. pod_Phase p = ''Running'') (p # ps) of
        Some p \<Rightarrow> p
      | None \<Rightarrow> foldl (\<lambda>newest q. if pod_CreationTimestamp q > pod_CreationTimestamp newest then q else newest) p ps)"

section \<open>The store\<close>

text \<open>The selector of one instance: unlike the other providers' it does not name the service type.\<close>

definition container_selector :: "string \<Rightarrow> labels" where
  "container_selector i = [(LabelInstanceID, i), (LabelManagedBy, ValueManagedByDCM)]"

definition container_labels :: "container_spec \<Rightarrow> string \<Rightarrow> labels" where
  "container_labels spec i =
     (case cm_Labels (cs_Metadata spec) of
        None \<Rightarrow> dcm_Labels container_type i
      | Some user \<Rightarrow> mergeLabels (dcm_Labels container_type i) user)"

definition findDeployment :: "kube_env \<Rightarrow> container_config \<Rightarrow> kube_trace \<Rightarrow> string \<Rightarrow> kube_trace \<times> (go_error + deployment)" where
  "findDeployment env cfg tr containerID =
     (case kube (k_list_deployments env) tr (ListDeployments (cc_Namespace cfg) (container_selector containerID)) of
        (tr, Inl e) \<Rightarrow> (tr, Inl (KubeError e))
      | (tr, Inr []) \<Rightarrow> (tr, Inl (NotFoundError (''container '' @ go_quote containerID @ '' not found'')))
      | (tr, Inr [d]) \<Rightarrow> (tr, Inr d)
      | (tr, Inr _) \<Rightarrow> (tr, Inl (ConflictError (''multiple deployments found for container '' @ go_quote containerID))))"

text \<open>The container's data from its Pods, then from its Service.\<close>

definition enrich_pods :: "container \<Rightarrow> deployment \<Rightarrow> string \<Rightarrow> pod list \<Rightarrow> go_error + container" where
  "enrich_pods c d instanceID pods =
     (case pods of
        [] \<Rightarrow> Inr (c\<lparr>co_Status := Some ''PENDING'', co_UpdateTime := or_else (latest_time (dep_ConditionTimes d)) (co_UpdateTime c)\<rparr>)
      | [p] \<Rightarrow> Inr (enrichWithPod c p)
      | p # ps \<Rightarrow>
          if length pods = 2 \<and> isRollingUpdate d then Inr (enrichWithPod c (selectActivePod p ps))
          else Inl (ConflictError (''multiple pods found for container '' @ go_quote instanceID)))"

definition enrichFromCluster ::
  "kube_env \<Rightarrow> container_config \<Rightarrow> kube_trace \<Rightarrow> container \<Rightarrow> deployment \<Rightarrow> string \<Rightarrow> kube_trace \<times> (go_error + container)" where
  "enrichFromCluster env cfg tr c d instanceID =
     (case kube (k_list_pods env) tr (ListPods (cc_Namespace cfg) (container_selector instanceID)) of
        (tr, Inl e) \<Rightarrow> (tr, Inl (KubeError e))
      | (tr, Inr pods) \<Rightarrow>
          (case enrich_pods c d instanceID pods of
             Inl e \<Rightarrow> (tr, Inl e)
           | Inr c \<Rightarrow>
               (case kube (k_list_services env) tr (ListServices (cc_Namespace cfg) (container_selector instanceID) 0 '''') of
                  (tr, Inl e) \<Rightarrow> (tr, Inl (KubeError e))
                | (tr, Inr ([svc], _)) \<Rightarrow> (tr, Inr (enrichWithService c svc))
                | (tr, Inr _) \<Rightarrow> (tr, Inr c))))"

definition buildContainer :: "kube_env \<Rightarrow> container_config \<Rightarrow> kube_trace \<Rightarrow> deployment \<Rightarrow> string \<Rightarrow> kube_trace \<times> (go_error + container)" where
  "buildContainer env cfg tr d instanceID =
     (case containerFromDeployment d instanceID of
        None \<Rightarrow> (tr, Inl (Panic ''index out of range''))
      | Some c \<Rightarrow> enrichFromCluster env cfg tr c d instanceID)"

definition container_Get :: "kube_env \<Rightarrow> container_config \<Rightarrow> kube_trace \<Rightarrow> string \<Rightarrow> kube_trace \<times> (go_error + container)" where
  "container_Get env cfg tr containerID =
     (case findDeployment env cfg tr containerID of
        (tr, Inl e) \<Rightarrow> (tr, Inl e)
      | (tr, Inr d) \<Rightarrow> buildContainer env cfg tr d containerID)"



definition newContainerResult :: "time \<Rightarrow> container_spec \<Rightarrow> string \<Rightarrow> string \<Rightarrow> container" where
  "newContainerResult now spec i namespace =
     \<lparr>co_CreateTime = Some now, co_Id = i, co_Path = ''containers/'' @ i, co_Service = None,
      co_Spec = spec\<lparr>cs_Metadata := (cs_Metadata spec)\<lparr>cm_Namespace := Some namespace\<rparr>\<rparr>,
      co_Status = Some ''PENDING'', co_UpdateTime = Some now\<rparr>"

text \<open>The second half of \<open>Create\<close>: the Service, if a port needs one, and the rollback.\<close>

definition container_create_service ::
  "kube_env \<Rightarrow> container_config \<Rightarrow> kube_trace \<Rightarrow> container_spec \<Rightarrow> string \<Rightarrow> labels \<Rightarrow> deployment \<Rightarrow> time \<Rightarrow> kube_trace \<times> (go_error + container)" where
  "container_create_service env cfg tr spec i ls d now =
     (let servicePorts = portsWithVisibility spec
      in if servicePorts = [] then (tr, Inr (newContainerResult now spec i (cc_Namespace cfg)))
         else case kube (k_create_service env) tr
                (CreateService (container_buildService spec i cfg ls (container_resolveServiceType cfg servicePorts) servicePorts)) of
           (tr, Inl e) \<Rightarrow>
             (case kube (k_delete env) tr (DeleteDeployment Detached (cc_Namespace cfg) (dep_Name d)) of
                (tr, _) \<Rightarrow> (tr, Inl (KubeError e)))
         | (tr, Inr _) \<Rightarrow> (tr, Inr (newContainerResult now spec i (cc_Namespace cfg))))"

definition container_Create ::
  "quantity_parser \<Rightarrow> kube_env \<Rightarrow> container_config \<Rightarrow> time \<Rightarrow> kube_trace \<Rightarrow> container_spec \<Rightarrow> string \<Rightarrow> kube_trace \<times> (go_error + container)" where
  "container_Create pq env cfg now tr spec i =
     (let ls = container_labels spec i
      in case kube (k_list_deployments env) tr (ListDeployments (cc_Namespace cfg) (container_selector i)) of
           (tr, Inl e) \<Rightarrow> (tr, Inl (KubeError e))
         | (tr, Inr (_ # _)) \<Rightarrow> (tr, Inl (ConflictError (''container with instance ID '' @ go_quote i @ '' already exists'')))
         | (tr, Inr []) \<Rightarrow>
             (case buildDeployment pq spec i cfg ls of
                Inl e \<Rightarrow> (tr, Inl (InvalidArgumentError e))
              | Inr d \<Rightarrow>
                  (case kube (k_create_deployment env) tr (CreateDeployment d) of
                     (tr, Inl e) \<Rightarrow>
                       (tr, Inl (if ke_Reason e = AlreadyExists
                                 then ConflictError (''deployment '' @ go_quote (cm_Name (cs_Metadata spec)) @ '' already exists'')
                                 else KubeError e))
                   | (tr, Inr d) \<Rightarrow> container_create_service env cfg tr spec i ls d now)))"

fun delete_services :: "kube_env \<Rightarrow> container_config \<Rightarrow> kube_trace \<Rightarrow> service list \<Rightarrow> kube_trace \<times> go_error option" where
  "delete_services env cfg tr [] = (tr, None)"
| "delete_services env cfg tr (svc # svcs) =
     (case kube (k_delete env) tr (DeleteService (cc_Namespace cfg) (svc_Name svc)) of
        (tr, Some e) \<Rightarrow> (tr, Some (KubeError e))
      | (tr, None) \<Rightarrow> delete_services env cfg tr svcs)"

definition container_Delete :: "kube_env \<Rightarrow> container_config \<Rightarrow> kube_trace \<Rightarrow> string \<Rightarrow> kube_trace \<times> go_error option" where
  "container_Delete env cfg tr containerID =
     (case findDeployment env cfg tr containerID of
        (tr, Inl e) \<Rightarrow> (tr, Some e)
      | (tr, Inr d) \<Rightarrow>
          (case kube (k_list_services env) tr (ListServices (cc_Namespace cfg) (container_selector containerID) 0 '''') of
             (tr, Inl e) \<Rightarrow> (tr, Some (KubeError e))
           | (tr, Inr (svcs, _)) \<Rightarrow>
               (case delete_services env cfg tr svcs of
                  (tr, Some e) \<Rightarrow> (tr, Some e)
                | (tr, None) \<Rightarrow>
                    (case kube (k_delete env) tr (DeleteDeployment Detached (cc_Namespace cfg) (dep_Name d)) of
                       (tr, e) \<Rightarrow> (tr, map_option KubeError e)))))"

section \<open>The embedded handler\<close>

definition container_mapStoreError :: "go_error \<Rightarrow> fwd_error" where
  "container_mapStoreError e =
     (case root_cause e of
        NotFoundError _ \<Rightarrow> SPResponseError 404 (error_text e)
      | ConflictError _ \<Rightarrow> SPResponseError 409 (error_text e)
      | InvalidArgumentError _ \<Rightarrow> SPResponseError 400 (error_text e)
      | _ \<Rightarrow> SPResponseError 500 (error_text e))"

definition parseContainerSpec :: "container_spec spec_codec \<Rightarrow> json option \<Rightarrow> string + container_spec" where
  "parseContainerSpec codec raw =
     (case SpecJSON codec raw of
        Inl e \<Rightarrow> Inl e
      | Inr payload \<Rightarrow>
          (case dec_spec codec payload of
             Inl e \<Rightarrow> Inl (''invalid container spec: '' @ e)
           | Inr spec \<Rightarrow> if cm_Name (cs_Metadata spec) = '''' then Inl ''spec.metadata.name is required'' else Inr spec))"

definition container_CreateResource ::
  "container_spec spec_codec \<Rightarrow> quantity_parser \<Rightarrow> kube_env \<Rightarrow> container_config \<Rightarrow> time \<Rightarrow>
   kube_trace \<Rightarrow> string \<Rightarrow> json option \<Rightarrow> kube_trace \<times> fwd_error option" where
  "container_CreateResource codec pq env cfg now tr resourceID raw =
     (case parseContainerSpec codec raw of
        Inl e \<Rightarrow> (tr, Some (SPResponseError 400 e))
      | Inr spec \<Rightarrow>
          (case container_ValidateCreate pq resourceID spec of
             Some e \<Rightarrow> (tr, Some (container_mapStoreError e))
           | None \<Rightarrow>
               (case container_Create pq env cfg now tr spec resourceID of
                  (tr, Inl e) \<Rightarrow> (tr, Some (container_mapStoreError e))
                | (tr, Inr _) \<Rightarrow> (tr, None))))"

definition container_DeleteResource :: "kube_env \<Rightarrow> container_config \<Rightarrow> kube_trace \<Rightarrow> string \<Rightarrow> kube_trace \<times> fwd_error option" where
  "container_DeleteResource env cfg tr resourceID =
     (case container_Delete env cfg tr resourceID of
        (tr, Some e) \<Rightarrow> (tr, Some (container_mapStoreError e))
      | (tr, None) \<Rightarrow> (tr, None))"

section \<open>What is accepted\<close>

definition container_accepts :: "container_spec spec_codec \<Rightarrow> quantity_parser \<Rightarrow> string \<Rightarrow> json option \<Rightarrow> bool" where
  "container_accepts codec pq i raw =
     (case parseContainerSpec codec raw of
        Inl _ \<Rightarrow> False
      | Inr spec \<Rightarrow> container_ValidateCreate pq i spec = None)"

lemma container_ValidateCreate_invalid: "container_ValidateCreate pq i spec = Some e \<Longrightarrow> \<exists>m. e = InvalidArgumentError m"
  by (auto simp: container_ValidateCreate_def split: option.splits list.splits)

lemma container_refused:
  assumes "\<not> container_accepts codec pq i raw"
  shows "\<exists>m. container_CreateResource codec pq env cfg now tr i raw = (tr, Some (SPResponseError 400 m))"
proof (cases "parseContainerSpec codec raw")
  case (Inr spec)
  with assms obtain m where "container_ValidateCreate pq i spec = Some (InvalidArgumentError m)"
    using container_ValidateCreate_invalid by (fastforce simp: container_accepts_def)
  with Inr show ?thesis by (simp add: container_CreateResource_def container_mapStoreError_def)
qed (simp add: container_CreateResource_def)

lemma container_mapStoreError_sp: "sp_error (Some (container_mapStoreError e))"
  by (simp add: container_mapStoreError_def sp_error_def split: go_error.split)

lemma check_range_ok:
  "check_range what parse lo hi = [] \<longleftrightarrow> (\<exists>l h. parse lo = Inr l \<and> parse hi = Inr h \<and> q_nano l \<le> q_nano h)"
  by (auto simp: check_range_def split: sum.split)

lemma checkUserLabels_ok:
  "checkUserLabels m = [] \<longleftrightarrow> (\<forall>l. m = Some l \<longrightarrow> dom (map_of l) \<inter> set ReservedLabelKeys = {})"
proof (cases m)
  case (Some l)
  have "checkUserLabels m = [] \<longleftrightarrow> filter (\<lambda>k. map_of l k \<noteq> None) (sort ReservedLabelKeys) = []"
    using Some by (simp add: checkUserLabels_def)
  also have "\<dots> \<longleftrightarrow> dom (map_of l) \<inter> set ReservedLabelKeys = {}"
    unfolding filter_empty_conv set_sort by (auto simp: domIff)
  finally show ?thesis using Some by simp
qed (simp add: checkUserLabels_def)

lemma container_ValidateCreate_iff:
  "container_ValidateCreate pq i spec = None \<longleftrightarrow>
     i \<noteq> ''health'' \<and> checkResources pq (cs_Resources spec) = [] \<and>
     (\<forall>l. cm_Labels (cs_Metadata spec) = Some l \<longrightarrow> dom (map_of l) \<inter> set ReservedLabelKeys = {})"
proof -
  have "container_ValidateCreate pq i spec = None \<longleftrightarrow>
      checkContainerID i = None \<and> checkResources pq (cs_Resources spec) = [] \<and> checkUserLabels (cm_Labels (cs_Metadata spec)) = []"
    by (auto simp: container_ValidateCreate_def split: option.split list.split)
  then show ?thesis unfolding checkUserLabels_ok by (simp add: checkContainerID_def)
qed

section \<open>Created objects\<close>

text \<open>A Deployment that the cluster may be asked to create for container \<open>i\<close>: it is DCM's, its selector matches
  its own pods, and requests do not exceed limits.\<close>

definition deployment_wf :: "container_config \<Rightarrow> string \<Rightarrow> deployment \<Rightarrow> bool" where
  "deployment_wf cfg i d \<longleftrightarrow>
     dep_Namespace d = cc_Namespace cfg \<and> is_dcm_managed container_type (dep_Labels d) i \<and>
     dep_Selector d = dcm_Labels container_type i \<and> matches_selector (dep_Selector d) (dep_TemplateLabels d) \<and>
     matches_selector (container_selector i) (dep_Labels d) \<and> matches_selector (dcm_Selector container_type) (dep_Labels d) \<and>
     (\<exists>c cl ch ml mh. dep_Containers d = [c] \<and>
        kc_Requests c = [(''cpu'', cl), (''memory'', ml)] \<and> kc_Limits c = [(''cpu'', ch), (''memory'', mh)] \<and>
        q_nano cl \<le> q_nano ch \<and> q_nano ml \<le> q_nano mh)"

text \<open>A Service for the container that Deployment \<open>d\<close> runs: it selects exactly the pods the Deployment selects and
  targets only ports of its container.\<close>

definition service_for :: "container_config \<Rightarrow> string \<Rightarrow> deployment \<Rightarrow> service \<Rightarrow> bool" where
  "service_for cfg i d s \<longleftrightarrow>
     svc_Namespace s = cc_Namespace cfg \<and> is_dcm_managed container_type (svc_Labels s) i \<and>
     matches_selector (container_selector i) (svc_Labels s) \<and>
     svc_Selector s = dep_Selector d \<and> svc_Type s \<in> {''ClusterIP'', cc_ExternalServiceType cfg} \<and> svc_Ports s \<noteq> [] \<and>
     (\<forall>p \<in> set (svc_Ports s). \<exists>c \<in> set (dep_Containers d). port_Port p \<in> set (kc_Ports c) \<and> port_TargetPort p = IntVal (port_Port p))"

lemma container_labels_map:
  "map_of (container_labels spec i) =
     map_of (case cm_Labels (cs_Metadata spec) of None \<Rightarrow> [] | Some l \<Rightarrow> l) ++ map_of (dcm_Labels container_type i)"
  by (simp add: container_labels_def split: option.split)

lemma container_labels_selected:
  "matches_selector (dcm_Labels container_type i) (container_labels spec i)"
  "matches_selector (container_selector i) (container_labels spec i)"
  "matches_selector (dcm_Selector container_type) (container_labels spec i)"
  by (simp_all add: matches_selector_def dcm_Labels_def container_selector_def dcm_Selector_def container_labels_map)

lemma container_labels_managed: "is_dcm_managed container_type (container_labels spec i) i"
  using container_labels_selected(1) by (rule selected_managed)

lemma buildDeployment_ok:
  assumes "container_ValidateCreate pq i spec = None"
  obtains d where "buildDeployment pq spec i cfg (container_labels spec i) = Inr d" "deployment_wf cfg i d"
    "\<forall>c \<in> set (dep_Containers d). kc_Ports c = map (\<lambda>p. wrap32 (cp_ContainerPort p)) (spec_ports spec)"
proof -
  from assms obtain cl ch ml mh where q:
      "pq (cr_CpuMin (cs_Resources spec)) = Inr cl" "pq (cr_CpuMax (cs_Resources spec)) = Inr ch" "q_nano cl \<le> q_nano ch"
      "ConvertMemory pq (cr_MemoryMin (cs_Resources spec)) = Inr ml" "ConvertMemory pq (cr_MemoryMax (cs_Resources spec)) = Inr mh"
      "q_nano ml \<le> q_nano mh"
    by (auto simp: container_ValidateCreate_iff checkResources_def check_range_ok)
  have "\<exists>d. buildDeployment pq spec i cfg (container_labels spec i) = Inr d \<and> deployment_wf cfg i d \<and>
      (\<forall>c \<in> set (dep_Containers d). kc_Ports c = map (\<lambda>p. wrap32 (cp_ContainerPort p)) (spec_ports spec))"
    by (simp add: buildDeployment_def ConvertCPU_def Let_def deployment_wf_def q container_labels_selected container_labels_managed)
  then show thesis using that by blast
qed

lemma built_service_for:
  assumes d: "deployment_wf cfg i d"
    and ports: "\<forall>c \<in> set (dep_Containers d). kc_Ports c = map (\<lambda>p. wrap32 (cp_ContainerPort p)) (spec_ports spec)"
    and vis: "portsWithVisibility spec \<noteq> []"
  shows "service_for cfg i d (container_buildService spec i cfg (container_labels spec i)
     (container_resolveServiceType cfg (portsWithVisibility spec)) (portsWithVisibility spec))"
proof -
  obtain c where c: "dep_Containers d = [c]" using d by (auto simp: deployment_wf_def)
  with ports have "set (map (\<lambda>p. wrap32 (cp_ContainerPort p)) (portsWithVisibility spec)) \<subseteq> set (kc_Ports c)"
    by (auto simp: portsWithVisibility_def)
  then show ?thesis
    using c d vis container_labels_selected container_labels_managed
    by (auto simp: service_for_def container_buildService_def deployment_wf_def container_resolveServiceType_def)
qed

section \<open>Creating a container\<close>

abbreviation built_service :: "container_spec \<Rightarrow> string \<Rightarrow> container_config \<Rightarrow> service" where
  "built_service spec i cfg \<equiv> container_buildService spec i cfg (container_labels spec i)
     (container_resolveServiceType cfg (portsWithVisibility spec)) (portsWithVisibility spec)"

lemma container_CreateResource_run:
  assumes "parseContainerSpec codec raw = Inr spec" "container_ValidateCreate pq i spec = None"
    and "k_list_deployments env (tr @ [c0]) = Inr []" "buildDeployment pq spec i cfg (container_labels spec i) = Inr d"
    and "c0 = ListDeployments (cc_Namespace cfg) (container_selector i)" "s = built_service spec i cfg"
  shows "container_CreateResource codec pq env cfg now tr i raw =
     (case k_create_deployment env (tr @ [c0, CreateDeployment d]) of
        Inl e \<Rightarrow> (tr @ [c0, CreateDeployment d],
           Some (container_mapStoreError
             (if ke_Reason e = AlreadyExists
              then ConflictError (''deployment '' @ go_quote (cm_Name (cs_Metadata spec)) @ '' already exists'') else KubeError e)))
      | Inr d' \<Rightarrow>
          if portsWithVisibility spec = [] then (tr @ [c0, CreateDeployment d], None)
          else case k_create_service env (tr @ [c0, CreateDeployment d, CreateService s]) of
                 Inl e \<Rightarrow> (tr @ [c0, CreateDeployment d, CreateService s, DeleteDeployment Detached (cc_Namespace cfg) (dep_Name d')],
                           Some (SPResponseError 500 (ke_Error e)))
               | Inr _ \<Rightarrow> (tr @ [c0, CreateDeployment d, CreateService s], None))"
  using assms
  by (simp add: container_CreateResource_def container_Create_def container_create_service_def kube_def
      container_mapStoreError_def [of "KubeError _"] Let_def split: sum.split)

text \<open>C36: creating a container is all or nothing, as far as the cluster obeys.  An accepted request first looks for
  a Deployment of the instance and stops with 409 if there is one; otherwise it creates one well-formed Deployment
  and, exactly when a port is visible, one Service that selects the Deployment's pods and targets ports of its
  container.  The request succeeds only when everything was created; when the Service cannot be created, the last
  call deletes the Deployment that the server just created, outside the caller's cancellation.  Every other request
  is refused with 400 and the cluster is not touched.\<close>

theorem container_create_atomic:
  "let c0 = ListDeployments (cc_Namespace cfg) (container_selector i); r = container_CreateResource codec pq env cfg now tr i raw
   in case parseContainerSpec codec raw of
        Inl _ \<Rightarrow> \<exists>m. r = (tr, Some (SPResponseError 400 m))
      | Inr spec \<Rightarrow>
          if container_ValidateCreate pq i spec \<noteq> None then \<exists>m. r = (tr, Some (SPResponseError 400 m))
          else case k_list_deployments env (tr @ [c0]) of
            Inl _ \<Rightarrow> \<exists>m. r = (tr @ [c0], Some (SPResponseError 500 m))
          | Inr (_ # _) \<Rightarrow> \<exists>m. r = (tr @ [c0], Some (SPResponseError 409 m))
          | Inr [] \<Rightarrow>
              \<exists>d. deployment_wf cfg i d \<and>
                (case k_create_deployment env (tr @ [c0, CreateDeployment d]) of
                   Inl e \<Rightarrow> \<exists>m. r = (tr @ [c0, CreateDeployment d], Some (SPResponseError (if ke_Reason e = AlreadyExists then 409 else 500) m))
                 | Inr d' \<Rightarrow>
                     if portsWithVisibility spec = [] then r = (tr @ [c0, CreateDeployment d], None)
                     else \<exists>s. service_for cfg i d s \<and>
                       (case k_create_service env (tr @ [c0, CreateDeployment d, CreateService s]) of
                          Inr _ \<Rightarrow> r = (tr @ [c0, CreateDeployment d, CreateService s], None)
                        | Inl _ \<Rightarrow>
                            \<exists>m. r = (tr @ [c0, CreateDeployment d, CreateService s, DeleteDeployment Detached (cc_Namespace cfg) (dep_Name d')],
                                   Some (SPResponseError 500 m))))"
proof (cases "parseContainerSpec codec raw")
  case (Inl e)
  then show ?thesis by (simp add: container_CreateResource_def)
next
  case (Inr spec)
  show ?thesis
  proof (cases "container_ValidateCreate pq i spec")
    case (Some e)
    then have "\<not> container_accepts codec pq i raw" using Inr by (simp add: container_accepts_def)
    from container_refused [OF this] Some Inr show ?thesis by (simp add: Let_def)
  next
    case None
    then obtain d where d: "buildDeployment pq spec i cfg (container_labels spec i) = Inr d" "deployment_wf cfg i d"
      and ports: "\<forall>c \<in> set (dep_Containers d). kc_Ports c = map (\<lambda>p. wrap32 (cp_ContainerPort p)) (spec_ports spec)"
      by (rule buildDeployment_ok [where cfg = cfg])
    let ?c0 = "ListDeployments (cc_Namespace cfg) (container_selector i)"
    show ?thesis
    proof (cases "k_list_deployments env (tr @ [?c0]) = Inr []")
      case False
      with None Inr show ?thesis
        by (simp add: container_CreateResource_def container_Create_def kube_def container_mapStoreError_def Let_def split: sum.split list.split)
    next
      case nodep: True
      note run = container_CreateResource_run [OF Inr None nodep d(1) refl refl, of now]
      have s: "portsWithVisibility spec \<noteq> [] \<Longrightarrow> service_for cfg i d (built_service spec i cfg)"
        by (rule built_service_for [OF d(2) ports])
      show ?thesis
        by (simp only: Let_def Inr None nodep sum.case list.case simp_thms if_False)
          (rule exI [of _ d], auto simp: run d(2) container_mapStoreError_def intro!: exI [of _ "built_service spec i cfg"] s split: sum.split)
    qed
  qed
qed

lemma container_answer: "sp_error (snd (container_CreateResource codec pq env cfg now tr i raw))"
  by (auto simp: container_CreateResource_def container_mapStoreError_sp split: sum.split option.split prod.split)

lemma container_create_calls:
  "\<exists>seg. fst (container_CreateResource codec pq env cfg now tr i raw) = tr @ seg \<and>
     list_all (\<lambda>c. creates c \<longrightarrow> container_accepts codec pq i raw) seg"
proof (cases "container_accepts codec pq i raw")
  case False
  from container_refused [OF this, of env cfg now tr] show ?thesis by auto
next
  case True
  have "\<exists>seg. fst (container_CreateResource codec pq env cfg now tr i raw) = tr @ seg"
    by (auto simp: container_CreateResource_def container_Create_def container_create_service_def kube_def Let_def
        split: sum.split option.split list.split)
  then show ?thesis using True by (auto simp: list_all_iff)
qed

section \<open>Deleting a container\<close>

lemma delete_services_run:
  "\<exists>k \<le> length svcs. fst (delete_services env cfg tr svcs) = tr @ map (\<lambda>s. DeleteService (cc_Namespace cfg) (svc_Name s)) (take k svcs) \<and>
     (case snd (delete_services env cfg tr svcs) of
        None \<Rightarrow> k = length svcs
      | Some e \<Rightarrow> 0 < k \<and> (\<exists>ke. e = KubeError ke \<and> k_delete env (fst (delete_services env cfg tr svcs)) = Some ke))"
proof (induction svcs arbitrary: tr)
  case (Cons s svcs)
  let ?c = "DeleteService (cc_Namespace cfg) (svc_Name s)"
  show ?case
  proof (cases "k_delete env (tr @ [?c])")
    case None
    from Cons.IH [of "tr @ [?c]"] obtain k where k: "k \<le> length svcs"
        "fst (delete_services env cfg (tr @ [?c]) svcs) = tr @ ?c # map (\<lambda>s. DeleteService (cc_Namespace cfg) (svc_Name s)) (take k svcs)"
        "case snd (delete_services env cfg (tr @ [?c]) svcs) of None \<Rightarrow> k = length svcs
         | Some e \<Rightarrow> 0 < k \<and> (\<exists>ke. e = KubeError ke \<and> k_delete env (fst (delete_services env cfg (tr @ [?c]) svcs)) = Some ke)"
      by auto
    then show ?thesis using None by (intro exI [of _ "Suc k"]) (auto simp: kube_def split: option.splits)
  qed (auto simp: kube_def intro: exI [of _ 1])
qed simp

text \<open>C37: deleting a container looks up its one Deployment (none answers 404, several 409), lists the Services of the
  instance, deletes these in order until one deletion fails, and deletes the Deployment, outside the caller's
  cancellation, only after every Service deletion succeeded: a Deployment never disappears while one of its
  Services is left, so a repeated request can find what is left to do.  The request succeeds exactly when the
  Deployment was deleted.\<close>

theorem container_delete_order:
  "let c0 = ListDeployments (cc_Namespace cfg) (container_selector i);
       c1 = ListServices (cc_Namespace cfg) (container_selector i) 0 '''';
       r = container_DeleteResource env cfg tr i
   in case k_list_deployments env (tr @ [c0]) of
        Inl _ \<Rightarrow> \<exists>m. r = (tr @ [c0], Some (SPResponseError 500 m))
      | Inr [] \<Rightarrow> \<exists>m. r = (tr @ [c0], Some (SPResponseError 404 m))
      | Inr (_ # _ # _) \<Rightarrow> \<exists>m. r = (tr @ [c0], Some (SPResponseError 409 m))
      | Inr [d] \<Rightarrow>
          (case k_list_services env (tr @ [c0, c1]) of
             Inl _ \<Rightarrow> \<exists>m. r = (tr @ [c0, c1], Some (SPResponseError 500 m))
           | Inr (svcs, _) \<Rightarrow>
               \<exists>k tr'. k \<le> length svcs \<and> tr' = tr @ [c0, c1] @ map (\<lambda>s. DeleteService (cc_Namespace cfg) (svc_Name s)) (take k svcs) \<and>
                 ((\<exists>m. r = (tr', Some (SPResponseError 500 m)) \<and> 0 < k \<and> k_delete env tr' \<noteq> None) \<or>
                  k = length svcs \<and> fst r = tr' @ [DeleteDeployment Detached (cc_Namespace cfg) (dep_Name d)] \<and>
                    (snd r = None \<longleftrightarrow> k_delete env (fst r) = None)))"
proof -
  let ?c0 = "ListDeployments (cc_Namespace cfg) (container_selector i)" and ?c1 = "ListServices (cc_Namespace cfg) (container_selector i) 0 ''''"
  note run = container_DeleteResource_def container_Delete_def findDeployment_def kube_def container_mapStoreError_def
  show ?thesis
  proof (cases "\<exists>d svcs x. k_list_deployments env (tr @ [?c0]) = Inr [d] \<and> k_list_services env (tr @ [?c0, ?c1]) = Inr (svcs, x)")
    case False
    then show ?thesis by (simp add: run Let_def split: sum.split list.split) blast
  next
    case True
    then obtain d svcs x where l: "k_list_deployments env (tr @ [?c0]) = Inr [d]" "k_list_services env (tr @ [?c0, ?c1]) = Inr (svcs, x)" by blast
    obtain tr' e where ds: "delete_services env cfg (tr @ [?c0, ?c1]) svcs = (tr', e)" by fastforce
    from delete_services_run [of svcs env cfg "tr @ [?c0, ?c1]"] obtain k where k: "k \<le> length svcs"
        "tr' = tr @ [?c0, ?c1] @ map (\<lambda>s. DeleteService (cc_Namespace cfg) (svc_Name s)) (take k svcs)"
        "case e of None \<Rightarrow> k = length svcs | Some e \<Rightarrow> 0 < k \<and> (\<exists>ke. e = KubeError ke \<and> k_delete env tr' = Some ke)"
      unfolding ds fst_conv snd_conv append_assoc by blast
    show ?thesis
      using l ds k by (cases e) (auto simp: run Let_def intro!: exI [of _ k] split: option.split)
  qed
qed

lemma container_delete_calls:
  "\<exists>seg. fst (container_DeleteResource env cfg tr i) = tr @ seg \<and> (\<forall>c \<in> set seg. \<not> creates c)"
proof -
  have d: "\<exists>seg. t = tr @ seg \<and> (\<forall>c \<in> set seg. \<not> creates c)" if "delete_services env cfg tr svcs = (t, e)" for tr svcs t e
    using delete_services_run [of svcs env cfg tr] that by auto
  show ?thesis
    by (auto simp: container_DeleteResource_def container_Delete_def findDeployment_def kube_def
        dest!: d split: sum.split list.split option.split prod.split)
qed

interpretation con_h: embedded_handler "container_accepts codec pq" "container_CreateResource codec pq env cfg now" "container_DeleteResource env cfg"
  for codec pq env cfg now
proof
  fix i tr
  show "sp_error (snd (container_DeleteResource env cfg tr i))"
    by (simp add: container_DeleteResource_def container_mapStoreError_sp split: prod.split option.split)
qed (rule container_refused container_answer container_create_calls container_delete_calls; assumption?)+

section \<open>Listing containers page by page\<close>



definition container_name :: "container \<Rightarrow> string" where
  "container_name c = cm_Name (cs_Metadata (co_Spec c))"


lemma enrich_keeps [simp]:
  "container_name (enrichWithPod c p) = container_name c" "co_Id (enrichWithPod c p) = co_Id c"
  "container_name (enrichWithService c s) = container_name c" "co_Id (enrichWithService c s) = co_Id c"
  by (simp_all add: enrichWithPod_def enrichWithService_def container_name_def Let_def split: option.split)

lemma container_name_update [simp]: "container_name (c\<lparr>co_Status := x, co_UpdateTime := y\<rparr>) = container_name c"
  by (simp add: container_name_def)











section \<open>Two consequences of how objects are shared\<close>

text \<open>One Service carries every visible port, so a port declared internal is exposed outside the cluster as soon as
  another port of the container is external, and it reads back as external.\<close>

lemma internal_port_exposed:
  assumes "p \<in> set (spec_ports spec)" "cp_Visibility p = ''internal''"
    and "q \<in> set (spec_ports spec)" "cp_Visibility q = ''external''"
  shows "svc_Type (built_service spec i cfg) = cc_ExternalServiceType cfg \<and>
     wrap32 (cp_ContainerPort p) \<in> port_Port ` set (svc_Ports (built_service spec i cfg))"
  using assms by (auto simp: container_buildService_def container_resolveServiceType_def hasExternalPort_def list_ex_iff
      portsWithVisibility_def image_iff intro!: bexI [of _ p])

text \<open>The selector of an instance does not name the service type: it matches the objects that another provider created
  for the same instance id, so that deleting a container also deletes a network's Service of that id.\<close>

lemma selector_matches_other_provider: "matches_selector (container_selector i) (dcm_Labels st i)"
  by (simp add: matches_selector_def container_selector_def)

end
