(* ===== verification/Status_Debouncer.thy ===== *)
theory Status_Debouncer
  imports Agent_Prelude "HOL-Library.Word" "HOL-Library.Sublist"
begin

text \<open>
  \<open>internal/openshift/network/monitoring/debouncer.go\<close> and the identical \<open>internal/openshift/storage/monitoring/debouncer.go\<close>: the debouncer that
  coalesces status events of embedded providers before they are published.  The sections under the mutex are functions on the state; timer
  callbacks, publishing goroutines, \<open>Submit\<close> and \<open>Stop\<close> interleave in a step relation.  The counter that tells a superseded timer from
  the current one is an \<open>uint64\<close>.
\<close>

section \<open>State\<close>

record 'e instance_state =
  is_timer :: "nat option"
  is_pending :: 'e
  is_ver :: "64 word"
  is_draining :: bool

text \<open>The goroutines that are in \<open>runPublish\<close> or \<open>endPublish\<close>, by what they do next: return from \<open>publishFn\<close>, enter \<open>runPublish\<close> again,
  or publish the event that was submitted while \<open>Stop\<close> was waiting.\<close>

datatype 'e publisher =
    Publishing string "64 word" 'e
  | FollowUp string "64 word"
  | StopFlush string 'e
  | StopFlushing string

datatype 'e stopper = NotStopped | Flushing "(string \<times> 'e) list" | FlushCall string "(string \<times> 'e) list" | StopReturned

datatype 'e deb_event = Accepted string 'e | Published string 'e

text \<open>A timer whose callback has not run yet is in \<open>db_callbacks\<close>.\<close>

record 'e debouncer =
  db_instances :: "string \<Rightarrow> 'e instance_state option"
  db_ids :: "string list" \<comment> \<open>the keys of \<open>db_instances\<close>, in any order\<close>
  db_stopped :: bool
  db_wg :: int
  db_callbacks :: "nat \<Rightarrow> (string \<times> 64 word) option"
  db_next :: nat
  db_running :: "'e publisher list"
  db_stopper :: "'e stopper"
  db_log :: "'e deb_event list"

definition NewDebouncer :: "'e debouncer" where
  "NewDebouncer = \<lparr>db_instances = Map.empty, db_ids = [], db_stopped = False, db_wg = 0, db_callbacks = Map.empty, db_next = 0,
     db_running = [], db_stopper = NotStopped, db_log = []\<rparr>"

section \<open>Operations\<close>

definition get_or_new :: "'e debouncer \<Rightarrow> string \<Rightarrow> 'e \<Rightarrow> 'e instance_state" where
  "get_or_new d i e =
     (case db_instances d i of
        Some st \<Rightarrow> st\<lparr>is_pending := e, is_ver := is_ver st + 1\<rparr>
      | None \<Rightarrow> \<lparr>is_timer = None, is_pending = e, is_ver = 1, is_draining = False\<rparr>)"

definition put_instance :: "string \<Rightarrow> 'e instance_state \<Rightarrow> 'e debouncer \<Rightarrow> 'e debouncer" where
  "put_instance i st d = d\<lparr>db_instances := (db_instances d)(i \<mapsto> st), db_ids := (if i \<in> set (db_ids d) then db_ids d else i # db_ids d)\<rparr>"

definition delete_instance :: "string \<Rightarrow> 'e debouncer \<Rightarrow> 'e debouncer" where
  "delete_instance i d = d\<lparr>db_instances := (db_instances d)(i := None), db_ids := removeAll i (db_ids d)\<rparr>"

text \<open>\<open>timer.Stop\<close> prevents the callback, unless the timer has fired already.\<close>

definition stop_timer :: "bool \<Rightarrow> nat option \<Rightarrow> (nat \<Rightarrow> (string \<times> 64 word) option) \<Rightarrow> nat \<Rightarrow> (string \<times> 64 word) option" where
  "stop_timer fired timer callbacks = (case timer of Some a \<Rightarrow> if fired then callbacks else callbacks(a := None) | None \<Rightarrow> callbacks)"

definition Submit :: "bool \<Rightarrow> string \<Rightarrow> 'e \<Rightarrow> 'e debouncer \<Rightarrow> 'e debouncer" where
  "Submit fired i e d =
     (if db_stopped d then d
      else
        let st = get_or_new d i e;
            d = d\<lparr>db_log := db_log d @ [Accepted i e]\<rparr>
        in if is_draining st then put_instance i st d
           else
             put_instance i (st\<lparr>is_timer := Some (db_next d)\<rparr>)
               (d\<lparr>db_callbacks := (stop_timer fired (is_timer st) (db_callbacks d))(db_next d \<mapsto> (i, is_ver st)), db_next := db_next d + 1\<rparr>))"

definition beginPublish :: "string \<Rightarrow> 64 word \<Rightarrow> 'e debouncer \<Rightarrow> 'e debouncer \<times> 'e option" where
  "beginPublish i ver d =
     (if db_stopped d then (d, None)
      else case db_instances d i of
             None \<Rightarrow> (d, None)
           | Some st \<Rightarrow>
               if is_ver st \<noteq> ver \<or> is_draining st then (d, None)
               else (put_instance i (st\<lparr>is_timer := None, is_draining := True\<rparr>) (d\<lparr>db_wg := db_wg d + 1\<rparr>), Some (is_pending st)))"

definition runPublish :: "string \<Rightarrow> 64 word \<Rightarrow> 'e debouncer \<Rightarrow> 'e debouncer" where
  "runPublish i ver d =
     (case beginPublish i ver d of
        (d, None) \<Rightarrow> d
      | (d, Some e) \<Rightarrow> d\<lparr>db_running := db_running d @ [Publishing i ver e], db_log := db_log d @ [Published i e]\<rparr>)"

definition endPublish :: "string \<Rightarrow> 64 word \<Rightarrow> 'e debouncer \<Rightarrow> 'e debouncer" where
  "endPublish i publishedVer d =
     (let d = d\<lparr>db_wg := db_wg d - 1\<rparr>
      in case db_instances d i of
           None \<Rightarrow> d
         | Some st \<Rightarrow>
             if is_ver st > publishedVer then
               if db_stopped d then (delete_instance i d)\<lparr>db_running := db_running d @ [StopFlush i (is_pending st)]\<rparr>
               else (put_instance i (st\<lparr>is_draining := False\<rparr>) d)
                 \<lparr>db_running := (if is_ver st \<noteq> 0 then db_running d @ [FollowUp i (is_ver st)] else db_running d)\<rparr>
             else delete_instance i d)"

text \<open>The locked part of \<open>Stop\<close>; \<open>fired\<close> tells which timers had fired.\<close>

definition Stop :: "(nat \<Rightarrow> bool) \<Rightarrow> 'e debouncer \<Rightarrow> 'e debouncer" where
  "Stop fired d =
     (let idle = filter (\<lambda>i. case db_instances d i of Some st \<Rightarrow> \<not> is_draining st | None \<Rightarrow> False) (db_ids d);
          timers = List.map_filter (\<lambda>i. case db_instances d i of Some st \<Rightarrow> is_timer st | None \<Rightarrow> None) (db_ids d)
      in d\<lparr>db_stopped := True,
           db_callbacks := (\<lambda>a. if a \<in> set timers \<and> \<not> fired a then None else db_callbacks d a),
           db_instances := (\<lambda>i. case db_instances d i of Some st \<Rightarrow> if is_draining st then Some (st\<lparr>is_timer := None\<rparr>) else None | None \<Rightarrow> None),
           db_ids := filter (\<lambda>i. i \<notin> set idle) (db_ids d),
           db_stopper := Flushing (map (\<lambda>i. (i, is_pending (the (db_instances d i)))) idle)\<rparr>)"

section \<open>Interleavings\<close>

inductive deb_step :: "'e debouncer \<Rightarrow> 'e debouncer \<Rightarrow> bool" where
  submit: "deb_step d (Submit fired i e d)"
| fire: "db_callbacks d a = Some (i, ver) \<Longrightarrow> deb_step d (runPublish i ver (d\<lparr>db_callbacks := (db_callbacks d)(a := None)\<rparr>))"
| published: "db_running d = xs @ Publishing i ver e # ys \<Longrightarrow> deb_step d (endPublish i ver (d\<lparr>db_running := xs @ ys\<rparr>))"
| follow_up: "db_running d = xs @ FollowUp i ver # ys \<Longrightarrow> deb_step d (runPublish i ver (d\<lparr>db_running := xs @ ys\<rparr>))"
| flush: "db_running d = xs @ StopFlush i e # ys \<Longrightarrow>
    deb_step d (d\<lparr>db_running := xs @ StopFlushing i # ys, db_log := db_log d @ [Published i e]\<rparr>)"
| flushed: "db_running d = xs @ StopFlushing i # ys \<Longrightarrow> deb_step d (d\<lparr>db_running := xs @ ys\<rparr>)"
| stop: "db_stopper d = NotStopped \<Longrightarrow> deb_step d (Stop fired d)"
| stop_flush: "db_stopper d = Flushing ((i, e) # xs) \<Longrightarrow> deb_step d (d\<lparr>db_stopper := FlushCall i xs, db_log := db_log d @ [Published i e]\<rparr>)"
| stop_flushed: "db_stopper d = FlushCall i xs \<Longrightarrow> deb_step d (d\<lparr>db_stopper := Flushing xs\<rparr>)"
| stop_return: "db_stopper d = Flushing [] \<Longrightarrow> db_wg d = 0 \<Longrightarrow> deb_step d (d\<lparr>db_stopper := StopReturned\<rparr>)"

inductive deb_reach :: "'e debouncer \<Rightarrow> bool" where
  init: "deb_reach NewDebouncer"
| step: "deb_reach d \<Longrightarrow> deb_step d d' \<Longrightarrow> deb_reach d'"

section \<open>Views\<close>

text \<open>What concerns one instance: the events accepted and published, the publishes in progress, the flushes owed and in progress, and
  the tickets, callbacks or follow-ups that will publish the pending event.\<close>

fun acc_of :: "string \<Rightarrow> 'e deb_event \<Rightarrow> 'e list" where
  "acc_of i (Accepted j e) = (if j = i then [e] else [])"
| "acc_of i _ = []"

fun pubd_of :: "string \<Rightarrow> 'e deb_event \<Rightarrow> 'e list" where
  "pubd_of i (Published j e) = (if j = i then [e] else [])"
| "pubd_of i _ = []"

definition accepted :: "'e debouncer \<Rightarrow> string \<Rightarrow> 'e list" where
  "accepted d i = concat (map (acc_of i) (db_log d))"

definition published_events :: "'e debouncer \<Rightarrow> string \<Rightarrow> 'e list" where
  "published_events d i = concat (map (pubd_of i) (db_log d))"

fun publishing_of :: "string \<Rightarrow> 'e publisher \<Rightarrow> 64 word list" where
  "publishing_of i (Publishing j v e) = (if j = i then [v] else [])"
| "publishing_of i _ = []"

fun flush_of :: "string \<Rightarrow> 'e publisher \<Rightarrow> 'e list" where
  "flush_of i (StopFlush j e) = (if j = i then [e] else [])"
| "flush_of i _ = []"

fun flushing_of :: "string \<Rightarrow> 'e publisher \<Rightarrow> nat" where
  "flushing_of i (StopFlushing j) = (if j = i then 1 else 0)"
| "flushing_of i _ = 0"

fun stop_flush_of :: "string \<Rightarrow> 'e stopper \<Rightarrow> 'e list" where
  "stop_flush_of i (Flushing xs) = map snd (filter (\<lambda>x. fst x = i) xs)"
| "stop_flush_of i (FlushCall j xs) = map snd (filter (\<lambda>x. fst x = i) xs)"
| "stop_flush_of i _ = []"

fun stop_call_of :: "string \<Rightarrow> 'e stopper \<Rightarrow> nat" where
  "stop_call_of i (FlushCall j xs) = (if j = i then 1 else 0)"
| "stop_call_of i _ = 0"

definition publishing :: "'e debouncer \<Rightarrow> string \<Rightarrow> 64 word list" where
  "publishing d i = concat (map (publishing_of i) (db_running d))"

definition flush_owed :: "'e debouncer \<Rightarrow> string \<Rightarrow> 'e list" where
  "flush_owed d i = concat (map (flush_of i) (db_running d)) @ stop_flush_of i (db_stopper d)"

definition flush_calls :: "'e debouncer \<Rightarrow> string \<Rightarrow> nat" where
  "flush_calls d i = sum_list (map (flushing_of i) (db_running d)) + stop_call_of i (db_stopper d)"

definition ticket :: "'e debouncer \<Rightarrow> string \<Rightarrow> 64 word \<Rightarrow> bool" where
  "ticket d i v \<longleftrightarrow> (\<exists>a. db_callbacks d a = Some (i, v)) \<or> FollowUp i v \<in> set (db_running d)"

text \<open>The calls of \<open>publishFn\<close> in progress for an instance.\<close>

definition calls_in_progress :: "'e debouncer \<Rightarrow> string \<Rightarrow> nat" where
  "calls_in_progress d i = length (publishing d i) + flush_calls d i"

section \<open>Invariant\<close>

definition settled :: "'e list \<Rightarrow> 'e list \<Rightarrow> bool" where
  "settled A P \<longleftrightarrow> subseq P A \<and> (A = [] \<or> P \<noteq> [] \<and> last P = last A)"

definition owing :: "'e list \<Rightarrow> 'e list \<Rightarrow> bool" where
  "owing A P \<longleftrightarrow> A \<noteq> [] \<and> subseq P (butlast A)"

definition inst_ok :: "'e instance_state option \<Rightarrow> bool \<Rightarrow> 64 word list \<Rightarrow> 'e list \<Rightarrow> nat \<Rightarrow> (64 word \<Rightarrow> bool) \<Rightarrow> 'e list \<Rightarrow> 'e list \<Rightarrow> bool" where
  "inst_ok S stopped pl fl calls tick A P \<longleftrightarrow>
     (case S of
        Some st \<Rightarrow>
          fl = [] \<and> calls = 0 \<and> A \<noteq> [] \<and> is_pending st = last A \<and> 0 < unat (is_ver st) \<and> unat (is_ver st) \<le> length A \<and>
          (if is_draining st then length pl = 1 \<and> hd pl \<le> is_ver st \<and> (hd pl = is_ver st \<longrightarrow> settled A P) \<and> (hd pl \<noteq> is_ver st \<longrightarrow> owing A P)
           else \<not> stopped \<and> pl = [] \<and> tick (is_ver st) \<and> owing A P)
      | None \<Rightarrow>
          pl = [] \<and> length fl + calls \<le> 1 \<and> (fl \<noteq> [] \<or> 0 < calls \<longrightarrow> stopped) \<and>
          (case fl of [] \<Rightarrow> settled A P | e # _ \<Rightarrow> e = last A \<and> owing A P))"

abbreviation ok_at :: "'e debouncer \<Rightarrow> string \<Rightarrow> bool" where
  "ok_at d i \<equiv> inst_ok (db_instances d i) (db_stopped d) (publishing d i) (flush_owed d i) (flush_calls d i) (ticket d i) (accepted d i) (published_events d i)"

definition deb_wf :: "'e debouncer \<Rightarrow> bool" where
  "deb_wf d \<longleftrightarrow> (db_stopped d \<longleftrightarrow> db_stopper d \<noteq> NotStopped) \<and> set (db_ids d) = dom (db_instances d) \<and> distinct (db_ids d) \<and>
     (\<forall>a. db_callbacks d a \<noteq> None \<longrightarrow> a < db_next d) \<and>
     (\<forall>i st a. db_instances d i = Some st \<longrightarrow> is_timer st = Some a \<longrightarrow> a < db_next d \<and> (\<forall>j v. db_callbacks d a = Some (j, v) \<longrightarrow> j = i))"

definition bounded :: "'e debouncer \<Rightarrow> bool" where
  "bounded d \<longleftrightarrow> (\<forall>i. length (accepted d i) < 2 ^ 64)"

lemmas view_defs = accepted_def published_events_def publishing_def flush_owed_def flush_calls_def ticket_def

lemma settled_snoc: "settled (A @ [e]) (P @ [e]) \<longleftrightarrow> subseq P A"
  by (auto simp: settled_def)

lemma owing_snoc [simp]: "owing (A @ [e]) P \<longleftrightarrow> subseq P A"
  by (simp add: owing_def)

lemma owing_pays: "owing A P \<Longrightarrow> settled A (P @ [last A])"
  by (cases A rule: rev_cases) (auto simp: owing_def settled_def)

lemma settled_subseq: "settled A P \<Longrightarrow> subseq P A"
  by (simp add: settled_def)

lemma owing_subseq: "owing A P \<Longrightarrow> subseq P A"
  unfolding owing_def by (metis append_butlast_last_id subseq_rev_drop_many list_emb_append2)

lemma inst_ok_tick:
  assumes "inst_ok S stopped pl fl calls tick A P" "\<And>st. S = Some st \<Longrightarrow> \<not> is_draining st \<Longrightarrow> tick (is_ver st) \<Longrightarrow> tick' (is_ver st)"
  shows "inst_ok S stopped pl fl calls tick' A P"
  using assms by (auto simp: inst_ok_def split: option.splits if_splits)

lemma put_instance_views [simp]:
  "db_instances (put_instance i st d) = (db_instances d)(i \<mapsto> st)" "db_stopped (put_instance i st d) = db_stopped d"
  "db_running (put_instance i st d) = db_running d" "db_stopper (put_instance i st d) = db_stopper d"
  "db_callbacks (put_instance i st d) = db_callbacks d" "db_log (put_instance i st d) = db_log d" "db_next (put_instance i st d) = db_next d"
  "db_wg (put_instance i st d) = db_wg d" "set (db_ids (put_instance i st d)) = insert i (set (db_ids d))"
  "distinct (db_ids d) \<Longrightarrow> distinct (db_ids (put_instance i st d))"
  by (auto simp: put_instance_def)

lemma delete_instance_views [simp]:
  "db_instances (delete_instance i d) = (db_instances d)(i := None)" "db_stopped (delete_instance i d) = db_stopped d"
  "db_running (delete_instance i d) = db_running d" "db_stopper (delete_instance i d) = db_stopper d"
  "db_callbacks (delete_instance i d) = db_callbacks d" "db_log (delete_instance i d) = db_log d" "db_next (delete_instance i d) = db_next d"
  "db_wg (delete_instance i d) = db_wg d" "set (db_ids (delete_instance i d)) = set (db_ids d) - {i}"
  "distinct (db_ids d) \<Longrightarrow> distinct (db_ids (delete_instance i d))"
  by (auto simp: delete_instance_def distinct_removeAll)

subsection \<open>Submit\<close>

lemma stop_timer_some: "stop_timer fired tm cb a = Some x \<Longrightarrow> cb a = Some x"
  by (auto simp: stop_timer_def split: option.splits if_splits)

lemma stop_timer_other: "tm \<noteq> Some a \<Longrightarrow> stop_timer fired tm cb a = cb a"
  by (auto simp: stop_timer_def split: option.splits)

lemma Submit_wf: "deb_wf d \<Longrightarrow> deb_wf (Submit fired i e d)"
proof -
  assume wf: "deb_wf d"
  define st where "st = get_or_new d i e"
  have timer: "is_timer st = Some a \<Longrightarrow> \<exists>st. db_instances d i = Some st \<and> is_timer st = Some a" for a
    by (auto simp: st_def get_or_new_def split: option.splits)
  have cb: "stop_timer fired (is_timer st) (db_callbacks d) a = Some x \<Longrightarrow> db_callbacks d a = Some x" for a x by (rule stop_timer_some)
  show ?thesis
  proof (cases "db_stopped d \<or> is_draining st")
    case True
    then show ?thesis using wf timer by (auto simp: Submit_def deb_wf_def Let_def st_def [symmetric] split: if_splits)
  next
    case False
    then show ?thesis using wf cb
      by (fastforce simp: Submit_def deb_wf_def Let_def st_def [symmetric] dest: less_SucI split: if_splits)
  qed
qed

lemma Submit_ok:
  assumes wf: "deb_wf d" and ok: "ok_at d j" and bd: "bounded (Submit fired i e d)"
  shows "ok_at (Submit fired i e d) j"
proof (cases "db_stopped d")
  case True
  then show ?thesis using ok by (simp add: Submit_def)
next
  case run: False
  define st where "st = get_or_new d i e"
  define d' where "d' = Submit fired i e d"
  have views: "publishing d' j = publishing d j" "flush_owed d' j = flush_owed d j" "flush_calls d' j = flush_calls d j"
    "published_events d' j = published_events d j" "accepted d' j = accepted d j @ (if i = j then [e] else [])" "db_stopped d' = db_stopped d"
    using run by (auto simp: d'_def Submit_def Let_def view_defs)
  have inst: "db_instances d' j = (if i = j then Some (if is_draining st then st else st\<lparr>is_timer := Some (db_next d)\<rparr>) else db_instances d j)"
    using run by (auto simp: d'_def Submit_def Let_def st_def)
  have "ok_at d' j"
  proof (cases "i = j")
    case False
    have "ticket d' j v" if t: "ticket d j v" for v
    proof -
      have "stop_timer fired (is_timer st) (db_callbacks d) a = Some (j, v) \<and> a \<noteq> db_next d" if "db_callbacks d a = Some (j, v)" for a
      proof -
        have "is_timer st \<noteq> Some a"
        proof
          assume "is_timer st = Some a"
          then obtain st' where "db_instances d i = Some st'" "is_timer st' = Some a" by (auto simp: st_def get_or_new_def split: option.splits)
          then show False using wf False that unfolding deb_wf_def by blast
        qed
        moreover have "a < db_next d" using wf that unfolding deb_wf_def by auto
        ultimately show ?thesis using that by (simp add: stop_timer_other)
      qed
      then show ?thesis using t run by (auto simp: d'_def Submit_def Let_def st_def [symmetric] ticket_def)
    qed
    then show ?thesis using ok False by (auto simp: views inst intro: inst_ok_tick)
  next
    case True
    have "length (accepted d' j) < 2 ^ 64" using bd unfolding bounded_def d'_def by blast
    then have len: "length (accepted d j) < 2 ^ 64 - 1" using True views(5) by simp
    have "\<not> is_draining st \<Longrightarrow> ticket d' i (is_ver st)"
      using run by (auto simp: d'_def Submit_def Let_def st_def [symmetric] ticket_def)
    then have tick: "\<not> is_draining st \<Longrightarrow> ticket d' j (is_ver st)" using True by simp
    show ?thesis
    proof (cases "db_instances d j")
      case None
      then have st: "st = \<lparr>is_timer = None, is_pending = e, is_ver = 1, is_draining = False\<rparr>" using True by (simp add: st_def get_or_new_def)
      have "flush_owed d j = []" "flush_calls d j = 0" "publishing d j = []" "settled (accepted d j) (published_events d j)"
        using ok None run by (auto simp: inst_ok_def split: list.splits)
      then show ?thesis using True run tick by (simp add: views inst inst_ok_def st settled_subseq)
    next
      case (Some s0)
      then have st: "st = s0\<lparr>is_pending := e, is_ver := is_ver s0 + 1\<rparr>" using True by (simp add: st_def get_or_new_def)
      have le: "unat (is_ver s0) \<le> length (accepted d j)" using ok Some by (simp add: inst_ok_def)
      then have ver: "unat (is_ver s0 + 1) = unat (is_ver s0) + 1" using len by (simp add: unat_word_ariths)
      have new: "v \<le> is_ver s0 \<Longrightarrow> v \<noteq> is_ver s0 + 1 \<and> v \<le> is_ver s0 + 1" for v using ver by (auto simp: word_le_nat_alt)
      show ?thesis using ok Some True run tick le ver new
        by (auto simp: views inst inst_ok_def st settled_subseq owing_subseq split: if_splits)
    qed
  qed
  then show ?thesis by (simp add: d'_def)
qed

subsection \<open>Publishing\<close>

lemma publishing_list:
  "publishing (d\<lparr>db_running := xs\<rparr>) i = concat (map (publishing_of i) xs)" by (simp add: publishing_def)

text \<open>A step that drops one ticket and changes nothing else keeps what the pending events need, if that ticket is superseded.\<close>

lemma runPublish_ok:
  assumes ok: "ok_at d j" and views: "\<And>i. publishing d0 i = publishing d i" "\<And>i. flush_owed d0 i = flush_owed d i" "\<And>i. flush_calls d0 i = flush_calls d i"
      "db_instances d0 = db_instances d" "db_stopped d0 = db_stopped d" "db_log d0 = db_log d"
    and tick: "\<And>k v. ticket d k v \<Longrightarrow> (k, v) \<noteq> (i, ver) \<Longrightarrow> ticket d0 k v"
  shows "ok_at (runPublish i ver d0) j"
proof (cases "db_stopped d \<or> (\<forall>st. db_instances d i = Some st \<longrightarrow> is_ver st \<noteq> ver \<or> is_draining st)")
  case True
  then have same: "runPublish i ver d0 = d0" using views(4,5) by (auto simp: runPublish_def beginPublish_def split: option.splits)
  have log: "accepted d0 j = accepted d j" "published_events d0 j = published_events d j" using views(6) by (simp_all add: view_defs)
  have "ok_at d0 j" unfolding views log
  proof (rule inst_ok_tick [OF ok])
    fix st assume st: "db_instances d j = Some st" "\<not> is_draining st" "ticket d j (is_ver st)"
    have "\<not> db_stopped d" using ok st by (simp add: inst_ok_def)
    then show "ticket d0 j (is_ver st)" using st True by (intro tick) auto
  qed
  then show ?thesis by (simp add: same)
next
  case False
  then obtain st where st: "db_instances d i = Some st" "is_ver st = ver" "\<not> is_draining st" and run: "\<not> db_stopped d" by blast
  define d1 where "d1 = runPublish i ver d0"
  have d1: "d1 = (put_instance i (st\<lparr>is_timer := None, is_draining := True\<rparr>) (d0\<lparr>db_wg := db_wg d0 + 1\<rparr>))
      \<lparr>db_running := db_running d0 @ [Publishing i ver (is_pending st)], db_log := db_log d0 @ [Published i (is_pending st)]\<rparr>"
    using st run views(4,5) by (simp add: d1_def runPublish_def beginPublish_def)
  have new: "publishing d1 j = publishing d j @ (if i = j then [ver] else [])" "flush_owed d1 j = flush_owed d j" "flush_calls d1 j = flush_calls d j"
    "accepted d1 j = accepted d j" "published_events d1 j = published_events d j @ (if i = j then [is_pending st] else [])"
    using views(1) [of j, symmetric] views(2) [of j, symmetric] views(3) [of j, symmetric] views(6) by (simp_all add: d1 view_defs)
  have inst: "db_instances d1 j = (if i = j then Some (st\<lparr>is_timer := None, is_draining := True\<rparr>) else db_instances d j)" "db_stopped d1 = db_stopped d"
    using views(4,5) by (simp_all add: d1)
  have "ok_at d1 j"
  proof (cases "i = j")
    case True
    then show ?thesis using ok st run owing_pays [of "accepted d j" "published_events d j"] by (auto simp: new inst inst_ok_def)
  next
    case False
    have "ticket d1 j v" if "ticket d j v" for v
    proof -
      have "ticket d0 j v" using tick that False by blast
      then show ?thesis by (auto simp: d1 ticket_def)
    qed
    then show ?thesis using ok False by (simp add: new inst inst_ok_tick)
  qed
  then show ?thesis by (simp add: d1_def)
qed

lemma endPublish_ok:
  assumes ok: "ok_at d j" and oki: "ok_at d i" and run: "db_running d = xs @ Publishing i ver e # ys"
  shows "ok_at (endPublish i ver (d\<lparr>db_running := xs @ ys\<rparr>)) j"
proof -
  define d1 where "d1 = endPublish i ver (d\<lparr>db_running := xs @ ys\<rparr>)"
  have "publishing d i \<noteq> []" using run by (simp add: publishing_def)
  then obtain st where s0: "db_instances d i = Some st" "is_draining st" "length (publishing d i) = 1" "hd (publishing d i) \<le> is_ver st" "0 < unat (is_ver st)"
    "hd (publishing d i) = is_ver st \<longrightarrow> settled (accepted d i) (published_events d i)"
    "hd (publishing d i) \<noteq> is_ver st \<longrightarrow> owing (accepted d i) (published_events d i)"
    using oki by (auto simp: inst_ok_def split: option.splits if_splits)
  have "ver \<in> set (publishing d i)" using run by (simp add: publishing_def)
  then have p: "publishing d i = [ver]" using s0(3) by (cases "publishing d i") auto
  note st = s0 [unfolded p]
  have nz: "is_ver st \<noteq> 0" using st(5) by auto
  have gt: "ver < is_ver st \<longleftrightarrow> ver \<noteq> is_ver st" using st(4) by auto
  have run1: "db_running d1 = xs @ ys @ (if ver = is_ver st then [] else if db_stopped d then [StopFlush i (is_pending st)] else [FollowUp i (is_ver st)])"
    and inst: "db_instances d1 = (db_instances d)(i := if ver = is_ver st \<or> db_stopped d then None else Some (st\<lparr>is_draining := False\<rparr>))"
    and rest: "db_stopped d1 = db_stopped d" "db_log d1 = db_log d" "db_callbacks d1 = db_callbacks d" "db_stopper d1 = db_stopper d"
    using st(1) nz gt by (auto simp: d1_def endPublish_def Let_def)
  have log: "accepted d1 j = accepted d j" "published_events d1 j = published_events d j" using rest by (simp_all add: view_defs)
  have "ok_at d1 j"
  proof (cases "i = j")
    case True
    have "length (concat (map (publishing_of i) xs)) + length (concat (map (publishing_of i) ys)) = 0"
      using arg_cong [OF p, of length] run by (simp add: publishing_def)
    then have "publishing d1 i = []" using run1 by (simp add: publishing_def del: concat_eq_Nil_conv)
    moreover have "flush_calls d1 i = 0" using oki st(1) run run1 rest by (auto simp: inst_ok_def flush_calls_def)
    moreover have "flush_owed d1 i = (if ver \<noteq> is_ver st \<and> db_stopped d then [is_pending st] else [])"
      using oki st(1) run run1 rest by (auto simp: inst_ok_def flush_owed_def)
    moreover have "ver \<noteq> is_ver st \<Longrightarrow> \<not> db_stopped d \<Longrightarrow> ticket d1 i (is_ver st)" using run1 by (simp add: ticket_def)
    ultimately show ?thesis using True oki st p log by (auto simp: inst rest inst_ok_def split: if_splits)
  next
    case False
    have "publishing d1 j = publishing d j" "flush_calls d1 j = flush_calls d j" "flush_owed d1 j = flush_owed d j"
      using False run run1 rest by (auto simp: publishing_def flush_calls_def flush_owed_def)
    moreover have "ticket d j v \<Longrightarrow> ticket d1 j v" for v using run run1 rest by (auto simp: ticket_def)
    ultimately show ?thesis using ok False by (simp add: inst rest log inst_ok_tick)
  qed
  then show ?thesis by (simp add: d1_def)
qed

subsection \<open>Stop\<close>

lemma Stop_ok:
  assumes wf: "deb_wf d" and ok: "ok_at d j" and go: "db_stopper d = NotStopped"
  shows "ok_at (Stop fired d) j"
proof -
  define d1 where "d1 = Stop fired d"
  have run: "\<not> db_stopped d" using wf go by (simp add: deb_wf_def)
  have inst: "db_instances d1 j = (case db_instances d j of Some st \<Rightarrow> if is_draining st then Some (st\<lparr>is_timer := None\<rparr>) else None | None \<Rightarrow> None)"
    and rest: "db_running d1 = db_running d" "db_log d1 = db_log d" "db_stopped d1"
    by (simp_all add: d1_def Stop_def Let_def)
  have views: "publishing d1 j = publishing d j" "accepted d1 j = accepted d j" "published_events d1 j = published_events d j"
    using rest by (simp_all add: view_defs)
  have calls: "flush_calls d1 j = flush_calls d j" using go by (simp add: flush_calls_def d1_def Stop_def Let_def)
  have ids: "distinct (db_ids d)" "j \<in> set (db_ids d) \<longleftrightarrow> db_instances d j \<noteq> None" using wf by (auto simp: deb_wf_def)
  have pick: "map snd (filter (\<lambda>x. fst x = j) (map (\<lambda>i. (i, f i)) xs)) = (if j \<in> set xs then [f j] else [])" if "distinct xs" for f :: "string \<Rightarrow> 'a" and xs
    using that by (induction xs) auto
  have owed: "flush_owed d1 j = flush_owed d j @ (case db_instances d j of Some st \<Rightarrow> if is_draining st then [] else [is_pending st] | None \<Rightarrow> [])"
    using go ids by (auto simp: flush_owed_def d1_def Stop_def Let_def pick split: option.splits)
  have "ok_at d1 j"
    using ok run by (auto simp: inst views calls owed rest inst_ok_def split: option.splits list.splits if_splits)
  then show ?thesis by (simp add: d1_def)
qed

lemma Stop_wf: "deb_wf d \<Longrightarrow> deb_wf (Stop fired d)"
  by (auto simp: deb_wf_def Stop_def Let_def split: option.splits if_splits)

lemma runPublish_wf: "deb_wf d \<Longrightarrow> deb_wf (runPublish i ver d)"
  by (auto simp: deb_wf_def runPublish_def beginPublish_def split: option.splits if_splits)

lemma endPublish_wf: "deb_wf d \<Longrightarrow> deb_wf (endPublish i ver d)"
  by (auto simp: deb_wf_def endPublish_def Let_def split: option.splits if_splits)

subsection \<open>All steps\<close>

fun is_publishing :: "'e publisher \<Rightarrow> bool" where
  "is_publishing (Publishing i v e) = True"
| "is_publishing _ = False"

definition deb_inv :: "'e debouncer \<Rightarrow> bool" where
  "deb_inv d \<longleftrightarrow> deb_wf d \<and> (\<forall>i. ok_at d i) \<and> db_wg d = int (length (filter is_publishing (db_running d)))"

lemma deb_inv_wg: "deb_inv d \<Longrightarrow> db_wg d = int (length (filter is_publishing (db_running d)))"
  by (simp add: deb_inv_def)

lemma runPublish_wg: "db_wg d = int (length (filter is_publishing (db_running d))) \<Longrightarrow>
  db_wg (runPublish i v d) = int (length (filter is_publishing (db_running (runPublish i v d))))"
  by (auto simp: runPublish_def beginPublish_def split: option.splits if_splits)

lemma endPublish_wg: "db_wg d = 1 + int (length (filter is_publishing (db_running d))) \<Longrightarrow>
  db_wg (endPublish i v d) = int (length (filter is_publishing (db_running (endPublish i v d))))"
  by (auto simp: endPublish_def Let_def split: option.splits if_splits)

lemma ok_flush_start:
  assumes "ok_at d j" "flush_owed d j = e # fl" "publishing d' j = publishing d j" "db_instances d' j = db_instances d j" "db_stopped d' = db_stopped d"
    "accepted d' j = accepted d j" "published_events d' j = published_events d j @ [e]" "flush_owed d' j = fl" "flush_calls d' j = Suc (flush_calls d j)"
  shows "ok_at d' j"
  using assms owing_pays [of "accepted d j" "published_events d j"] by (auto simp: inst_ok_def split: option.splits list.splits)

lemma ok_flush_end:
  assumes "ok_at d j" "flush_calls d j = Suc (flush_calls d' j)" "publishing d' j = publishing d j" "db_instances d' j = db_instances d j"
    "db_stopped d' = db_stopped d" "accepted d' j = accepted d j" "published_events d' j = published_events d j" "flush_owed d' j = flush_owed d j"
  shows "ok_at d' j"
  using assms by (auto simp: inst_ok_def split: option.splits)

lemma ok_flush_single: "ok_at d j \<Longrightarrow> flush_owed d j = as @ e # bs \<Longrightarrow> flush_owed d j = [e]"
  by (auto simp: inst_ok_def simp del: concat_eq_Nil_conv split: option.splits)

lemma flush_ok:
  assumes "ok_at d j"
  shows "db_running d = xs @ StopFlush i e # ys \<Longrightarrow> ok_at (d\<lparr>db_running := xs @ StopFlushing i # ys, db_log := db_log d @ [Published i e]\<rparr>) j"
    "db_stopper d = Flushing ((i, e) # zs) \<Longrightarrow> ok_at (d\<lparr>db_stopper := FlushCall i zs, db_log := db_log d @ [Published i e]\<rparr>) j"
proof -
  assume run: "db_running d = xs @ StopFlush i e # ys"
  show "ok_at (d\<lparr>db_running := xs @ StopFlushing i # ys, db_log := db_log d @ [Published i e]\<rparr>) j"
  proof (cases "i = j")
    case True
    have "flush_owed d j = concat (map (flush_of i) xs) @ e # (concat (map (flush_of i) ys) @ stop_flush_of i (db_stopper d))"
      using run True by (simp add: flush_owed_def)
    note single = ok_flush_single [OF assms this]
    have "length (concat (map (flush_of i) xs)) + length (concat (map (flush_of i) ys) @ stop_flush_of i (db_stopper d)) = 0"
      using arg_cong [OF single, of length] run True by (simp add: flush_owed_def)
    then show ?thesis using run True
      by (intro ok_flush_start [OF assms single]) (simp_all add: view_defs del: concat_eq_Nil_conv)
  qed (use assms run in \<open>auto simp: view_defs elim: inst_ok_tick\<close>)
next
  assume run: "db_stopper d = Flushing ((i, e) # zs)"
  show "ok_at (d\<lparr>db_stopper := FlushCall i zs, db_log := db_log d @ [Published i e]\<rparr>) j"
  proof (cases "i = j")
    case True
    have "flush_owed d j = concat (map (flush_of i) (db_running d)) @ e # map snd (filter (\<lambda>x. fst x = i) zs)"
      using run True by (simp add: flush_owed_def)
    note single = ok_flush_single [OF assms this]
    have "length (concat (map (flush_of i) (db_running d))) + length (map snd (filter (\<lambda>x. fst x = i) zs)) = 0"
      using arg_cong [OF single, of length] run True by (simp add: flush_owed_def)
    then show ?thesis using run True
      by (intro ok_flush_start [OF assms single]) (simp_all add: view_defs del: concat_eq_Nil_conv)
  qed (use assms run in \<open>auto simp: view_defs elim: inst_ok_tick\<close>)
qed

lemma ticket_drop:
  assumes "db_callbacks d a = Some (i, ver)" "ticket d k v" "(k, v) \<noteq> (i, ver)"
  shows "ticket (d\<lparr>db_callbacks := (db_callbacks d)(a := None)\<rparr>) k v"
proof (cases "FollowUp k v \<in> set (db_running d)")
  case False
  then obtain b where b: "db_callbacks d b = Some (k, v)" using assms(2) by (auto simp: ticket_def)
  then have "b \<noteq> a" using assms(1,3) by auto
  then show ?thesis using b unfolding ticket_def by (intro disjI1 exI [where x = b]) simp
qed (simp add: ticket_def)

lemma deb_step_inv:
  assumes "deb_step d d'" "deb_inv d" "bounded d'"
  shows "deb_inv d'"
proof -
  have wf: "deb_wf d" and ok: "ok_at d j" and wg: "db_wg d = int (length (filter is_publishing (db_running d)))" for j
    using assms(2) by (auto simp: deb_inv_def)
  show ?thesis using assms(1)
  proof cases
    case (submit fired i e)
    have "db_wg d' = db_wg d" "db_running d' = db_running d" by (simp_all add: submit Submit_def Let_def)
    then show ?thesis using Submit_wf [OF wf] Submit_ok [OF wf ok] wg assms(3) by (simp add: deb_inv_def submit)
  next
    case (fire a i ver)
    let ?d = "d\<lparr>db_callbacks := (db_callbacks d)(a := None)\<rparr>"
    have "ok_at (runPublish i ver ?d) j" for j
      using ticket_drop [OF fire(2)] by (intro runPublish_ok [OF ok]) (auto simp: view_defs)
    moreover have "deb_wf ?d" using wf by (auto simp: deb_wf_def)
    ultimately show ?thesis using wg unfolding deb_inv_def fire(1) by (simp add: runPublish_wf runPublish_wg)
  next
    case (published xs i ver e ys)
    let ?d = "d\<lparr>db_running := xs @ ys\<rparr>"
    have "deb_wf ?d" using wf by (auto simp: deb_wf_def)
    then show ?thesis using endPublish_ok [OF ok ok published(2)] wg published(2)
      unfolding deb_inv_def published(1) by (simp add: endPublish_wf endPublish_wg)
  next
    case (follow_up xs i ver ys)
    let ?d = "d\<lparr>db_running := xs @ ys\<rparr>"
    have "ok_at (runPublish i ver ?d) j" for j
      using follow_up(2) by (intro runPublish_ok [OF ok]) (auto simp: view_defs)
    moreover have "deb_wf ?d" using wf by (auto simp: deb_wf_def)
    ultimately show ?thesis using wg follow_up(2) unfolding deb_inv_def follow_up(1) by (simp add: runPublish_wf runPublish_wg)
  next
    case (flush xs i e ys)
    have "ok_at d' j" for j unfolding flush(1) by (rule flush_ok(1) [OF ok flush(2)])
    then show ?thesis using wf wg flush by (auto simp: deb_inv_def deb_wf_def)
  next
    case (flushed xs i ys)
    have "ok_at d' j" for j
    proof (cases "i = j")
      case True
      then show ?thesis using flushed by (intro ok_flush_end [OF ok]) (simp_all add: view_defs)
    qed (use ok [of j] flushed in \<open>auto simp: view_defs elim: inst_ok_tick\<close>)
    then show ?thesis using wf wg flushed by (auto simp: deb_inv_def deb_wf_def)
  next
    case (stop fired)
    have "db_wg d' = db_wg d" "db_running d' = db_running d" by (simp_all add: stop Stop_def Let_def)
    then show ?thesis using Stop_wf [OF wf] Stop_ok [OF wf ok stop(2)] wg by (simp add: deb_inv_def stop)
  next
    case (stop_flush i e xs)
    have "ok_at d' j" for j unfolding stop_flush(1) by (rule flush_ok(2) [OF ok stop_flush(2)])
    then show ?thesis using wf wg stop_flush by (auto simp: deb_inv_def deb_wf_def)
  next
    case (stop_flushed i xs)
    have "ok_at d' j" for j
    proof (cases "i = j")
      case True
      then show ?thesis using stop_flushed by (intro ok_flush_end [OF ok]) (simp_all add: view_defs)
    qed (use ok [of j] stop_flushed in \<open>auto simp: view_defs elim: inst_ok_tick\<close>)
    then show ?thesis using wf wg stop_flushed by (auto simp: deb_inv_def deb_wf_def)
  next
    case stop_return
    have "ok_at d' j" for j using ok [of j] stop_return by (auto simp: view_defs elim: inst_ok_tick)
    then show ?thesis using wf wg stop_return by (auto simp: deb_inv_def deb_wf_def)
  qed
qed

lemma log_grows: "deb_step d d' \<Longrightarrow> \<exists>l. db_log d' = db_log d @ l"
  by (induction rule: deb_step.induct)
    (auto simp: Submit_def runPublish_def beginPublish_def endPublish_def Stop_def Let_def split: option.splits)

lemma bounded_back: "deb_step d d' \<Longrightarrow> bounded d' \<Longrightarrow> bounded d"
  unfolding bounded_def by (auto simp: accepted_def dest!: log_grows) (metis add_lessD1)

lemma reach_deb_inv: "deb_reach d \<Longrightarrow> bounded d \<Longrightarrow> deb_inv d"
proof (induction rule: deb_reach.induct)
  case init
  show ?case by (simp add: deb_inv_def deb_wf_def NewDebouncer_def view_defs inst_ok_def settled_def)
next
  case (step d d')
  then show ?case using deb_step_inv bounded_back by blast
qed

section \<open>Properties\<close>

lemma debouncer_outcome:
  assumes "deb_reach d" "bounded d"
  shows "subseq (published_events d i) (accepted d i) \<and> calls_in_progress d i \<le> 1 \<and>
    (db_callbacks d = Map.empty \<and> db_running d = [] \<and> db_stopper d \<in> {NotStopped, StopReturned} \<and> accepted d i \<noteq> [] \<longrightarrow>
       published_events d i \<noteq> [] \<and> last (published_events d i) = last (accepted d i))"
proof -
  have ok: "ok_at d i" using reach_deb_inv [OF assms] by (simp add: deb_inv_def)
  then have "subseq (published_events d i) (accepted d i)"
    by (auto simp: inst_ok_def intro: settled_subseq owing_subseq split: option.splits if_splits list.splits)
  moreover have "calls_in_progress d i \<le> 1"
    using ok by (auto simp: inst_ok_def calls_in_progress_def split: option.splits if_splits)
  moreover have "published_events d i \<noteq> [] \<and> last (published_events d i) = last (accepted d i)"
    if idle: "db_callbacks d = Map.empty" "db_running d = []" "db_stopper d \<in> {NotStopped, StopReturned}" "accepted d i \<noteq> []"
  proof -
    have "publishing d i = []" "flush_owed d i = []" "\<not> ticket d i v" for v using idle by (auto simp: view_defs)
    then have "settled (accepted d i) (published_events d i)" using ok by (auto simp: inst_ok_def split: option.splits if_splits)
    then show ?thesis using idle(4) by (simp add: settled_def)
  qed
  ultimately show ?thesis by blast
qed

text \<open>C31: the debouncer is faithful.  However submissions, timers that fire early or late, slow publishes and \<open>Stop\<close> interleave, the events
  published for an instance are a subsequence of those submitted for it, in that order and none twice; at most one publish is in progress
  per instance; and when nothing is left to run the last submitted event is the last published one, also after \<open>Stop\<close>.  (The version
  counter must not wrap, which takes \<open>2^64\<close> submissions for one instance.)\<close>

theorem debouncer_faithful:
  assumes "deb_reach d" "bounded d"
  shows "subseq (published_events d i) (accepted d i) \<and> calls_in_progress d i \<le> 1 \<and>
    (db_callbacks d = Map.empty \<and> db_running d = [] \<and> db_stopper d \<in> {NotStopped, StopReturned} \<and> accepted d i \<noteq> [] \<longrightarrow>
       published_events d i \<noteq> [] \<and> last (published_events d i) = last (accepted d i))"
  by (rule debouncer_outcome [OF assms])

section \<open>Sample runs\<close>

definition sample_submits :: "nat debouncer" where
  "sample_submits = Submit False ''net-1'' 2 (Submit False ''net-1'' 1 NewDebouncer)"

definition sample_publish :: "nat debouncer" where
  "sample_publish = runPublish ''net-1'' 2 (sample_submits\<lparr>db_callbacks := (db_callbacks sample_submits)(1 := None)\<rparr>)"

lemmas sample_deb_defs = sample_submits_def sample_publish_def Submit_def NewDebouncer_def get_or_new_def put_instance_def delete_instance_def
  stop_timer_def runPublish_def beginPublish_def endPublish_def Stop_def Let_def

lemma sample_publish_reach: "deb_reach sample_publish"
proof -
  have "deb_reach sample_submits" unfolding sample_submits_def
    by (rule deb_reach.step [OF deb_reach.step [OF deb_reach.init deb_step.submit] deb_step.submit])
  moreover have "db_callbacks sample_submits 1 = Some (''net-1'', 2)" by (simp add: sample_deb_defs)
  ultimately show ?thesis unfolding sample_publish_def by (rule deb_reach.step [OF _ deb_step.fire])
qed

lemma sample_publish_state:
  "db_running sample_publish = [] @ Publishing ''net-1'' 2 2 # []" "db_log sample_publish = [Accepted ''net-1'' 1, Accepted ''net-1'' 2, Published ''net-1'' 2]"
  by (simp_all add: sample_deb_defs)

theorem debouncer_faithful_witness:
  "\<exists>d :: nat debouncer. deb_reach d \<and> accepted d ''net-1'' = [1, 2] \<and> published_events d ''net-1'' = [2] \<and> db_running d = [] \<and> db_callbacks d = Map.empty \<and>
     subseq (published_events d ''net-1'') (accepted d ''net-1'') \<and> last (published_events d ''net-1'') = last (accepted d ''net-1'')"
proof -
  define d where "d = endPublish ''net-1'' 2 (sample_publish\<lparr>db_running := [] @ []\<rparr>)"
  have r: "deb_reach d" unfolding d_def by (rule deb_reach.step [OF sample_publish_reach deb_step.published [OF sample_publish_state(1)]])
  have l: "db_log d = [Accepted ''net-1'' 1, Accepted ''net-1'' 2, Published ''net-1'' 2]" "db_running d = []" "db_callbacks d = Map.empty" "db_stopper d = NotStopped"
    by (simp_all add: d_def sample_deb_defs fun_eq_iff)
  have "bounded d" by (simp add: bounded_def accepted_def l)
  then show ?thesis using r l debouncer_faithful [OF r, of "''net-1''"] by (intro exI [where x = d]) (simp add: accepted_def published_events_def)
qed

text \<open>\<open>Stop\<close> does not wait for the event that was submitted during a publish: \<open>endPublish\<close> leaves the wait group before it publishes that
  event, so \<open>Stop\<close> can return first.\<close>

lemma Stop_returns_before_flush:
  "\<exists>d :: nat debouncer. deb_reach d \<and> db_stopper d = StopReturned \<and> db_running d = [StopFlush ''net-1'' 3] \<and>
     accepted d ''net-1'' = [1, 2, 3] \<and> published_events d ''net-1'' = [2]"
proof -
  define d1 where "d1 = Submit False ''net-1'' 3 sample_publish"
  define d2 where "d2 = Stop (\<lambda>_. False) d1"
  define d3 where "d3 = endPublish ''net-1'' 2 (d2\<lparr>db_running := [] @ []\<rparr>)"
  define d4 where "d4 = d3\<lparr>db_stopper := StopReturned\<rparr>"
  have "deb_reach d1" unfolding d1_def by (rule deb_reach.step [OF sample_publish_reach deb_step.submit])
  moreover have "db_stopper d1 = NotStopped" by (simp add: d1_def sample_deb_defs)
  ultimately have "deb_reach d2" unfolding d2_def by (rule deb_reach.step [OF _ deb_step.stop])
  moreover have "db_running d2 = [] @ Publishing ''net-1'' 2 2 # []" by (simp add: d2_def d1_def sample_deb_defs)
  ultimately have r3: "deb_reach d3" unfolding d3_def by (rule deb_reach.step [OF _ deb_step.published])
  have d3: "db_stopper d3 = Flushing []" "db_wg d3 = 0" "db_running d3 = [StopFlush ''net-1'' 3]"
    "db_log d3 = [Accepted ''net-1'' 1, Accepted ''net-1'' 2, Published ''net-1'' 2, Accepted ''net-1'' 3]"
    by (simp_all add: d3_def d2_def d1_def sample_deb_defs)
  have "deb_reach d4" unfolding d4_def by (rule deb_reach.step [OF r3 deb_step.stop_return [OF d3(1,2)]])
  then show ?thesis using d3 by (intro exI [where x = d4]) (simp add: d4_def accepted_def published_events_def)
qed

end
