(* ===== verification/Workload_Status.thy ===== *)
theory Workload_Status
  imports Network_Provider Storage_Provider Container_Provider Status_Debouncer
begin

text \<open>
  The status monitors of the embedded providers (\<open>openshift/{network,storage,container}/monitoring\<close>): how the state of
  the watched objects becomes a status event, which events are submitted, how a publish is retried, and, for the
  network and storage monitors, how informer callbacks, the debouncer of \<open>Status_Debouncer\<close> and publishing interleave.
  The informers (client-go) are not part of the repository: a notice is one call of an event handler, with the
  object it is given and the cache content it reads.
\<close>

section \<open>Events\<close>

record status_event =
  se_InstanceID :: string
  se_Status :: string
  se_Message :: string

definition ExtractInstanceID :: "labels \<Rightarrow> string" where
  "ExtractInstanceID ls = label_at ls LabelInstanceID"

text \<open>The object of a deletion notice, possibly inside a tombstone; \<open>None\<close> when it has no metadata.\<close>

definition extractInstanceIDFromDelete :: "labels option \<Rightarrow> string" where
  "extractInstanceIDFromDelete obj = (case obj of Some ls \<Rightarrow> ExtractInstanceID ls | None \<Rightarrow> '''')"

definition deleted_event :: "string \<Rightarrow> status_event" where
  "deleted_event i = \<lparr>se_InstanceID = i, se_Status = ''DELETED'', se_Message = ''resource no longer exists''\<rparr>"

section \<open>Network\<close>

datatype network_notice = ServiceSeen service | ServiceGone "labels option"

definition handleServiceEvent :: "service \<Rightarrow> status_event option" where
  "handleServiceEvent svc =
     (let i = ExtractInstanceID (svc_Labels svc); (status, msg) = MapServiceToStatus (Some svc)
      in if i = '''' then None else Some \<lparr>se_InstanceID = i, se_Status = status, se_Message = msg\<rparr>)"

definition handleServiceDelete :: "labels option \<Rightarrow> status_event option" where
  "handleServiceDelete obj =
     (let i = extractInstanceIDFromDelete obj in if i = '''' then None else Some (deleted_event i))"

definition network_notice_event :: "network_notice \<Rightarrow> status_event option" where
  "network_notice_event n = (case n of ServiceSeen svc \<Rightarrow> handleServiceEvent svc | ServiceGone obj \<Rightarrow> handleServiceDelete obj)"

section \<open>Storage\<close>

record k8s_event =
  ev_Type :: string
  ev_Kind :: string
  ev_Namespace :: string
  ev_Name :: string
  ev_Reason :: string
  ev_Message :: string

definition terminalPVCWarningReasons :: "string list" where
  "terminalPVCWarningReasons = [''FailedBinding'', ''ProvisioningFailed'', ''FailedProvisioning'', ''AllocationFailed'']"

definition isTerminalPVCWarning :: "k8s_event \<Rightarrow> bool" where
  "isTerminalPVCWarning ev \<longleftrightarrow>
     ev_Type ev = ''Warning'' \<and> ev_Kind ev = ''PersistentVolumeClaim'' \<and> ev_Reason ev \<in> set terminalPVCWarningReasons"

text \<open>\<open>lister\<close> is the claim cache: \<open>None\<close> is a lookup that fails.\<close>

definition handleWarningEvent :: "string \<Rightarrow> (string \<Rightarrow> string \<Rightarrow> pvc option) \<Rightarrow> k8s_event \<Rightarrow> status_event option" where
  "handleWarningEvent namespace lister ev =
     (if \<not> isTerminalPVCWarning ev then None
      else case lister (if ev_Namespace ev = '''' then namespace else ev_Namespace ev) (ev_Name ev) of
        None \<Rightarrow> None
      | Some p \<Rightarrow>
          let i = ExtractInstanceID (pvc_Labels p)
          in if i = '''' then None
             else Some \<lparr>se_InstanceID = i, se_Status = ''FAILED'',
                        se_Message = (if ev_Message ev = '''' then ''PVC failure: '' @ ev_Reason ev
                                      else ev_Reason ev @ '': '' @ ev_Message ev)\<rparr>)"

datatype storage_notice = PVCSeen pvc | PVCGone "labels option" | WarningSeen "string \<Rightarrow> string \<Rightarrow> pvc option" k8s_event

definition handlePVCEvent :: "pvc \<Rightarrow> status_event option" where
  "handlePVCEvent p =
     (let i = ExtractInstanceID (pvc_Labels p); (status, msg) = MapPVCToStatus (Some p)
      in if i = '''' then None else Some \<lparr>se_InstanceID = i, se_Status = status, se_Message = msg\<rparr>)"

definition handlePVCDelete :: "labels option \<Rightarrow> status_event option" where
  "handlePVCDelete obj =
     (let i = extractInstanceIDFromDelete obj in if i = '''' then None else Some (deleted_event i))"

definition storage_notice_event :: "string \<Rightarrow> storage_notice \<Rightarrow> status_event option" where
  "storage_notice_event namespace n =
     (case n of
        PVCSeen p \<Rightarrow> handlePVCEvent p
      | PVCGone obj \<Rightarrow> handlePVCDelete obj
      | WarningSeen lister ev \<Rightarrow> handleWarningEvent namespace lister ev)"

section \<open>Containers\<close>

text \<open>What the container monitor reads of a Deployment and of a Pod; a container status gives the reasons of its
  waiting and terminated states.\<close>

record dep_condition =
  dc_Type :: string
  dc_Status :: string
  dc_Reason :: string
  dc_Message :: string

record watched_deployment =
  wd_Replicas :: "int option"
  wd_Conditions :: "dep_condition list"

record watched_pod =
  wp_Phase :: string
  wp_ContainerStatuses :: "(string option \<times> string option) list"

fun extractPodFailureReason :: "(string option \<times> string option) list \<Rightarrow> string" where
  "extractPodFailureReason [] = ''''"
| "extractPodFailureReason ((waiting, terminated) # cs) =
     (case waiting of
        Some (c # r) \<Rightarrow> c # r
      | _ \<Rightarrow> (case terminated of Some (c # r) \<Rightarrow> c # r | _ \<Rightarrow> extractPodFailureReason cs))"

definition is_stuck :: "dep_condition \<Rightarrow> bool" where
  "is_stuck c \<longleftrightarrow> dc_Type c = ''Progressing'' \<and> dc_Status c = ''False'' \<and> dc_Reason c = ''ProgressDeadlineExceeded''"

definition stuckRolloutStatus :: "watched_deployment \<Rightarrow> watched_pod option \<Rightarrow> (string \<times> string) option" where
  "stuckRolloutStatus d p =
     (case find is_stuck (wd_Conditions d) of
        None \<Rightarrow> None
      | Some c \<Rightarrow>
          let msg = (if dc_Message c = '''' then ''ProgressDeadlineExceeded'' else dc_Message c);
              reason = (case p of Some p \<Rightarrow> extractPodFailureReason (wp_ContainerStatuses p) | None \<Rightarrow> '''')
          in Some (''FAILED'', if reason \<noteq> '''' then msg @ '' ('' @ reason @ '')'' else msg))"

definition deploy_only_status :: "watched_deployment \<Rightarrow> string \<times> string" where
  "deploy_only_status d =
     (if wd_Replicas d = Some 0 then (''FAILED'', ''deployment scaled to zero'')
      else case find (\<lambda>c. dc_Type c = ''ReplicaFailure'' \<and> dc_Status c = ''True'') (wd_Conditions d) of
             Some c \<Rightarrow> (''FAILED'', if dc_Message c \<noteq> '''' then dc_Message c else ''replica failure'')
           | None \<Rightarrow> (''PENDING'', ''waiting for pods''))"

definition pod_status :: "watched_pod \<Rightarrow> (string \<times> string) option" where
  "pod_status p =
     (case MapPodPhaseToStatus (wp_Phase p) of
        None \<Rightarrow> None
      | Some status \<Rightarrow>
          let reason = extractPodFailureReason (wp_ContainerStatuses p)
          in Some (status, if status = ''FAILED'' \<and> reason \<noteq> '''' then reason else wp_Phase p))"

text \<open>\<open>None\<close>: nothing is published.\<close>

definition ReconcileStatus :: "watched_deployment option \<Rightarrow> watched_pod option \<Rightarrow> (string \<times> string) option" where
  "ReconcileStatus deploy p =
     (case (deploy, p) of
        (None, None) \<Rightarrow> Some (''DELETED'', ''resource no longer exists'')
      | _ \<Rightarrow>
          (case (case deploy of Some d \<Rightarrow> stuckRolloutStatus d p | None \<Rightarrow> None) of
             Some r \<Rightarrow> Some r
           | None \<Rightarrow>
               (case p of
                  Some p \<Rightarrow> pod_status p
                | None \<Rightarrow> map_option deploy_only_status deploy)))"

definition podPhasePriority :: "string \<Rightarrow> int" where
  "podPhasePriority phase =
     (if phase = ''Failed'' then 4 else if phase = ''Unknown'' then 3 else if phase = ''Pending'' then 2
      else if phase = ''Running'' then 1 else 0)"

definition worst_pod :: "watched_pod list \<Rightarrow> int \<times> watched_pod option" where
  "worst_pod ps =
     foldl (\<lambda>(worstPriority, worst) p.
        let pr = podPhasePriority (wp_Phase p) in if pr > worstPriority then (pr, Some p) else (worstPriority, worst)) (-1, None) ps"

definition lookupPodByIndex :: "watched_pod list \<Rightarrow> watched_pod option" where
  "lookupPodByIndex items =
     (case items of [] \<Rightarrow> None | [p] \<Rightarrow> Some p | _ \<Rightarrow> snd (worst_pod items))"

definition lookupDeployByIndex :: "watched_deployment list \<Rightarrow> watched_deployment option" where
  "lookupDeployByIndex items = (case items of [] \<Rightarrow> None | d # _ \<Rightarrow> Some d)"

text \<open>A notice of the container monitor, with the labels of its object, and the two indexes by instance id.\<close>

datatype container_notice =
    DeploySeen labels watched_deployment
  | DeployGone "labels option"
  | PodSeen labels watched_pod
  | PodGone "labels option"

definition reconcileAndSubmit :: "string \<Rightarrow> watched_deployment option \<Rightarrow> watched_pod option \<Rightarrow> status_event option" where
  "reconcileAndSubmit i deploy p =
     (case ReconcileStatus deploy p of
        Some (status, msg) \<Rightarrow> Some \<lparr>se_InstanceID = i, se_Status = status, se_Message = msg\<rparr>
      | None \<Rightarrow> None)"

definition container_notice_event ::
  "(string \<Rightarrow> watched_deployment list) \<Rightarrow> (string \<Rightarrow> watched_pod list) \<Rightarrow> container_notice \<Rightarrow> status_event option" where
  "container_notice_event deploys pods n =
     (let i = (case n of
                 DeploySeen ls _ \<Rightarrow> ExtractInstanceID ls | PodSeen ls _ \<Rightarrow> ExtractInstanceID ls
               | DeployGone obj \<Rightarrow> extractInstanceIDFromDelete obj | PodGone obj \<Rightarrow> extractInstanceIDFromDelete obj)
      in if i = '''' then None
         else case n of
                DeploySeen _ d \<Rightarrow> reconcileAndSubmit i (Some d) (lookupPodByIndex (pods i))
              | DeployGone _ \<Rightarrow> reconcileAndSubmit i None (lookupPodByIndex (pods i))
              | PodSeen _ p \<Rightarrow> reconcileAndSubmit i (lookupDeployByIndex (deploys i)) (Some p)
              | PodGone _ \<Rightarrow> reconcileAndSubmit i (lookupDeployByIndex (deploys i)) (lookupPodByIndex (pods i)))"

section \<open>Publishing with retries\<close>

text \<open>\<open>ok\<close> tells whether an attempt succeeds, \<open>cancelled\<close> whether the wait after it ends with the context.  The result is
  the waits and whether the event was published.\<close>

fun publish_attempts :: "(nat \<Rightarrow> bool) \<Rightarrow> (nat \<Rightarrow> bool) \<Rightarrow> nat \<Rightarrow> nat \<Rightarrow> duration \<Rightarrow> duration list \<times> bool" where
  "publish_attempts ok cancelled attempt left backoff =
     (if ok attempt then ([], True)
      else case left of
             0 \<Rightarrow> ([], False)
           | Suc n \<Rightarrow>
               if cancelled attempt then ([backoff], False)
               else let (ws, r) = publish_attempts ok cancelled (attempt + 1) n (wrap64 (backoff * 2)) in (backoff # ws, r))"

declare publish_attempts.simps [simp del]

definition publishWithRetry :: "int \<Rightarrow> (nat \<Rightarrow> bool) \<Rightarrow> (nat \<Rightarrow> bool) \<Rightarrow> duration list \<times> bool" where
  "publishWithRetry publishMaxAttempts ok cancelled =
     (let maxAttempts = (if publishMaxAttempts < 1 then 5 else publishMaxAttempts)
      in publish_attempts ok cancelled 1 (nat maxAttempts - 1) 10000000)"

section \<open>Container statuses\<close>

text \<open>The lookup returns a pod of the highest priority, the first of them.\<close>

lemma worst_pod_step:
  "worst_pod (ps @ [p]) =
     (let pr = podPhasePriority (wp_Phase p) in if pr > fst (worst_pod ps) then (pr, Some p) else worst_pod ps)"
  by (simp add: worst_pod_def Let_def split: prod.split)

lemma worst_pod_max:
  "ps \<noteq> [] \<Longrightarrow> \<exists>p \<in> set ps. worst_pod ps = (podPhasePriority (wp_Phase p), Some p) \<and>
     (\<forall>q \<in> set ps. podPhasePriority (wp_Phase q) \<le> podPhasePriority (wp_Phase p))"
proof (induction ps rule: rev_induct)
  case (snoc p ps)
  show ?case
  proof (cases "ps = []")
    case True
    then show ?thesis by (simp add: worst_pod_def podPhasePriority_def)
  next
    case False
    with snoc.IH obtain w where w: "w \<in> set ps" "worst_pod ps = (podPhasePriority (wp_Phase w), Some w)"
      "\<forall>q \<in> set ps. podPhasePriority (wp_Phase q) \<le> podPhasePriority (wp_Phase w)" by auto
    show ?thesis
    proof (cases "podPhasePriority (wp_Phase p) > podPhasePriority (wp_Phase w)")
      case True
      then show ?thesis using w by (intro bexI [of _ p]) (auto simp: worst_pod_step Let_def)
    qed (use w in \<open>auto simp: worst_pod_step Let_def intro!: bexI [of _ w]\<close>)
  qed
qed simp

lemma lookupPodByIndex_worst:
  "ps \<noteq> [] \<Longrightarrow> \<exists>p \<in> set ps. lookupPodByIndex ps = Some p \<and> (\<forall>q \<in> set ps. podPhasePriority (wp_Phase q) \<le> podPhasePriority (wp_Phase p))"
  using worst_pod_max [of ps] by (auto simp: lookupPodByIndex_def split: list.split)

text \<open>A notice of a Pod reports that Pod's own phase: while an old Pod fails and a new one runs, the status depends on which
  of them was noticed last, although the lookup is meant to report the worst of them.\<close>

lemma pod_notice_hides_worse:
  assumes "ExtractInstanceID ls = i" "i \<noteq> ''''" "deploys i = [d]" "find is_stuck (wd_Conditions d) = None"
    and "pods i = [bad, good]" "wp_Phase bad = ''Failed''" "wp_Phase good = ''Running''"
  shows "map_option se_Status (container_notice_event deploys pods (PodSeen ls good)) = Some ''RUNNING'' \<and>
     map_option se_Status (container_notice_event deploys pods (DeploySeen ls d)) = Some ''FAILED''"
  using assms by (simp add: container_notice_event_def reconcileAndSubmit_def ReconcileStatus_def stuckRolloutStatus_def pod_status_def
      MapPodPhaseToStatus_def lookupDeployByIndex_def lookupPodByIndex_def worst_pod_def podPhasePriority_def Let_def)

section \<open>Retries\<close>

lemma publish_attempts_waits:
  assumes "publish_attempts ok cancelled a n b = (ws, r)"
  shows "length ws \<le> n \<and> (r \<longrightarrow> (\<exists>k \<le> length ws. ok (a + k))) \<and> (\<not> r \<longrightarrow> \<not> ok a)"
  using assms
proof (induction n arbitrary: a b ws r)
  case 0
  then show ?case by (subst (asm) publish_attempts.simps) (auto split: if_splits)
next
  case (Suc n)
  show ?case
  proof (cases "ok a \<or> cancelled a")
    case True
    then show ?thesis using Suc.prems by (subst (asm) publish_attempts.simps) (auto split: if_splits)
  next
    case False
    then obtain ws' where w: "ws = b # ws'" "publish_attempts ok cancelled (a + 1) n (wrap64 (b * 2)) = (ws', r)"
      using Suc.prems by (subst (asm) publish_attempts.simps) (auto split: prod.splits)
    from Suc.IH [OF w(2)] w(1) False show ?thesis by (auto intro: exI [of _ "Suc _"])
  qed
qed

end
