(* ===== verification/Status_Monitors.thy ===== *)
theory Status_Monitors
  imports Workload_Status
begin

text \<open>
  The network and storage status monitors at run time (\<open>submitIfChanged\<close> and \<open>publishWithRetry\<close> of
  \<open>openshift/{network,storage}/monitoring/monitor.go\<close>) with the debouncer of \<open>Status_Debouncer\<close>.  A callback first decides
  under the monitor's mutex whether to submit its event and then, after releasing the mutex, calls the
  debouncer; a publish that succeeds records its event under the mutex before it returns to the debouncer.  Callbacks of one
  informer run one after the other; the storage monitor has two informers, so that two of its callbacks overlap.
\<close>

section \<open>State\<close>

datatype monitor_log = Noticed status_event | Checked status_event | Recorded status_event

record status_monitor =
  sm_deb :: "status_event debouncer"
  sm_lastPublished :: "string \<Rightarrow> status_event option"
  sm_lastSubmitted :: "string \<Rightarrow> status_event option"
  sm_gap :: "status_event list" \<comment> \<open>events of callbacks between the unlock and \<open>Submit\<close>\<close>
  sm_recorded :: "string list" \<comment> \<open>instances whose publish in progress has recorded its event\<close>
  sm_log :: "monitor_log list"

definition NewStatusMonitor :: status_monitor where
  "NewStatusMonitor = \<lparr>sm_deb = NewDebouncer, sm_lastPublished = Map.empty, sm_lastSubmitted = Map.empty, sm_gap = [], sm_recorded = [], sm_log = []\<rparr>"

section \<open>Locked sections\<close>

definition same_as_published :: "status_monitor \<Rightarrow> status_event \<Rightarrow> bool" where
  "same_as_published m e =
     (case sm_lastPublished m (se_InstanceID e) of
        Some prev \<Rightarrow> se_Status prev = se_Status e \<and> se_Message prev = se_Message e
      | None \<Rightarrow> False)"

definition enqueue_event :: "status_monitor \<Rightarrow> status_event \<Rightarrow> status_monitor" where
  "enqueue_event m e =
     m\<lparr>sm_lastSubmitted := (sm_lastSubmitted m)(se_InstanceID e \<mapsto> e), sm_gap := sm_gap m @ [e], sm_log := sm_log m @ [Checked e]\<rparr>"

definition network_submitIfChanged :: "status_event \<Rightarrow> status_monitor \<Rightarrow> status_monitor" where
  "network_submitIfChanged e m = (if same_as_published m e then m else enqueue_event m e)"

definition latched :: "status_monitor \<Rightarrow> status_event \<Rightarrow> bool" where
  "latched m e =
     (case sm_lastSubmitted m (se_InstanceID e) of
        Some prev \<Rightarrow> se_Status prev = ''FAILED'' \<and> se_Status e = ''PROVISIONING''
      | None \<Rightarrow> False)"

definition storage_submitIfChanged :: "status_event \<Rightarrow> status_monitor \<Rightarrow> status_monitor" where
  "storage_submitIfChanged e m = (if same_as_published m e then m else if latched m e then m else enqueue_event m e)"

text \<open>The end of \<open>publishWithRetry\<close> after a successful attempt.\<close>

definition record_published :: "status_event \<Rightarrow> status_monitor \<Rightarrow> status_monitor" where
  "record_published e m =
     (let i = se_InstanceID e; m = m\<lparr>sm_recorded := i # sm_recorded m, sm_log := sm_log m @ [Recorded e]\<rparr>
      in if se_Status e = ''DELETED''
         then m\<lparr>sm_lastPublished := (sm_lastPublished m)(i := None), sm_lastSubmitted := (sm_lastSubmitted m)(i := None)\<rparr>
         else m\<lparr>sm_lastPublished := (sm_lastPublished m)(i \<mapsto> e)\<rparr>)"

definition after_debouncer :: "status_event debouncer \<Rightarrow> status_monitor \<Rightarrow> status_monitor" where
  "after_debouncer d m = m\<lparr>sm_deb := d, sm_recorded := filter (\<lambda>i. 0 < calls_in_progress d i) (sm_recorded m)\<rparr>"

section \<open>Interleavings\<close>

text \<open>\<open>src\<close> gives the event of a notice, \<open>check\<close> is the package's \<open>submitIfChanged\<close>, \<open>sequential\<close> says that all callbacks come
  from one informer.  The event of the publish in progress for an instance is the last one the debouncer handed out.\<close>

inductive monitor_step ::
  "('n \<Rightarrow> status_event option) \<Rightarrow> (status_event \<Rightarrow> status_monitor \<Rightarrow> status_monitor) \<Rightarrow> bool \<Rightarrow> status_monitor \<Rightarrow> status_monitor \<Rightarrow> bool"
  for src check sequential where
  notice: "src n = Some e \<Longrightarrow> sequential \<longrightarrow> sm_gap m = [] \<Longrightarrow>
    monitor_step src check sequential m (check e (m\<lparr>sm_log := sm_log m @ [Noticed e]\<rparr>))"
| submit: "sm_gap m = xs @ e # ys \<Longrightarrow>
    monitor_step src check sequential m (m\<lparr>sm_gap := xs @ ys, sm_deb := Submit fired (se_InstanceID e) e (sm_deb m)\<rparr>)"
| debounce: "deb_step (sm_deb m) d \<Longrightarrow> (\<forall>i. accepted d i = accepted (sm_deb m) i) \<Longrightarrow>
    monitor_step src check sequential m (after_debouncer d m)"
| recorded: "0 < calls_in_progress (sm_deb m) i \<Longrightarrow> i \<notin> set (sm_recorded m) \<Longrightarrow> published_events (sm_deb m) i \<noteq> [] \<Longrightarrow>
    monitor_step src check sequential m (record_published (last (published_events (sm_deb m) i)) m)"

inductive monitor_reach ::
  "('n \<Rightarrow> status_event option) \<Rightarrow> (status_event \<Rightarrow> status_monitor \<Rightarrow> status_monitor) \<Rightarrow> bool \<Rightarrow> status_monitor \<Rightarrow> bool"
  for src check sequential where
  init: "monitor_reach src check sequential NewStatusMonitor"
| step: "monitor_reach src check sequential m \<Longrightarrow> monitor_step src check sequential m m' \<Longrightarrow> monitor_reach src check sequential m'"

section \<open>Views\<close>

fun checked_of :: "string \<Rightarrow> monitor_log \<Rightarrow> status_event list" where
  "checked_of i (Checked e) = (if se_InstanceID e = i then [e] else [])"
| "checked_of i _ = []"

definition checked :: "status_monitor \<Rightarrow> string \<Rightarrow> status_event list" where
  "checked m i = concat (map (checked_of i) (sm_log m))"

definition at_instance :: "string \<Rightarrow> status_event list \<Rightarrow> status_event list" where
  "at_instance i es = filter (\<lambda>e. se_InstanceID e = i) es"

definition debouncer_idle :: "'e debouncer \<Rightarrow> bool" where
  "debouncer_idle d \<longleftrightarrow> db_callbacks d = Map.empty \<and> db_running d = [] \<and> \<not> db_stopped d"

section \<open>Both monitors\<close>

lemma Submit_accepted:
  "accepted (Submit fired i e d) j = accepted d j @ (if \<not> db_stopped d \<and> i = j then [e] else [])"
  by (auto simp: Submit_def Let_def accepted_def)

lemma stopped_stays: "deb_step d d' \<Longrightarrow> db_stopped d \<Longrightarrow> db_stopped d'"
  by (induction rule: deb_step.induct)
    (auto simp: Submit_def runPublish_def beginPublish_def endPublish_def Stop_def Let_def split: option.splits)

lemma monitor_views [simp]:
  "sm_deb (record_published e m) = sm_deb m" "sm_gap (record_published e m) = sm_gap m"
  "checked (record_published e m) i = checked m i"
  "sm_deb (after_debouncer d m) = d" "sm_gap (after_debouncer d m) = sm_gap m" "checked (after_debouncer d m) i = checked m i"
  "sm_log (after_debouncer d m) = sm_log m" "sm_lastSubmitted (after_debouncer d m) = sm_lastSubmitted m"
  "sm_deb (enqueue_event m e) = sm_deb m" "sm_gap (enqueue_event m e) = sm_gap m @ [e]"
  "checked (enqueue_event m e) i = checked m i @ (if se_InstanceID e = i then [e] else [])"
  "checked (m\<lparr>sm_log := sm_log m @ [Noticed e]\<rparr>) i = checked m i"
  "checked (m\<lparr>sm_gap := g, sm_deb := d\<rparr>) i = checked m i"
  by (simp_all add: record_published_def after_debouncer_def enqueue_event_def checked_def Let_def)

lemma subseq_left: "subseq (xs @ ys) zs \<Longrightarrow> subseq xs zs"
  by (rule subseq_order.order_trans [OF prefix_imp_subseq]) auto

lemma at_instance_simps [simp]:
  "at_instance i [] = []" "at_instance i (xs @ ys) = at_instance i xs @ at_instance i ys"
  "at_instance i (e # es) = (if se_InstanceID e = i then e # at_instance i es else at_instance i es)"
  by (simp_all add: at_instance_def)

text \<open>The contract of \<open>submitIfChanged\<close>: it drops the event, or records it as submitted and goes on to the debouncer.\<close>

locale submit_check =
  fixes check :: "status_event \<Rightarrow> status_monitor \<Rightarrow> status_monitor"
  assumes drops_or_enqueues: "check e m = m \<or> check e m = enqueue_event m e"
begin

lemma reach_debouncer: "monitor_reach src check sq m \<Longrightarrow> deb_reach (sm_deb m)"
proof (induction rule: monitor_reach.induct)
  case init
  show ?case by (simp add: NewStatusMonitor_def deb_reach.init)
next
  case (step m m')
  from step(2) show ?case
  proof cases
    case (notice n e)
    have "sm_deb m' = sm_deb m"
      using drops_or_enqueues [of e "m\<lparr>sm_log := sm_log m @ [Noticed e]\<rparr>"] notice(1) by auto
    then show ?thesis using step.IH by simp
  next
    case (submit xs e ys fired)
    then show ?thesis using deb_reach.step [OF step.IH deb_step.submit] by simp
  next
    case (debounce d)
    then show ?thesis using deb_reach.step [OF step.IH] by simp
  qed (use step.IH in simp)
qed

text \<open>With one informer the debouncer accepts the checked events in the order of the checks, until it is stopped.\<close>

lemma sequential_order:
  "monitor_reach src check True m \<Longrightarrow>
     length (sm_gap m) \<le> 1 \<and> subseq (accepted (sm_deb m) i @ at_instance i (sm_gap m)) (checked m i) \<and>
     (\<not> db_stopped (sm_deb m) \<longrightarrow> checked m i = accepted (sm_deb m) i @ at_instance i (sm_gap m))"
proof (induction rule: monitor_reach.induct)
  case init
  show ?case by (simp add: NewStatusMonitor_def NewDebouncer_def accepted_def checked_def)
next
  case (step m m')
  from step(2) show ?case
  proof cases
    case (notice n e)
    then show ?thesis
      using step.IH drops_or_enqueues [of e "m\<lparr>sm_log := sm_log m @ [Noticed e]\<rparr>"]
      by (auto split: if_splits)
  next
    case (submit xs e ys fired)
    then have "sm_gap m = [e]" "xs = []" "ys = []" using step.IH by (auto simp: append_eq_Cons_conv)
    moreover have "db_stopped (Submit fired (se_InstanceID e) e (sm_deb m)) = db_stopped (sm_deb m)" by (simp add: Submit_def Let_def)
    ultimately show ?thesis using step.IH submit(1) by (auto simp: Submit_accepted dest: subseq_left split: if_splits)
  next
    case (debounce d)
    then show ?thesis using step.IH stopped_stays [OF debounce(2)] by auto
  qed (use step.IH in simp)
qed

lemma sequential_delivery:
  assumes r: "monitor_reach src check True m" and b: "bounded (sm_deb m)"
  shows "subseq (published_events (sm_deb m) i) (checked m i) \<and>
     (debouncer_idle (sm_deb m) \<and> sm_gap m = [] \<and> checked m i \<noteq> [] \<longrightarrow>
        published_events (sm_deb m) i \<noteq> [] \<and> last (published_events (sm_deb m) i) = last (checked m i))"
proof -
  note o = debouncer_outcome [OF reach_debouncer [OF r] b, of i]
  note s = sequential_order [OF r, of i]
  have "subseq (accepted (sm_deb m) i) (checked m i)" using s by (blast intro: subseq_left)
  then have "subseq (published_events (sm_deb m) i) (checked m i)" using o by (blast intro: subseq_order.order_trans)
  moreover have "deb_inv (sm_deb m)" by (rule reach_deb_inv [OF reach_debouncer [OF r] b])
  then have "\<not> db_stopped (sm_deb m) \<Longrightarrow> db_stopper (sm_deb m) = NotStopped" by (auto simp: deb_inv_def deb_wf_def)
  ultimately show ?thesis using o s by (auto simp: debouncer_idle_def)
qed

end


interpretation sto_c: submit_check storage_submitIfChanged
  by unfold_locales (simp add: storage_submitIfChanged_def)

section \<open>Delivery\<close>


section \<open>The failure latch\<close>

text \<open>A log entry that ends the latch of instance \<open>i\<close>: another check, or the recorded publish of its deletion.\<close>

fun log_touches :: "string \<Rightarrow> monitor_log \<Rightarrow> bool" where
  "log_touches i (Checked e) = (se_InstanceID e = i)"
| "log_touches i (Recorded e) = (se_InstanceID e = i \<and> se_Status e = ''DELETED'')"
| "log_touches i (Noticed e) = False"

definition last_checked :: "string \<Rightarrow> monitor_log list \<Rightarrow> status_event \<Rightarrow> bool" where
  "last_checked i l f \<longleftrightarrow> (\<exists>xs ys. l = xs @ Checked f # ys \<and> se_InstanceID f = i \<and> \<not> list_ex (log_touches i) ys)"

lemma last_checked_snoc:
  "last_checked i (l @ [x]) f \<longleftrightarrow> x = Checked f \<and> se_InstanceID f = i \<or> last_checked i l f \<and> \<not> log_touches i x"
proof
  assume "last_checked i (l @ [x]) f"
  then obtain xs ys where s: "l @ [x] = xs @ Checked f # ys" "se_InstanceID f = i" "\<not> list_ex (log_touches i) ys"
    by (auto simp: last_checked_def)
  show "x = Checked f \<and> se_InstanceID f = i \<or> last_checked i l f \<and> \<not> log_touches i x"
  proof (cases ys rule: rev_cases)
    case (snoc ys' y)
    then have "l = xs @ Checked f # ys'" "x = y" using s(1) by simp_all
    then show ?thesis using s snoc by (auto simp: last_checked_def)
  qed (use s in simp)
next
  assume "x = Checked f \<and> se_InstanceID f = i \<or> last_checked i l f \<and> \<not> log_touches i x"
  then show "last_checked i (l @ [x]) f"
  proof
    assume "last_checked i l f \<and> \<not> log_touches i x"
    then obtain xs ys where "l = xs @ Checked f # ys" "se_InstanceID f = i" "\<not> list_ex (log_touches i) (ys @ [x])"
      by (auto simp: last_checked_def)
    then show ?thesis unfolding last_checked_def by (intro exI [of _ xs] exI [of _ "ys @ [x]"]) simp
  qed (auto simp: last_checked_def intro: exI [of _ l] exI [of _ "[]"])
qed

lemma last_checked_snoc2:
  "last_checked i (l @ [x, y]) f \<longleftrightarrow> y = Checked f \<and> se_InstanceID f = i \<or> last_checked i (l @ [x]) f \<and> \<not> log_touches i y"
  using last_checked_snoc [of i "l @ [x]" y f] by simp

lemma last_checked_Nil [simp]: "\<not> last_checked i [] f"
  by (simp add: last_checked_def)

context submit_check
begin

lemma last_submitted:
  "monitor_reach src check sq m \<Longrightarrow> last_checked i (sm_log m) f \<Longrightarrow> sm_lastSubmitted m i = Some f"
proof (induction arbitrary: f rule: monitor_reach.induct)
  case init
  then show ?case by (simp add: NewStatusMonitor_def)
next
  case (step m m')
  from step(2) show ?case
  proof cases
    case (notice n e)
    then show ?thesis
      using step.IH step.prems drops_or_enqueues [of e "m\<lparr>sm_log := sm_log m @ [Noticed e]\<rparr>"]
      by (auto simp: enqueue_event_def last_checked_snoc last_checked_snoc2)
  next
    case (recorded j)
    then show ?thesis
      using step.IH step.prems by (auto simp: record_published_def last_checked_snoc Let_def split: if_splits)
  qed (use step.IH step.prems in simp_all)
qed

end

definition no_downgrade :: "monitor_log list \<Rightarrow> bool" where
  "no_downgrade l \<longleftrightarrow>
     (\<forall>xs p zs f. l = xs @ Checked p # zs \<longrightarrow> se_Status p = ''PROVISIONING'' \<longrightarrow> last_checked (se_InstanceID p) xs f \<longrightarrow> se_Status f \<noteq> ''FAILED'')"

lemma no_downgrade_snoc:
  assumes "no_downgrade l"
    and "\<And>p f. x = Checked p \<Longrightarrow> se_Status p = ''PROVISIONING'' \<Longrightarrow> last_checked (se_InstanceID p) l f \<Longrightarrow> se_Status f \<noteq> ''FAILED''"
  shows "no_downgrade (l @ [x])"
  unfolding no_downgrade_def
proof (intro allI impI)
  fix xs p zs f
  assume a: "l @ [x] = xs @ Checked p # zs" "se_Status p = ''PROVISIONING''" "last_checked (se_InstanceID p) xs f"
  show "se_Status f \<noteq> ''FAILED''"
    using a assms unfolding no_downgrade_def by (cases zs rule: rev_cases) auto
qed

lemma storage_no_downgrade:
  "monitor_reach (storage_notice_event ns) storage_submitIfChanged sq m \<Longrightarrow> no_downgrade (sm_log m)"
proof (induction rule: monitor_reach.induct)
  case init
  show ?case by (simp add: NewStatusMonitor_def no_downgrade_def)
next
  case (step m m')
  from step(2) show ?case
  proof cases
    case (notice n e)
    define m1 where "m1 = m\<lparr>sm_log := sm_log m @ [Noticed e]\<rparr>"
    have n1: "no_downgrade (sm_log m1)" unfolding m1_def using no_downgrade_snoc [OF step.IH, of "Noticed e"] by simp
    have "latched m1 e" if "se_Status e = ''PROVISIONING''" "last_checked (se_InstanceID e) (sm_log m1) f" "se_Status f = ''FAILED''" for f
      using that sto_c.last_submitted [OF step.hyps(1), of "se_InstanceID e" f]
      by (simp add: latched_def m1_def last_checked_snoc)
    then have "\<not> latched m1 e \<Longrightarrow> no_downgrade (sm_log m1 @ [Checked e])" by (intro no_downgrade_snoc [OF n1]) auto
    then show ?thesis
      using n1 notice(1) by (simp add: storage_submitIfChanged_def enqueue_event_def m1_def [symmetric])
  next
    case (recorded j)
    then show ?thesis
      using no_downgrade_snoc [OF step.IH, of "Recorded (last (published_events (sm_deb m) j))"] by (simp add: record_published_def Let_def)
  qed (use step.IH in simp_all)
qed

text \<open>C40: the storage monitor does not downgrade a failure.  Under every interleaving of its two informers' callbacks, once a
  volume's \<open>FAILED\<close> event passed \<open>submitIfChanged\<close>, no \<open>PROVISIONING\<close> event of that volume passes until another
  event of the volume passed, or its deletion was published.\<close>

theorem storage_failure_latched:
  assumes "monitor_reach (storage_notice_event ns) storage_submitIfChanged sq m"
    and "sm_log m = xs @ Checked f # ys @ Checked p # zs" "se_InstanceID f = se_InstanceID p"
    and "se_Status f = ''FAILED''" "se_Status p = ''PROVISIONING''"
  shows "list_ex (log_touches (se_InstanceID p)) ys"
proof (rule ccontr)
  assume "\<not> list_ex (log_touches (se_InstanceID p)) ys"
  then have "last_checked (se_InstanceID p) (xs @ Checked f # ys) f" using assms(3) by (auto simp: last_checked_def)
  moreover have "sm_log m = (xs @ Checked f # ys) @ Checked p # zs" using assms(2) by simp
  ultimately show False using storage_no_downgrade [OF assms(1)] assms(4,5) unfolding no_downgrade_def by blast
qed

section \<open>Runs\<close>

text \<open>Three steps that publish the event of a timer, record it and return: the state after them.\<close>

definition publish_run :: "nat \<Rightarrow> string \<Rightarrow> 64 word \<Rightarrow> status_monitor \<Rightarrow> status_monitor" where
  "publish_run a i v m =
     (let m1 = after_debouncer (runPublish i v ((sm_deb m)\<lparr>db_callbacks := (db_callbacks (sm_deb m))(a := None)\<rparr>)) m;
          m2 = record_published (last (published_events (sm_deb m1) i)) m1
      in after_debouncer (endPublish i v ((sm_deb m2)\<lparr>db_running := []\<rparr>)) m2)"

lemma runPublish_accepted: "accepted (runPublish i v d) j = accepted d j" "accepted (endPublish i v d) j = accepted d j"
  "accepted (d\<lparr>db_callbacks := c\<rparr>) j = accepted d j" "accepted (d\<lparr>db_running := r\<rparr>) j = accepted d j"
  by (auto simp: runPublish_def beginPublish_def endPublish_def accepted_def Let_def split: option.split)

lemma publish_run_reach:
  assumes r: "monitor_reach src check sq m" and t: "db_callbacks (sm_deb m) a = Some (i, v)"
    and run: "db_running (sm_deb m) = []" "\<not> db_stopped (sm_deb m)" "db_instances (sm_deb m) i = Some st" "is_ver st = v" "\<not> is_draining st"
    and fresh: "sm_recorded m = []"
  shows "monitor_reach src check sq (publish_run a i v m)"
proof -
  let ?d = "(sm_deb m)\<lparr>db_callbacks := (db_callbacks (sm_deb m))(a := None)\<rparr>"
  define m1 where "m1 = after_debouncer (runPublish i v ?d) m"
  define m2 where "m2 = record_published (last (published_events (sm_deb m1) i)) m1"
  have d1: "db_running (sm_deb m1) = [] @ Publishing i v (is_pending st) # []" "published_events (sm_deb m1) i = published_events (sm_deb m) i @ [is_pending st]"
    using run by (simp_all add: m1_def runPublish_def beginPublish_def published_events_def)
  have "monitor_reach src check sq m1" unfolding m1_def
    by (rule monitor_reach.step [OF r monitor_step.debounce [OF deb_step.fire [OF t]]]) (simp add: runPublish_accepted)
  moreover have "0 < calls_in_progress (sm_deb m1) i" using d1(1) by (simp add: calls_in_progress_def publishing_def)
  moreover have "i \<notin> set (sm_recorded m1)" using fresh by (simp add: m1_def after_debouncer_def)
  ultimately have r2: "monitor_reach src check sq m2" unfolding m2_def
    using d1(2) by (intro monitor_reach.step [OF _ monitor_step.recorded]) simp_all
  have "db_running (sm_deb m2) = [] @ Publishing i v (is_pending st) # []" using d1(1) by (simp add: m2_def)
  from monitor_reach.step [OF r2 monitor_step.debounce [OF deb_step.published [OF this]]] show ?thesis
    unfolding publish_run_def Let_def m1_def [symmetric] m2_def [symmetric] by (simp add: runPublish_accepted)
qed

definition lb_service :: "(string \<times> string) list \<Rightarrow> service" where
  "lb_service ingress =
     \<lparr>svc_Name = ''web'', svc_GenerateName = '''', svc_Namespace = ''apps'', svc_Labels = dcm_Labels ''network'' ''web-1'', svc_CreationTimestamp = 1,
      svc_Type = ''LoadBalancer'', svc_ClusterIP = '''', svc_Ports = [], svc_Selector = [], svc_Ingress = ingress\<rparr>"

definition lb_pending :: status_event where
  "lb_pending = \<lparr>se_InstanceID = ''web-1'', se_Status = ''PENDING'', se_Message = ''waiting for external IP assignment''\<rparr>"

definition lb_ready :: status_event where
  "lb_ready = \<lparr>se_InstanceID = ''web-1'', se_Status = ''READY'', se_Message = ''service is ready''\<rparr>"

lemma lb_notices:
  "network_notice_event (ServiceSeen (lb_service [])) = Some lb_pending"
  "network_notice_event (ServiceSeen (lb_service [(''192.0.2.1'', '''')])) = Some lb_ready"
  by (simp_all add: network_notice_event_def handleServiceEvent_def lb_service_def MapServiceToStatus_def ExtractInstanceID_def label_at_def
      lb_pending_def lb_ready_def)

lemma lb_simps [simp]:
  "se_InstanceID lb_pending = ''web-1''" "se_InstanceID lb_ready = ''web-1''" "se_Status lb_pending \<noteq> ''DELETED''" "se_Status lb_ready \<noteq> ''DELETED''"
  "se_Status lb_pending \<noteq> se_Status lb_ready" "se_Status lb_ready \<noteq> se_Status lb_pending"
  by (simp_all add: lb_pending_def lb_ready_def)

text \<open>A notice whose event passes, and its submission.\<close>

definition pass_run :: "(status_event \<Rightarrow> status_monitor \<Rightarrow> status_monitor) \<Rightarrow> status_event \<Rightarrow> status_monitor \<Rightarrow> status_monitor" where
  "pass_run check e m =
     (let m = check e (m\<lparr>sm_log := sm_log m @ [Noticed e]\<rparr>) in m\<lparr>sm_gap := [], sm_deb := Submit False (se_InstanceID e) e (sm_deb m)\<rparr>)"

lemma pass_run_reach:
  assumes "monitor_reach src check sq m" "src n = Some e" "sm_gap m = []" "sm_gap (check e (m\<lparr>sm_log := sm_log m @ [Noticed e]\<rparr>)) = [e]"
  shows "monitor_reach src check sq (pass_run check e m)"
proof -
  let ?m = "check e (m\<lparr>sm_log := sm_log m @ [Noticed e]\<rparr>)"
  have r: "monitor_reach src check sq ?m" using assms by (intro monitor_reach.step [OF assms(1) monitor_step.notice]) auto
  have "sm_gap ?m = [] @ e # []" using assms(4) by simp
  from monitor_reach.step [OF r monitor_step.submit [OF this, where fired = False]] show ?thesis unfolding pass_run_def Let_def by simp
qed

text \<open>What the two runs compute, for an instance the debouncer does not hold and for one whose timer is running.\<close>

lemma empty_upd_None: "Map.empty(a := None) = Map.empty"
  by auto

lemma Submit_fresh:
  "\<not> db_stopped d \<Longrightarrow> db_instances d i = None \<Longrightarrow> i \<notin> set (db_ids d) \<Longrightarrow>
   Submit fired i e d =
     d\<lparr>db_instances := (db_instances d)(i \<mapsto> \<lparr>is_timer = Some (db_next d), is_pending = e, is_ver = 1, is_draining = False\<rparr>),
       db_ids := i # db_ids d, db_callbacks := (db_callbacks d)(db_next d \<mapsto> (i, 1)), db_next := db_next d + 1, db_log := db_log d @ [Accepted i e]\<rparr>"
  by (simp add: Submit_def get_or_new_def put_instance_def stop_timer_def Let_def)

lemma pass_run_eq:
  assumes "check e (m\<lparr>sm_log := sm_log m @ [Noticed e]\<rparr>) = enqueue_event (m\<lparr>sm_log := sm_log m @ [Noticed e]\<rparr>) e"
  shows "pass_run check e m =
     m\<lparr>sm_deb := Submit False (se_InstanceID e) e (sm_deb m), sm_lastSubmitted := (sm_lastSubmitted m)(se_InstanceID e \<mapsto> e),
       sm_gap := [], sm_log := sm_log m @ [Noticed e, Checked e]\<rparr>"
  using assms by (simp add: pass_run_def enqueue_event_def Let_def)

lemma publish_run_eq:
  assumes run: "db_running (sm_deb m) = []" "\<not> db_stopped (sm_deb m)" "db_instances (sm_deb m) i = Some st" "is_ver st = v" "\<not> is_draining st"
    and fresh: "sm_recorded m = []" and e: "is_pending st = e" "se_InstanceID e = i" "se_Status e \<noteq> ''DELETED''"
    and stop: "db_stopper (sm_deb m) = NotStopped"
  shows "publish_run a i v m =
     m\<lparr>sm_deb := (sm_deb m)\<lparr>db_instances := (db_instances (sm_deb m))(i := None), db_ids := removeAll i (db_ids (sm_deb m)),
         db_callbacks := (db_callbacks (sm_deb m))(a := None), db_log := db_log (sm_deb m) @ [Published i e]\<rparr>,
       sm_lastPublished := (sm_lastPublished m)(i \<mapsto> e), sm_log := sm_log m @ [Recorded e]\<rparr>"
proof -
  define d1 where "d1 = runPublish i v ((sm_deb m)\<lparr>db_callbacks := (db_callbacks (sm_deb m))(a := None)\<rparr>)"
  define ids where "ids = (if i \<in> set (db_ids (sm_deb m)) then db_ids (sm_deb m) else i # db_ids (sm_deb m))"
  have d1: "d1 = (sm_deb m)\<lparr>db_callbacks := (db_callbacks (sm_deb m))(a := None), db_wg := db_wg (sm_deb m) + 1,
      db_instances := (db_instances (sm_deb m))(i \<mapsto> st\<lparr>is_timer := None, is_draining := True\<rparr>), db_ids := ids,
      db_running := [Publishing i v e], db_log := db_log (sm_deb m) @ [Published i e]\<rparr>"
    using run e by (simp add: d1_def runPublish_def beginPublish_def put_instance_def ids_def)
  have pub: "last (published_events d1 i) = e" by (simp add: d1 published_events_def)
  define d2 where "d2 = endPublish i v (d1\<lparr>db_running := []\<rparr>)"
  have "removeAll i ids = removeAll i (db_ids (sm_deb m))" by (simp add: ids_def)
  then have d2: "d2 = (sm_deb m)\<lparr>db_instances := (db_instances (sm_deb m))(i := None), db_ids := removeAll i (db_ids (sm_deb m)),
      db_callbacks := (db_callbacks (sm_deb m))(a := None), db_log := db_log (sm_deb m) @ [Published i e]\<rparr>"
    using run by (simp add: d2_def d1 endPublish_def delete_instance_def Let_def)
  have calls: "calls_in_progress d2 i = 0" using run stop by (simp add: d2 calls_in_progress_def publishing_def flush_calls_def)
  show ?thesis
    using fresh e calls
    by (simp add: publish_run_def Let_def d1_def [symmetric] pub after_debouncer_def record_published_def d2_def [symmetric] d2)
qed

lemmas run_eqs = network_submitIfChanged_def storage_submitIfChanged_def same_as_published_def latched_def Submit_fresh NewStatusMonitor_def NewDebouncer_def

lemma pending_submitted:
  "pass_run network_submitIfChanged lb_pending NewStatusMonitor =
     NewStatusMonitor\<lparr>sm_deb := NewDebouncer\<lparr>
         db_instances := [''web-1'' \<mapsto> \<lparr>is_timer = Some 0, is_pending = lb_pending, is_ver = 1, is_draining = False\<rparr>],
         db_ids := [''web-1''], db_callbacks := [0 \<mapsto> (''web-1'', 1)], db_next := 1, db_log := [Accepted ''web-1'' lb_pending]\<rparr>,
       sm_lastSubmitted := [''web-1'' \<mapsto> lb_pending], sm_log := [Noticed lb_pending, Checked lb_pending]\<rparr>"
  by (subst pass_run_eq) (simp_all add: run_eqs)

definition mon_pending :: status_monitor where
  "mon_pending = publish_run 0 ''web-1'' 1 (pass_run network_submitIfChanged lb_pending NewStatusMonitor)"

lemma mon_pending_eq:
  "mon_pending =
     NewStatusMonitor\<lparr>sm_deb := NewDebouncer\<lparr>db_next := 1, db_log := [Accepted ''web-1'' lb_pending, Published ''web-1'' lb_pending]\<rparr>,
       sm_lastPublished := [''web-1'' \<mapsto> lb_pending], sm_lastSubmitted := [''web-1'' \<mapsto> lb_pending],
       sm_log := [Noticed lb_pending, Checked lb_pending, Recorded lb_pending]\<rparr>"
  unfolding mon_pending_def pending_submitted
  by (subst publish_run_eq [where st = "\<lparr>is_timer = Some 0, is_pending = lb_pending, is_ver = 1, is_draining = False\<rparr>" and e = lb_pending])
    (simp_all add: NewStatusMonitor_def NewDebouncer_def empty_upd_None)

lemma mon_pending_reach: "monitor_reach network_notice_event network_submitIfChanged True mon_pending"
proof -
  let ?m = "pass_run network_submitIfChanged lb_pending NewStatusMonitor"
  have r: "monitor_reach network_notice_event network_submitIfChanged True ?m"
    by (rule pass_run_reach [where src = network_notice_event, OF monitor_reach.init lb_notices(1)])
      (simp_all add: run_eqs enqueue_event_def)
  show ?thesis unfolding mon_pending_def
    by (rule publish_run_reach [OF r, where st = "\<lparr>is_timer = Some 0, is_pending = lb_pending, is_ver = 1, is_draining = False\<rparr>"])
      (simp_all add: pending_submitted, simp_all add: NewStatusMonitor_def NewDebouncer_def)
qed


text \<open>A status that changes and changes back while the first change waits in the debouncer is lost: the second change equals the
  last published event and is dropped, and the debouncer then publishes the first.  The monitor is idle with a published status that
  is not the current one.\<close>

definition mon_ready_waiting :: status_monitor where
  "mon_ready_waiting = NewStatusMonitor\<lparr>sm_deb := NewDebouncer\<lparr>
       db_instances := [''web-1'' \<mapsto> \<lparr>is_timer = Some 1, is_pending = lb_ready, is_ver = 1, is_draining = False\<rparr>],
       db_ids := [''web-1''], db_callbacks := [1 \<mapsto> (''web-1'', 1)], db_next := 2,
       db_log := [Accepted ''web-1'' lb_pending, Published ''web-1'' lb_pending, Accepted ''web-1'' lb_ready]\<rparr>,
     sm_lastPublished := [''web-1'' \<mapsto> lb_pending], sm_lastSubmitted := [''web-1'' \<mapsto> lb_ready],
     sm_log := [Noticed lb_pending, Checked lb_pending, Recorded lb_pending, Noticed lb_ready, Checked lb_ready, Noticed lb_pending]\<rparr>"

lemma mon_ready_waiting_reach: "monitor_reach network_notice_event network_submitIfChanged True mon_ready_waiting"
proof -
  define m1 where "m1 = pass_run network_submitIfChanged lb_ready mon_pending"
  have r1: "monitor_reach network_notice_event network_submitIfChanged True m1" unfolding m1_def
    by (rule pass_run_reach [where src = network_notice_event, OF mon_pending_reach lb_notices(2)])
      (simp_all add: mon_pending_eq network_submitIfChanged_def same_as_published_def enqueue_event_def NewStatusMonitor_def)
  have "m1 = mon_pending\<lparr>sm_deb := Submit False ''web-1'' lb_ready (sm_deb mon_pending), sm_lastSubmitted := [''web-1'' \<mapsto> lb_ready],
      sm_gap := [], sm_log := sm_log mon_pending @ [Noticed lb_ready, Checked lb_ready]\<rparr>"
    unfolding m1_def by (subst pass_run_eq) (simp_all add: network_submitIfChanged_def same_as_published_def mon_pending_eq)
  then have m1: "network_submitIfChanged lb_pending (m1\<lparr>sm_log := sm_log m1 @ [Noticed lb_pending]\<rparr>) = mon_ready_waiting" "sm_gap m1 = []"
    by (simp_all add: network_submitIfChanged_def same_as_published_def mon_pending_eq mon_ready_waiting_def Submit_fresh NewDebouncer_def NewStatusMonitor_def)
  have "monitor_step network_notice_event network_submitIfChanged True m1 mon_ready_waiting"
    unfolding m1(1) [symmetric] by (rule monitor_step.notice [where src = network_notice_event, OF lb_notices(1)]) (simp add: m1(2))
  then show ?thesis by (rule monitor_reach.step [OF r1])
qed

lemma flapping_status_stale:
  "\<exists>m. monitor_reach network_notice_event network_submitIfChanged True m \<and> debouncer_idle (sm_deb m) \<and> sm_gap m = [] \<and>
     [e \<leftarrow> sm_log m. \<exists>x. e = Noticed x] = [Noticed lb_pending, Noticed lb_ready, Noticed lb_pending] \<and>
     published_events (sm_deb m) ''web-1'' = [lb_pending, lb_ready]"
proof -
  let ?st = "\<lparr>is_timer = Some 1, is_pending = lb_ready, is_ver = 1, is_draining = False\<rparr>"
  define m where "m = publish_run 1 ''web-1'' 1 mon_ready_waiting"
  have "monitor_reach network_notice_event network_submitIfChanged True m" unfolding m_def
    by (rule publish_run_reach [OF mon_ready_waiting_reach, where st = ?st])
      (simp_all add: mon_ready_waiting_def NewDebouncer_def NewStatusMonitor_def)
  moreover have m: "m = NewStatusMonitor\<lparr>sm_deb := NewDebouncer\<lparr>db_next := 2,
         db_log := [Accepted ''web-1'' lb_pending, Published ''web-1'' lb_pending, Accepted ''web-1'' lb_ready, Published ''web-1'' lb_ready]\<rparr>,
       sm_lastPublished := [''web-1'' \<mapsto> lb_ready], sm_lastSubmitted := [''web-1'' \<mapsto> lb_ready],
       sm_log := sm_log mon_ready_waiting @ [Recorded lb_ready]\<rparr>"
    unfolding m_def by (subst publish_run_eq [where st = ?st and e = lb_ready])
      (simp_all add: mon_ready_waiting_def NewDebouncer_def NewStatusMonitor_def empty_upd_None)
  moreover have "debouncer_idle (sm_deb m)" "sm_gap m = []" unfolding m by (simp_all add: debouncer_idle_def NewDebouncer_def NewStatusMonitor_def)
  moreover have "[e \<leftarrow> sm_log m. \<exists>x. e = Noticed x] = [Noticed lb_pending, Noticed lb_ready, Noticed lb_pending]"
    unfolding m by (simp add: mon_ready_waiting_def)
  moreover have "published_events (sm_deb m) ''web-1'' = [lb_pending, lb_ready]" unfolding m by (simp add: published_events_def)
  ultimately show ?thesis by blast
qed

text \<open>Three notices of one volume and their events.\<close>

definition vol_claim :: "string \<Rightarrow> pvc" where
  "vol_claim phase =
     \<lparr>pvc_Name = ''vol'', pvc_Namespace = ''apps'', pvc_Labels = dcm_Labels ''storage'' ''vol-1'', pvc_CreationTimestamp = 1, pvc_DeletionTimestamp = None,
      pvc_AccessModes = [''ReadWriteOnce''], pvc_StorageRequest = None, pvc_StorageClassName = None, pvc_VolumeName = '''', pvc_VolumeMode = None,
      pvc_Phase = phase, pvc_Conditions = []\<rparr>"

definition vol_warning :: k8s_event where
  "vol_warning = \<lparr>ev_Type = ''Warning'', ev_Kind = ''PersistentVolumeClaim'', ev_Namespace = ''apps'', ev_Name = ''vol'',
     ev_Reason = ''ProvisioningFailed'', ev_Message = ''''\<rparr>"

definition vol_pending :: status_event where
  "vol_pending = \<lparr>se_InstanceID = ''vol-1'', se_Status = ''PROVISIONING'', se_Message = ''PVC is pending binding''\<rparr>"

definition vol_running :: status_event where
  "vol_running = \<lparr>se_InstanceID = ''vol-1'', se_Status = ''RUNNING'', se_Message = ''PVC is bound''\<rparr>"

definition vol_failed :: status_event where
  "vol_failed = \<lparr>se_InstanceID = ''vol-1'', se_Status = ''FAILED'', se_Message = ''PVC failure: ProvisioningFailed''\<rparr>"

lemma vol_notices:
  "storage_notice_event ''apps'' (PVCSeen (vol_claim ''Pending'')) = Some vol_pending"
  "storage_notice_event ''apps'' (PVCSeen (vol_claim ''Bound'')) = Some vol_running"
  "storage_notice_event ''apps'' (WarningSeen (\<lambda>ns n. Some (vol_claim ''Pending'')) vol_warning) = Some vol_failed"
  by (simp_all add: storage_notice_event_def handlePVCEvent_def vol_claim_def MapPVCToStatus_def ExtractInstanceID_def label_at_def
      vol_pending_def vol_running_def vol_failed_def handleWarningEvent_def isTerminalPVCWarning_def
      terminalPVCWarningReasons_def vol_warning_def)

lemma vol_simps [simp]:
  "se_InstanceID vol_pending = ''vol-1''" "se_InstanceID vol_running = ''vol-1''" "se_InstanceID vol_failed = ''vol-1''"
  "se_Status vol_pending = ''PROVISIONING''" "se_Status vol_running = ''RUNNING''" "se_Status vol_failed = ''FAILED''"
  by (simp_all add: vol_pending_def vol_running_def vol_failed_def)

lemma notice_passes:
  assumes "monitor_reach src check sq m" "src n = Some e" "sq \<longrightarrow> sm_gap m = []"
    and "check e (m\<lparr>sm_log := sm_log m @ [Noticed e]\<rparr>) = enqueue_event (m\<lparr>sm_log := sm_log m @ [Noticed e]\<rparr>) e"
  shows "monitor_reach src check sq
    (m\<lparr>sm_lastSubmitted := (sm_lastSubmitted m)(se_InstanceID e \<mapsto> e), sm_gap := sm_gap m @ [e], sm_log := sm_log m @ [Noticed e, Checked e]\<rparr>)"
  using monitor_reach.step [OF assms(1) monitor_step.notice [where src = src, OF assms(2,3)]] assms(4) by (simp add: enqueue_event_def)

definition vol_checked :: "status_event list \<Rightarrow> status_monitor" where
  "vol_checked es = NewStatusMonitor\<lparr>sm_lastSubmitted := (if es = [] then Map.empty else [''vol-1'' \<mapsto> last es]), sm_gap := es,
     sm_log := concat (map (\<lambda>e. [Noticed e, Checked e]) es)\<rparr>"

lemma vol_checked_reach:
  assumes "monitor_reach (storage_notice_event ''apps'') storage_submitIfChanged False (vol_checked es)"
    and "storage_notice_event ''apps'' n = Some e" "se_InstanceID e = ''vol-1''"
    and "es = [] \<or> se_Status (last es) \<noteq> ''FAILED'' \<or> se_Status e \<noteq> ''PROVISIONING''"
  shows "monitor_reach (storage_notice_event ''apps'') storage_submitIfChanged False (vol_checked (es @ [e]))"
  using notice_passes [where src = "storage_notice_event ''apps''", OF assms(1,2)] assms(3,4)
  by (cases "es = []") (auto simp: vol_checked_def storage_submitIfChanged_def same_as_published_def latched_def NewStatusMonitor_def)

lemma vol_checked_init: "monitor_reach (storage_notice_event ''apps'') storage_submitIfChanged False (vol_checked [])"
  using monitor_reach.init by (simp add: vol_checked_def NewStatusMonitor_def)

theorem storage_failure_latched_witness:
  "monitor_reach (storage_notice_event ''apps'') storage_submitIfChanged False (vol_checked [vol_failed, vol_running, vol_pending]) \<and>
   list_ex (log_touches ''vol-1'') [Noticed vol_running, Checked vol_running, Noticed vol_pending]"
proof -
  let ?r = "monitor_reach (storage_notice_event ''apps'') storage_submitIfChanged False"
  have 1: "?r (vol_checked [vol_failed])" using vol_checked_reach [OF vol_checked_init vol_notices(3)] by simp
  have 2: "?r (vol_checked [vol_failed, vol_running])" using vol_checked_reach [OF 1 vol_notices(2)] by simp
  have 3: "?r (vol_checked [vol_failed, vol_running, vol_pending])" using vol_checked_reach [OF 2 vol_notices(1)] by simp
  show ?thesis
    using storage_failure_latched [OF 3, of "[Noticed vol_failed]" vol_failed "[Noticed vol_running, Checked vol_running, Noticed vol_pending]" vol_pending "[]"] 3
    by (simp add: vol_checked_def)
qed

text \<open>The latch orders the decisions, not the submissions: the callbacks of the two informers release the mutex before they call the
  debouncer.  A \<open>PROVISIONING\<close> event that passed before the failure reaches the debouncer after it, replaces it, and is published: the
  failure passed the check and is not published.\<close>

definition vol_submitted :: status_monitor where
  "vol_submitted = NewStatusMonitor\<lparr>sm_deb := NewDebouncer\<lparr>
       db_instances := [''vol-1'' \<mapsto> \<lparr>is_timer = Some 1, is_pending = vol_pending, is_ver = 2, is_draining = False\<rparr>],
       db_ids := [''vol-1''], db_callbacks := [1 \<mapsto> (''vol-1'', 2)], db_next := 2,
       db_log := [Accepted ''vol-1'' vol_failed, Accepted ''vol-1'' vol_pending]\<rparr>,
     sm_lastSubmitted := [''vol-1'' \<mapsto> vol_failed],
     sm_log := [Noticed vol_pending, Checked vol_pending, Noticed vol_failed, Checked vol_failed]\<rparr>"

lemma vol_submitted_reach: "monitor_reach (storage_notice_event ''apps'') storage_submitIfChanged False vol_submitted"
proof -
  let ?r = "monitor_reach (storage_notice_event ''apps'') storage_submitIfChanged False"
  let ?m = "vol_checked [vol_pending, vol_failed]"
  have 1: "?r (vol_checked [vol_pending])" using vol_checked_reach [OF vol_checked_init vol_notices(1)] by simp
  have 2: "?r ?m" using vol_checked_reach [OF 1 vol_notices(3)] by simp
  let ?n = "?m\<lparr>sm_gap := [vol_pending], sm_deb := Submit False ''vol-1'' vol_failed (sm_deb ?m)\<rparr>"
  have "sm_gap ?m = [vol_pending] @ vol_failed # []" by (simp add: vol_checked_def)
  from monitor_reach.step [OF 2 monitor_step.submit [OF this, where fired = False]]
  have 3: "?r ?n" by simp
  have "sm_gap ?n = [] @ vol_pending # []" by simp
  from monitor_reach.step [OF 3 monitor_step.submit [OF this, where fired = False]]
  have "?r (?n\<lparr>sm_gap := [], sm_deb := Submit False ''vol-1'' vol_pending (sm_deb ?n)\<rparr>)" by simp
  then show ?thesis
    by (simp add: vol_checked_def vol_submitted_def NewStatusMonitor_def NewDebouncer_def Submit_def get_or_new_def put_instance_def stop_timer_def
        Let_def empty_upd_None numeral_2_eq_2)
qed

lemma failure_overtaken:
  "\<exists>m. monitor_reach (storage_notice_event ''apps'') storage_submitIfChanged False m \<and> debouncer_idle (sm_deb m) \<and> sm_gap m = [] \<and>
     checked m ''vol-1'' = [vol_pending, vol_failed] \<and> published_events (sm_deb m) ''vol-1'' = [vol_pending]"
proof -
  let ?st = "\<lparr>is_timer = Some 1, is_pending = vol_pending, is_ver = 2, is_draining = False\<rparr>"
  define m where "m = publish_run 1 ''vol-1'' 2 vol_submitted"
  have "monitor_reach (storage_notice_event ''apps'') storage_submitIfChanged False m" unfolding m_def
    by (rule publish_run_reach [OF vol_submitted_reach, where st = ?st]) (simp_all add: vol_submitted_def NewDebouncer_def NewStatusMonitor_def)
  moreover have m: "m = NewStatusMonitor\<lparr>sm_deb := NewDebouncer\<lparr>db_next := 2,
         db_log := [Accepted ''vol-1'' vol_failed, Accepted ''vol-1'' vol_pending, Published ''vol-1'' vol_pending]\<rparr>,
       sm_lastPublished := [''vol-1'' \<mapsto> vol_pending], sm_lastSubmitted := [''vol-1'' \<mapsto> vol_failed],
       sm_log := sm_log vol_submitted @ [Recorded vol_pending]\<rparr>"
    unfolding m_def by (subst publish_run_eq [where st = ?st and e = vol_pending])
      (simp_all add: vol_submitted_def NewDebouncer_def NewStatusMonitor_def empty_upd_None)
  moreover have "debouncer_idle (sm_deb m)" "sm_gap m = []" unfolding m by (simp_all add: debouncer_idle_def NewDebouncer_def NewStatusMonitor_def)
  moreover have "checked m ''vol-1'' = [vol_pending, vol_failed]" unfolding m by (simp add: checked_def vol_submitted_def)
  moreover have "published_events (sm_deb m) ''vol-1'' = [vol_pending]" unfolding m by (simp add: published_events_def)
  ultimately show ?thesis by blast
qed

end
