(* ===== verification/Vm_Provider.thy ===== *)
theory Vm_Provider
  imports Kube_Api
begin

text \<open>
  The embedded virtual machine provider: the translation between the API's \<open>VMSpec\<close> and a KubeVirt VirtualMachine
  (\<open>openshift/kubevirtvm/kubevirt/mapper.go\<close>), the client (\<open>client.go\<close>), the handler the router calls
  (\<open>embedded/vm/handler.go\<close>) and the event of each VirtualMachineInstance notice (\<open>openshift/kubevirtvm/monitor\<close>).

  \<open>resource.ParseQuantity\<close> is the parameter \<open>ql_Parse\<close>, \<open>resource.MustParse\<close>, which the code calls on decimal integers and on
  canonical quantities only, is \<open>ql_MustParse\<close>, and \<open>resource.NewQuantity(n, BinarySI).String()\<close> is \<open>ql_BinarySI\<close>.  The \<open>float64\<close> conversion
  of a decimal number of megabytes or gigabytes is \<open>ql_FloatBytes\<close>, from the unit and the numeral to the number of bytes.
\<close>

section \<open>API types\<close>

record vm_disk_spec =
  ds_Name :: string
  ds_Capacity :: string

record vm_spec =
  vs_Name :: string \<comment> \<open>\<open>Metadata.Name\<close>\<close>
  vs_Vcpu :: int
  vs_Memory :: string
  vs_GuestOs :: string
  vs_Disks :: "vm_disk_spec list"

record quantity_lib =
  ql_Parse :: "string \<Rightarrow> quantity option"
  ql_MustParse :: "string \<Rightarrow> quantity"
  ql_BinarySI :: "int \<Rightarrow> string"
  ql_FloatBytes :: "int \<Rightarrow> string \<Rightarrow> int option"

section \<open>Mapper\<close>

definition osImageCentosStream :: string where "osImageCentosStream = ''quay.io/containerdisks/centos-stream:latest''"
definition osImageCirros :: string where "osImageCirros = ''quay.io/kubevirt/cirros-container-disk-demo:latest''"

definition osImages :: "(string \<times> string) list" where
  "osImages =
     [(''ubuntu'', ''quay.io/containerdisks/ubuntu:latest''), (''centos'', osImageCentosStream), (''centos-stream'', osImageCentosStream),
      (''fedora'', ''quay.io/containerdisks/fedora:latest''), (''cirros'', osImageCirros), (''debian'', ''quay.io/containerdisks/debian:latest'')]"

definition getContainerDiskImage :: "string \<Rightarrow> string" where
  "getContainerDiskImage guestOS = (case map_of osImages (to_lower guestOS) of Some img \<Rightarrow> img | None \<Rightarrow> osImageCirros)"

definition boots :: "nat \<Rightarrow> vm_disk_spec \<Rightarrow> bool" where
  "boots i d \<longleftrightarrow> i = 0 \<or> ds_Name d = ''boot''"

definition boot_disk :: vm_disk where
  "boot_disk = \<lparr>vd_Name = ''boot'', vd_Bus = ''virtio'', vd_BootOrder = Some 1\<rparr>"

definition buildDisks :: "vm_spec \<Rightarrow> vm_disk list" where
  "buildDisks spec =
     (let disks = map (\<lambda>(i, d). \<lparr>vd_Name = ds_Name d, vd_Bus = ''virtio'', vd_BootOrder = (if boots i d then Some 1 else None)\<rparr>)
                      (List.enumerate 0 (vs_Disks spec))
      in if disks = [] then [boot_disk] else disks)"

definition buildVolumes :: "quantity_lib \<Rightarrow> vm_spec \<Rightarrow> (string \<times> volume_source) list" where
  "buildVolumes lib spec =
     (let os = ContainerDisk (getContainerDiskImage (vs_GuestOs spec));
          volumes = map (\<lambda>(i, d). (ds_Name d, if boots i d then os else EmptyDisk (ql_MustParse lib ''10Gi''))) (List.enumerate 0 (vs_Disks spec))
      in if volumes = [] then [(''boot'', os)] else volumes)"

definition parseMemorySize :: "quantity_lib \<Rightarrow> string \<Rightarrow> string option" where
  "parseMemorySize lib sizeStr =
     (let s = trim_space sizeStr
      in case ql_Parse lib s of
           Some q \<Rightarrow> Some (q_String q)
         | None \<Rightarrow>
             (case cut_suffix (to_upper s) ''GB'' of
                Some num \<Rightarrow> map_option (ql_BinarySI lib) (ql_FloatBytes lib (10 ^ 9) num)
              | None \<Rightarrow>
                  (case cut_suffix (to_upper s) ''MB'' of
                     Some num \<Rightarrow> map_option (ql_BinarySI lib) (ql_FloatBytes lib (10 ^ 6) num)
                   | None \<Rightarrow> map_option (\<lambda>n. ql_BinarySI lib (wrap64 (n * 1024 * 1024))) (parse_int64 s))))"

definition buildResources :: "quantity_lib \<Rightarrow> vm_spec \<Rightarrow> (string \<times> quantity) list" where
  "buildResources lib spec =
     (''cpu'', ql_MustParse lib (show_int (vs_Vcpu spec))) #
     (case parseMemorySize lib (vs_Memory spec) of Some m \<Rightarrow> [(''memory'', ql_MustParse lib m)] | None \<Rightarrow> [])"

definition vm_labels :: "string \<Rightarrow> labels" where
  "vm_labels vmID = [(LabelManagedBy, ValueManagedByDCM), (LabelInstanceID, vmID)]"

definition VMSpecToVirtualMachine :: "quantity_lib \<Rightarrow> string \<Rightarrow> vm_spec \<Rightarrow> string \<Rightarrow> virtual_machine" where
  "VMSpecToVirtualMachine lib ns spec vmID =
     \<lparr>vm_Name = '''', vm_GenerateName = ''dcm-'', vm_Namespace = ns, vm_Labels = vm_labels vmID, vm_RunStrategy = ''Always'',
      vm_TemplateLabels = vm_labels vmID, vm_Disks = buildDisks spec, vm_Interfaces = [(''default'', ''virtio'')],
      vm_Requests = buildResources lib spec, vm_Machine = ''q35'', vm_Networks = [''default''], vm_Volumes = buildVolumes lib spec\<rparr>"

definition inferGuestOSFromImage :: "string \<Rightarrow> string" where
  "inferGuestOSFromImage img =
     (let img = to_lower img
      in if str_contains img ''ubuntu'' then ''ubuntu''
         else if str_contains img ''centos'' then ''centos''
         else if str_contains img ''fedora'' then ''fedora''
         else ''cirros'')"

text \<open>\<open>strconv.Atoi\<close> is \<open>parse_int64\<close>; the fields the mapper does not set keep their zero values.\<close>

definition VirtualMachineToVMSpec :: "virtual_machine \<Rightarrow> vm_spec" where
  "VirtualMachineToVMSpec vm =
     \<lparr>vs_Name = '''',
      vs_Vcpu = (case map_of (vm_Requests vm) ''cpu'' of
                   Some q \<Rightarrow> (case parse_int64 (q_String q) of Some n \<Rightarrow> n | None \<Rightarrow> 0)
                 | None \<Rightarrow> 0),
      vs_Memory = (case map_of (vm_Requests vm) ''memory'' of Some q \<Rightarrow> q_String q | None \<Rightarrow> ''''),
      vs_GuestOs = (case vm_Volumes vm of (_, ContainerDisk img) # _ \<Rightarrow> inferGuestOSFromImage img | _ \<Rightarrow> ''cirros''),
      vs_Disks = (case vm_Disks vm of
                    [] \<Rightarrow> [\<lparr>ds_Name = ''boot'', ds_Capacity = ''''\<rparr>]
                  | ds \<Rightarrow> map (\<lambda>d. \<lparr>ds_Name = vd_Name d, ds_Capacity = ''''\<rparr>) ds)\<rparr>"

section \<open>Client\<close>

definition vm_not_found :: "string \<Rightarrow> go_error" where
  "vm_not_found vmID =
     (let msg = ''virtualmachines.kubevirt.io '' @ go_quote vmID @ '' not found''
      in KubeError \<lparr>ke_Reason = NotFound, ke_Status = Some (404, msg), ke_Causes = Some [], ke_Error = msg\<rparr>)"

definition GetVirtualMachine :: "kube_env \<Rightarrow> string \<Rightarrow> kube_trace \<Rightarrow> string \<Rightarrow> kube_trace \<times> (go_error + virtual_machine)" where
  "GetVirtualMachine env ns tr vmID =
     (case kube (k_list_vms env) tr (ListVMs ns [(LabelInstanceID, vmID)]) of
        (tr, Inl e) \<Rightarrow> (tr, Inl (Wrapped ''failed to get VirtualMachine by dcmlabelinstanceid'' (KubeError e)))
      | (tr, Inr []) \<Rightarrow> (tr, Inl (vm_not_found vmID))
      | (tr, Inr (vm # _)) \<Rightarrow> (tr, Inr vm))"

definition CreateVirtualMachine :: "kube_env \<Rightarrow> string \<Rightarrow> kube_trace \<Rightarrow> virtual_machine \<Rightarrow> kube_trace \<times> (go_error + virtual_machine)" where
  "CreateVirtualMachine env ns tr vm =
     (case kube (k_write_vm env) tr (CreateVM ns vm) of
        (tr, Inl e) \<Rightarrow> (tr, Inl (Wrapped ''failed to create VirtualMachine'' (KubeError e)))
      | (tr, Inr r) \<Rightarrow> (tr, Inr r))"

definition ListVirtualMachines :: "kube_env \<Rightarrow> string \<Rightarrow> kube_trace \<Rightarrow> labels \<Rightarrow> kube_trace \<times> (go_error + virtual_machine list)" where
  "ListVirtualMachines env ns tr selector =
     (case kube (k_list_vms env) tr (ListVMs ns selector) of
        (tr, Inl e) \<Rightarrow> (tr, Inl (KubeError e))
      | (tr, Inr vms) \<Rightarrow> (tr, Inr vms))"

definition UpdateVirtualMachine :: "kube_env \<Rightarrow> string \<Rightarrow> kube_trace \<Rightarrow> virtual_machine \<Rightarrow> kube_trace \<times> (go_error + virtual_machine)" where
  "UpdateVirtualMachine env ns tr vm =
     (case kube (k_write_vm env) tr (UpdateVM ns vm) of
        (tr, Inl e) \<Rightarrow> (tr, Inl (KubeError e))
      | (tr, Inr r) \<Rightarrow> (tr, Inr r))"

definition DeleteVirtualMachine :: "kube_env \<Rightarrow> string \<Rightarrow> kube_trace \<Rightarrow> string \<Rightarrow> kube_trace \<times> go_error option" where
  "DeleteVirtualMachine env ns tr vmID =
     (case GetVirtualMachine env ns tr vmID of
        (tr, Inl e) \<Rightarrow> (tr, Some e)
      | (tr, Inr vm) \<Rightarrow>
          (case kube (k_delete env) tr (DeleteVM ns (vm_Name vm)) of (tr, r) \<Rightarrow> (tr, map_option KubeError r)))"

section \<open>The embedded handler\<close>

definition parseVMSpec :: "vm_spec spec_codec \<Rightarrow> json option \<Rightarrow> string + vm_spec" where
  "parseVMSpec codec raw =
     (case SpecJSON codec raw of
        Inl e \<Rightarrow> Inl e
      | Inr payload \<Rightarrow>
          (case dec_spec codec payload of
             Inl e \<Rightarrow> Inl (''invalid VM spec: '' @ e)
           | Inr spec \<Rightarrow> if vs_Name spec = '''' then Inl ''spec.metadata.name is required'' else Inr spec))"

definition mapKubeVirtError :: "go_error \<Rightarrow> fwd_error" where
  "mapKubeVirtError e =
     (case root_cause e of
        KubeError k \<Rightarrow>
          (case ke_Status k of
             Some (code, _) \<Rightarrow> SPResponseError (if code \<in> {409, 422, 400, 404} then code else 500) (error_text e)
           | None \<Rightarrow> SPResponseError 500 (error_text e))
      | _ \<Rightarrow> SPResponseError 500 (error_text e))"

definition vm_CreateResource ::
  "vm_spec spec_codec \<Rightarrow> quantity_lib \<Rightarrow> kube_env \<Rightarrow> string \<Rightarrow> kube_trace \<Rightarrow> string \<Rightarrow> json option \<Rightarrow> kube_trace \<times> fwd_error option" where
  "vm_CreateResource codec lib env ns tr resourceID raw =
     (case parseVMSpec codec raw of
        Inl e \<Rightarrow> (tr, Some (SPResponseError 400 e))
      | Inr spec \<Rightarrow>
          (case GetVirtualMachine env ns tr resourceID of
             (tr, Inr _) \<Rightarrow> (tr, Some (SPResponseError 409 (''VM with instance ID '' @ resourceID @ '' already exists'')))
           | (tr, Inl _) \<Rightarrow>
               (case CreateVirtualMachine env ns tr (VMSpecToVirtualMachine lib ns spec resourceID) of
                  (tr, Inl e) \<Rightarrow> (tr, Some (mapKubeVirtError e))
                | (tr, Inr _) \<Rightarrow> (tr, None))))"

definition vm_DeleteResource :: "kube_env \<Rightarrow> string \<Rightarrow> kube_trace \<Rightarrow> string \<Rightarrow> kube_trace \<times> fwd_error option" where
  "vm_DeleteResource env ns tr resourceID =
     (case DeleteVirtualMachine env ns tr resourceID of
        (tr, Some e) \<Rightarrow> (tr, Some (mapKubeVirtError e))
      | (tr, None) \<Rightarrow> (tr, None))"

section \<open>Events\<close>

record vmi =
  vmi_Name :: string
  vmi_Namespace :: string
  vmi_Labels :: labels
  vmi_Phase :: string

record vm_info =
  vi_VMID :: string
  vi_VMName :: string
  vi_Namespace :: string
  vi_Phase :: string

definition mapVMIPhase :: "string \<Rightarrow> string" where
  "mapVMIPhase phase =
     (if phase \<in> {''Pending'', ''Scheduling'', ''Scheduled'', ''Running'', ''Succeeded'', ''Failed'', ''Unknown''} then phase else ''Unknown'')"

definition ExtractVMInfo :: "vmi \<Rightarrow> vm_info" where
  "ExtractVMInfo v =
     \<lparr>vi_VMID = label_at (vmi_Labels v) LabelInstanceID, vi_VMName = vmi_Name v, vi_Namespace = vmi_Namespace v, vi_Phase = mapVMIPhase (vmi_Phase v)\<rparr>"

text \<open>\<open>None\<close>: an object that does not convert to a VirtualMachineInstance.  The result is the id and the status that are published.\<close>

definition handleVMEvent :: "vmi option \<Rightarrow> (string \<times> string) option" where
  "handleVMEvent obj =
     (case obj of
        None \<Rightarrow> None
      | Some v \<Rightarrow>
          if label_at (vmi_Labels v) LabelInstanceID = '''' then None
          else let info = ExtractVMInfo v in Some (vi_VMID info, vi_Phase info))"

section \<open>Requests\<close>

definition vm_accepts :: "vm_spec spec_codec \<Rightarrow> string \<Rightarrow> json option \<Rightarrow> bool" where
  "vm_accepts codec i raw \<longleftrightarrow> \<not> isl (parseVMSpec codec raw)"

lemma vm_refused: "\<not> vm_accepts codec i raw \<Longrightarrow> \<exists>m. vm_CreateResource codec lib env ns tr i raw = (tr, Some (SPResponseError 400 m))"
  by (auto simp: vm_accepts_def vm_CreateResource_def isl_def split: sum.splits)

lemma mapKubeVirtError_sp: "sp_error (Some (mapKubeVirtError e))"
  by (simp add: mapKubeVirtError_def sp_error_def split: go_error.split option.split)

text \<open>What an accepted request does: look the instance up, and create it unless the lookup found one.\<close>

lemma vm_accepted:
  assumes "vm_accepts codec i raw"
  obtains spec where "parseVMSpec codec raw = Inr spec"
    "vm_CreateResource codec lib env ns tr i raw =
       (let t1 = tr @ [ListVMs ns [(LabelInstanceID, i)]]; t2 = t1 @ [CreateVM ns (VMSpecToVirtualMachine lib ns spec i)]
        in case k_list_vms env t1 of
             Inr (_ # _) \<Rightarrow> (t1, Some (SPResponseError 409 (''VM with instance ID '' @ i @ '' already exists'')))
           | _ \<Rightarrow> (t2, case k_write_vm env t2 of
                        Inl e \<Rightarrow> Some (mapKubeVirtError (Wrapped ''failed to create VirtualMachine'' (KubeError e)))
                      | Inr _ \<Rightarrow> None))"
proof -
  from assms obtain spec where p: "parseVMSpec codec raw = Inr spec" by (cases "parseVMSpec codec raw") (auto simp: vm_accepts_def)
  show thesis
    by (rule that [OF p]) (auto simp: vm_CreateResource_def p GetVirtualMachine_def CreateVirtualMachine_def kube_def Let_def
        split: sum.split list.split)
qed

interpretation vm_h: embedded_handler "vm_accepts codec" "vm_CreateResource codec lib env ns" "vm_DeleteResource env ns"
  for codec lib env ns
proof
  fix i raw tr
  let ?r = "vm_CreateResource codec lib env ns tr i raw"
  show "\<not> vm_accepts codec i raw \<Longrightarrow> \<exists>m. ?r = (tr, Some (SPResponseError 400 m))" by (rule vm_refused)
  show "sp_error (snd ?r)"
  proof (cases "vm_accepts codec i raw")
    case True
    then show ?thesis
      by (rule vm_accepted [where lib = lib and env = env and ns = ns and tr = tr])
        (simp add: mapKubeVirtError_sp sp_error_def [of "Some (SPResponseError 409 _)"] Let_def split: sum.split list.split)
  qed (use vm_refused [of codec i raw lib env ns tr] in auto)
  show "sp_error (snd (vm_DeleteResource env ns tr i))"
    by (simp add: vm_DeleteResource_def mapKubeVirtError_sp split: prod.split option.split)
  show "\<exists>seg. fst ?r = tr @ seg \<and> list_all (\<lambda>c. creates c \<longrightarrow> vm_accepts codec i raw) seg"
  proof (cases "vm_accepts codec i raw")
    case True
    then show ?thesis
      by (rule vm_accepted [where lib = lib and env = env and ns = ns and tr = tr])
        (auto simp: Let_def True split: sum.split list.split)
  qed (use vm_refused [of codec i raw lib env ns tr] in auto)
  show "\<exists>seg. fst (vm_DeleteResource env ns tr i) = tr @ seg \<and> (\<forall>c \<in> set seg. \<not> creates c)"
    by (auto simp: vm_DeleteResource_def DeleteVirtualMachine_def GetVirtualMachine_def kube_def split: sum.split list.split option.split)
qed

section \<open>Created machines\<close>

text \<open>A machine that the cluster may be asked to create for instance \<open>i\<close>: the provider finds it and its instances by their labels, its disks and
  volumes correspond, it boots from an image of the table, and its interfaces are on the networks it has.\<close>

definition vm_wf :: "string \<Rightarrow> string \<Rightarrow> virtual_machine \<Rightarrow> bool" where
  "vm_wf ns i vm \<longleftrightarrow>
     vm_Namespace vm = ns \<and> map_of (vm_Labels vm) = [LabelManagedBy \<mapsto> ValueManagedByDCM, LabelInstanceID \<mapsto> i] \<and> vm_TemplateLabels vm = vm_Labels vm \<and>
     map vd_Name (vm_Disks vm) = map fst (vm_Volumes vm) \<and>
     list_all2 (\<lambda>d v. (vd_BootOrder d = Some 1) = (\<exists>img. snd v = ContainerDisk img \<and> img \<in> snd ` set osImages)) (vm_Disks vm) (vm_Volumes vm) \<and>
     (\<exists>d ds. vm_Disks vm = d # ds \<and> vd_BootOrder d = Some 1) \<and>
     map fst (vm_Interfaces vm) = vm_Networks vm"

lemma disk_image_known: "getContainerDiskImage os \<in> snd ` set osImages"
proof (cases "map_of osImages (to_lower os)")
  case None
  then show ?thesis by (simp add: getContainerDiskImage_def osImages_def)
next
  case (Some img)
  from map_of_SomeD [OF this] show ?thesis by (auto simp: getContainerDiskImage_def Some intro: rev_image_eqI)
qed

lemma built_vm_wf: "vm_wf ns i (VMSpecToVirtualMachine lib ns spec i)"
proof -
  have "\<exists>d ds. buildDisks spec = d # ds \<and> vd_BootOrder d = Some 1"
    by (cases "vs_Disks spec") (simp_all add: buildDisks_def boot_disk_def boots_def)
  moreover have "map vd_Name (buildDisks spec) = map fst (buildVolumes lib spec)"
    by (simp add: buildDisks_def buildVolumes_def Let_def boot_disk_def split_def comp_def)
  moreover have "list_all2 (\<lambda>d v. (vd_BootOrder d = Some 1) = (\<exists>img. snd v = ContainerDisk img \<and> img \<in> snd ` set osImages))
      (buildDisks spec) (buildVolumes lib spec)"
    by (auto simp: buildDisks_def buildVolumes_def Let_def boot_disk_def split_def disk_image_known list_all2_map1 list_all2_map2 list_all2_same)
  ultimately show ?thesis by (simp add: vm_wf_def VMSpecToVirtualMachine_def vm_labels_def fun_upd_twist)
qed

text \<open>C0: creating a virtual machine is safe.  A create request either is refused with 400 and no call, or looks the instance up; it
  then answers 409 if the lookup found one, and otherwise creates exactly one machine, well-formed and labelled for the instance, and succeeds exactly
  when the cluster accepts it.\<close>

theorem vm_create_safe:
  "let r = vm_CreateResource codec lib env ns tr i raw; t = tr @ [ListVMs ns [(LabelInstanceID, i)]]
   in (\<exists>m. r = (tr, Some (SPResponseError 400 m))) \<or>
      (\<exists>m v vs. k_list_vms env t = Inr (v # vs) \<and> r = (t, Some (SPResponseError 409 m))) \<or>
      (\<exists>vm. vm_wf ns i vm \<and> (\<forall>v vs. k_list_vms env t \<noteq> Inr (v # vs)) \<and> fst r = t @ [CreateVM ns vm] \<and>
         (snd r = None \<longleftrightarrow> \<not> isl (k_write_vm env (t @ [CreateVM ns vm]))))"
proof (cases "vm_accepts codec i raw")
  case True
  let ?t = "tr @ [ListVMs ns [(LabelInstanceID, i)]]"
  obtain spec where r: "vm_CreateResource codec lib env ns tr i raw =
       (let t1 = tr @ [ListVMs ns [(LabelInstanceID, i)]]; t2 = t1 @ [CreateVM ns (VMSpecToVirtualMachine lib ns spec i)]
        in case k_list_vms env t1 of
             Inr (_ # _) \<Rightarrow> (t1, Some (SPResponseError 409 (''VM with instance ID '' @ i @ '' already exists'')))
           | _ \<Rightarrow> (t2, case k_write_vm env t2 of
                        Inl e \<Rightarrow> Some (mapKubeVirtError (Wrapped ''failed to create VirtualMachine'' (KubeError e)))
                      | Inr _ \<Rightarrow> None))"
    using True by (rule vm_accepted [where lib = lib and env = env and ns = ns and tr = tr])
  show ?thesis
  proof (cases "\<exists>v vs. k_list_vms env ?t = Inr (v # vs)")
    case True
    then show ?thesis by (auto simp: r Let_def)
  next
    case False
    then show ?thesis unfolding Let_def
      by (intro disjI2 exI [of _ "VMSpecToVirtualMachine lib ns spec i"]) (auto simp: r Let_def built_vm_wf split: sum.split list.split)
  qed
qed (use vm_refused [of codec i raw lib env ns tr] in \<open>auto simp: Let_def\<close>)

text \<open>The lookup's error is not examined: when it fails, the machine is created whether or not the instance has one, and with a generated name
  the cluster accepts a second one.\<close>

lemma vm_created_unseen:
  assumes "vm_accepts codec i raw" "k_list_vms env (tr @ [ListVMs ns [(LabelInstanceID, i)]]) = Inl e"
  shows "\<exists>vm. fst (vm_CreateResource codec lib env ns tr i raw) = tr @ [ListVMs ns [(LabelInstanceID, i)], CreateVM ns vm] \<and> vm_Name vm = ''''"
  using assms(1) by (rule vm_accepted [where lib = lib and env = env and ns = ns and tr = tr])
    (simp add: assms(2) Let_def VMSpecToVirtualMachine_def)

text \<open>Deleting looks the instance up and deletes the first machine found, and nothing else.\<close>

lemma vm_delete_safe:
  "let r = vm_DeleteResource env ns tr i; t = tr @ [ListVMs ns [(LabelInstanceID, i)]]
   in (\<exists>v vs. k_list_vms env t = Inr (v # vs) \<and> fst r = t @ [DeleteVM ns (vm_Name v)] \<and> (snd r = None \<longleftrightarrow> k_delete env (fst r) = None)) \<or>
      (fst r = t \<and> snd r \<noteq> None \<and> (k_list_vms env t = Inr [] \<longrightarrow> (\<exists>m. snd r = Some (SPResponseError 404 m))))"
  by (auto simp: vm_DeleteResource_def DeleteVirtualMachine_def GetVirtualMachine_def kube_def Let_def vm_not_found_def mapKubeVirtError_def
      split: sum.split list.split option.split)

text \<open>The instances of a created machine carry its template labels: the monitor's selector matches them, and every notice of
  one publishes a status under the id of the request.\<close>

lemma created_vm_watched:
  assumes "i \<noteq> ''''" "vmi_Labels v = vm_TemplateLabels (VMSpecToVirtualMachine lib ns spec i)"
  shows "matches_selector [(LabelManagedBy, ValueManagedByDCM)] (vmi_Labels v)" "handleVMEvent (Some v) = Some (i, mapVMIPhase (vmi_Phase v))"
  using assms by (simp_all add: handleVMEvent_def ExtractVMInfo_def VMSpecToVirtualMachine_def vm_labels_def label_at_def matches_selector_def)

lemma map_enumerate_snd: "map (\<lambda>x. f (snd x)) (List.enumerate n xs) = map f xs"
  by (induction xs arbitrary: n) simp_all

text \<open>The disks read back as they were specified, without their capacity, which nothing of the machine depends on.\<close>

lemma vm_disks_read_back:
  "map ds_Name (vs_Disks (VirtualMachineToVMSpec (VMSpecToVirtualMachine lib ns spec i))) =
     (if vs_Disks spec = [] then [''boot''] else map ds_Name (vs_Disks spec))"
proof (cases "vs_Disks spec")
  case (Cons d ds)
  then have "buildDisks spec \<noteq> []" "map vd_Name (buildDisks spec) = map ds_Name (vs_Disks spec)"
    by (simp_all add: buildDisks_def Let_def split_def comp_def map_enumerate_snd)
  then show ?thesis using Cons by (auto simp: VirtualMachineToVMSpec_def VMSpecToVirtualMachine_def comp_def split: list.split)
qed (simp add: VirtualMachineToVMSpec_def VMSpecToVirtualMachine_def buildDisks_def boot_disk_def)

lemma capacity_ignored:
  "vs_Disks spec' = map (\<lambda>d. d\<lparr>ds_Capacity := c\<rparr>) (vs_Disks spec) \<Longrightarrow> vs_GuestOs spec' = vs_GuestOs spec \<Longrightarrow>
   buildDisks spec' = buildDisks spec \<and> buildVolumes lib spec' = buildVolumes lib spec"
  by (auto simp: buildDisks_def buildVolumes_def Let_def boots_def enumerate_map_upt split_def enumerate_eq_zip zip_map2)

text \<open>The API names guest systems as distribution and version; the table has distributions only, so that such a name gets the default image.
  A memory size in terabytes, a unit the API documents, gives a machine without a memory request.\<close>

lemma versioned_guest_os: "getContainerDiskImage ''ubuntu-22.04'' = osImageCirros" "getContainerDiskImage ''fedora-39'' = osImageCirros"
  by code_simp+

lemma terabytes_dropped: "ql_Parse lib ''1TB'' = None \<Longrightarrow> parseMemorySize lib ''1TB'' = None"
proof -
  have *: "trim_space ''1TB'' = ''1TB''" "cut_suffix (to_upper ''1TB'') ''GB'' = None" "cut_suffix (to_upper ''1TB'') ''MB'' = None" "parse_int64 ''1TB'' = None"
    by code_simp+
  show "ql_Parse lib ''1TB'' = None \<Longrightarrow> parseMemorySize lib ''1TB'' = None" by (simp only: parseMemorySize_def Let_def * option.case option.map)
qed

text \<open>A disk named \<open>boot\<close> that is not the first shares the boot order with the first.\<close>

lemma boot_order_shared:
  "map vd_BootOrder (buildDisks (spec\<lparr>vs_Disks := [\<lparr>ds_Name = ''data'', ds_Capacity = a\<rparr>, \<lparr>ds_Name = ''boot'', ds_Capacity = b\<rparr>]\<rparr>)) = [Some 1, Some 1]"
  by (simp add: buildDisks_def boots_def)

end
