(* ===== verification/Cluster_Status.thy ===== *)
theory Cluster_Status
  imports Agent_Prelude
begin

text \<open>
  Status monitoring of the ACM cluster provider: \<open>internal/openshift/acmcluster/service/status\<close> maps the conditions of HostedClusters and
  NodePools to cluster statuses and combines them, \<open>internal/openshift/acmcluster/monitoring/reconcile.go\<close> tracks them per instance and decides what
  to publish.  Objects come from the informers as untyped JSON; the handlers run one at a time under the mutex of \<open>reconcileState\<close>.
\<close>

section \<open>Conditions and statuses\<close>

datatype cluster_status =
    ClusterStatusREADY
  | ClusterStatusPENDING
  | ClusterStatusPROVISIONING
  | ClusterStatusUNAVAILABLE
  | ClusterStatusFAILED
  | ClusterStatusDELETING
  | ClusterStatusDELETED

record condition =
  cond_Type :: string
  cond_Status :: string
  cond_Message :: string

fun conditionIsTrue :: "condition list \<Rightarrow> string \<Rightarrow> bool" where
  "conditionIsTrue [] condType = False"
| "conditionIsTrue (c # cs) condType = (if cond_Type c = condType then cond_Status c = ''True'' else conditionIsTrue cs condType)"

fun conditionIsFalse :: "condition list \<Rightarrow> string \<Rightarrow> bool" where
  "conditionIsFalse [] condType = False"
| "conditionIsFalse (c # cs) condType = (if cond_Type c = condType then cond_Status c = ''False'' else conditionIsFalse cs condType)"

definition MapConditionsToStatus :: "condition list \<Rightarrow> bool \<Rightarrow> cluster_status" where
  "MapConditionsToStatus conditions deleting =
     (if deleting then ClusterStatusDELETING
      else if conditionIsTrue conditions ''Degraded'' then ClusterStatusFAILED
      else if conditionIsTrue conditions ''Available'' then ClusterStatusREADY
      else if conditionIsTrue conditions ''Progressing'' then ClusterStatusPROVISIONING
      else if conditionIsFalse conditions ''Available'' \<and> conditionIsFalse conditions ''Progressing'' then ClusterStatusUNAVAILABLE
      else ClusterStatusPENDING)"

definition MapNodePoolConditionsToStatus :: "condition list \<Rightarrow> cluster_status option" where
  "MapNodePoolConditionsToStatus conditions =
     (if conditions = [] then None
      else if conditionIsTrue conditions ''UpdatingVersion'' \<or> conditionIsTrue conditions ''UpdatingConfig'' then Some ClusterStatusPROVISIONING
      else if conditionIsFalse conditions ''Ready'' then Some ClusterStatusUNAVAILABLE
      else if conditionIsTrue conditions ''Ready'' then Some ClusterStatusREADY
      else Some ClusterStatusPENDING)"

fun StatusPriority :: "cluster_status \<Rightarrow> int" where
  "StatusPriority ClusterStatusREADY = 1"
| "StatusPriority ClusterStatusPENDING = 2"
| "StatusPriority ClusterStatusPROVISIONING = 3"
| "StatusPriority ClusterStatusUNAVAILABLE = 4"
| "StatusPriority ClusterStatusFAILED = 5"
| "StatusPriority ClusterStatusDELETING = 6"
| "StatusPriority ClusterStatusDELETED = 7"

definition ComputeCompositeStatus :: "cluster_status \<Rightarrow> cluster_status option \<Rightarrow> cluster_status" where
  "ComputeCompositeStatus hcStatus npStatus =
     (case npStatus of None \<Rightarrow> hcStatus | Some np \<Rightarrow> if StatusPriority np > StatusPriority hcStatus then np else hcStatus)"

section \<open>Objects\<close>

datatype any = AnyString string | AnyMap "(string \<times> any) list" | AnyList "any list" | AnyOther

datatype resource_type = HostedCluster | NodePool

record cluster_object =
  co_name :: string
  co_labels :: "(string \<times> string) list"
  co_deleting :: bool
  co_object :: "(string \<times> any) list"

definition clusterLabelInstanceID :: string where "clusterLabelInstanceID = ''dcm.project/dcm-instance-id''"

definition extractInstanceID :: "cluster_object \<Rightarrow> string" where
  "extractInstanceID obj = (case map_of (co_labels obj) clusterLabelInstanceID of Some i \<Rightarrow> i | None \<Rightarrow> '''')"

definition any_string :: "any option \<Rightarrow> string" where
  "any_string x = (case x of Some (AnyString s) \<Rightarrow> s | _ \<Rightarrow> '''')"

definition extractConditions :: "cluster_object \<Rightarrow> condition list" where
  "extractConditions obj =
     (case map_of (co_object obj) ''status'' of
        Some (AnyMap st) \<Rightarrow>
          (case map_of st ''conditions'' of
             Some (AnyList items) \<Rightarrow>
               List.map_filter
                 (\<lambda>item. case item of
                    AnyMap m \<Rightarrow> Some \<lparr>cond_Type = any_string (map_of m ''type''), cond_Status = any_string (map_of m ''status''),
                                  cond_Message = any_string (map_of m ''message'')\<rparr>
                  | _ \<Rightarrow> None) items
           | _ \<Rightarrow> [])
      | _ \<Rightarrow> [])"

definition message_of :: "condition list \<Rightarrow> string list \<Rightarrow> string" where
  "message_of conditions types = (case filter (\<lambda>c. cond_Type c \<in> set types) conditions of [] \<Rightarrow> '''' | c # _ \<Rightarrow> cond_Message c)"

definition extractHostedClusterMessage :: "condition list \<Rightarrow> cluster_status \<Rightarrow> string" where
  "extractHostedClusterMessage conditions dcmStatus =
     (case dcmStatus of
        ClusterStatusFAILED \<Rightarrow> message_of conditions [''Degraded'']
      | ClusterStatusUNAVAILABLE \<Rightarrow> message_of conditions [''Available'']
      | _ \<Rightarrow> '''')"

definition node_pool_message :: "condition list \<Rightarrow> string list \<Rightarrow> string" where
  "node_pool_message conditions types =
     (if \<exists>c \<in> set conditions. cond_Type c \<in> set types then ''NodePool: '' @ message_of conditions types else '''')"

definition extractNodePoolMessage :: "condition list \<Rightarrow> cluster_status \<Rightarrow> string" where
  "extractNodePoolMessage conditions dcmStatus =
     (case dcmStatus of
        ClusterStatusUNAVAILABLE \<Rightarrow> node_pool_message conditions [''Ready'']
      | ClusterStatusPROVISIONING \<Rightarrow> node_pool_message conditions [''UpdatingVersion'', ''UpdatingConfig'']
      | _ \<Rightarrow> '''')"

section \<open>Reconciliation\<close>

text \<open>The empty status of the code is \<^const>\<open>None\<close>.\<close>

record cluster_instance =
  ci_hcStatus :: "cluster_status option"
  ci_npStatus :: "cluster_status option"
  ci_hcMsg :: string
  ci_npMsg :: string
  ci_lastPublished :: "cluster_status option"
  ci_seenHC :: string
  ci_seenNP :: string

record cluster_event =
  ce_InstanceID :: string
  ce_Status :: cluster_status
  ce_Message :: string

type_synonym reconcile_state = "string \<Rightarrow> cluster_instance option"

definition getOrCreate :: "reconcile_state \<Rightarrow> string \<Rightarrow> cluster_instance" where
  "getOrCreate s i =
     (case s i of
        Some inst \<Rightarrow> inst
      | None \<Rightarrow> \<lparr>ci_hcStatus = None, ci_npStatus = None, ci_hcMsg = '''', ci_npMsg = '''', ci_lastPublished = None, ci_seenHC = '''', ci_seenNP = ''''\<rparr>)"

definition priority_of :: "cluster_status option \<Rightarrow> int" where
  "priority_of x = (case x of None \<Rightarrow> 0 | Some st \<Rightarrow> StatusPriority st)"

definition compositeMessage :: "cluster_instance \<Rightarrow> string" where
  "compositeMessage inst =
     (if ci_npStatus inst \<noteq> None \<and> priority_of (ci_npStatus inst) > priority_of (ci_hcStatus inst) then ci_npMsg inst else ci_hcMsg inst)"

definition note_name :: "resource_type \<Rightarrow> string \<Rightarrow> cluster_instance \<Rightarrow> cluster_instance" where
  "note_name rt name inst =
     (case rt of
        HostedCluster \<Rightarrow> if ci_seenHC inst = '''' then inst\<lparr>ci_seenHC := name\<rparr> else inst
      | NodePool \<Rightarrow> if ci_seenNP inst = '''' then inst\<lparr>ci_seenNP := name\<rparr> else inst)"

text \<open>The part of \<open>reconcileResource\<close> after the statuses have been updated.\<close>

definition publish_composite :: "reconcile_state \<Rightarrow> string \<Rightarrow> cluster_instance \<Rightarrow> cluster_status \<Rightarrow> reconcile_state \<times> cluster_event option" where
  "publish_composite s i inst hc =
     (let composite = ComputeCompositeStatus hc (ci_npStatus inst)
      in if ci_lastPublished inst = Some composite then (s(i \<mapsto> inst), None)
         else let inst = inst\<lparr>ci_lastPublished := Some composite\<rparr>
              in (s(i \<mapsto> inst), Some \<lparr>ce_InstanceID = i, ce_Status = composite, ce_Message = compositeMessage inst\<rparr>))"

definition reconcileResource :: "cluster_object \<Rightarrow> resource_type \<Rightarrow> reconcile_state \<Rightarrow> reconcile_state \<times> cluster_event option" where
  "reconcileResource obj rt s =
     (let i = extractInstanceID obj
      in if i = '''' then (s, None)
         else
           let conditions = extractConditions obj; inst = note_name rt (co_name obj) (getOrCreate s i)
           in case rt of
                HostedCluster \<Rightarrow>
                  let hcStatus = MapConditionsToStatus conditions (co_deleting obj)
                  in if ci_hcStatus inst = Some hcStatus then (s(i \<mapsto> inst), None)
                     else publish_composite s i (inst\<lparr>ci_hcMsg := extractHostedClusterMessage conditions hcStatus, ci_hcStatus := Some hcStatus\<rparr>) hcStatus
              | NodePool \<Rightarrow>
                  (case MapNodePoolConditionsToStatus conditions of
                     None \<Rightarrow> (s(i \<mapsto> inst), None)
                   | Some npStatus \<Rightarrow>
                       let inst' = inst\<lparr>ci_npMsg := extractNodePoolMessage conditions npStatus\<rparr>
                       in if ci_npStatus inst = Some npStatus then (s(i \<mapsto> inst'), None)
                          else
                            let inst = inst'\<lparr>ci_npStatus := Some npStatus\<rparr>
                            in case ci_hcStatus inst of None \<Rightarrow> (s(i \<mapsto> inst), None) | Some hc \<Rightarrow> publish_composite s i inst hc))"

text \<open>Delete notifications; \<^const>\<open>None\<close> is an object of another type, and the last known object of a missed deletion is unwrapped.\<close>

definition handleDeleteHostedCluster :: "cluster_object option \<Rightarrow> reconcile_state \<Rightarrow> reconcile_state \<times> cluster_event option" where
  "handleDeleteHostedCluster obj s =
     (case obj of
        None \<Rightarrow> (s, None)
      | Some uns \<Rightarrow>
          let i = extractInstanceID uns
          in if i = '''' then (s, None)
             else (s(i := None), Some \<lparr>ce_InstanceID = i, ce_Status = ClusterStatusDELETED, ce_Message = ''''\<rparr>))"

definition handleDeleteNodePool :: "cluster_object option \<Rightarrow> reconcile_state \<Rightarrow> reconcile_state \<times> cluster_event option" where
  "handleDeleteNodePool obj s =
     (case obj of
        None \<Rightarrow> (s, None)
      | Some uns \<Rightarrow>
          let i = extractInstanceID uns
          in if i = '''' then (s, None)
             else case s i of
                    None \<Rightarrow> (s, None)
                  | Some inst \<Rightarrow>
                      (case ci_hcStatus inst of
                         None \<Rightarrow> (s, None)
                       | Some hc \<Rightarrow>
                           let inst = inst\<lparr>ci_npStatus := None, ci_npMsg := '''', ci_seenNP := ''''\<rparr>
                           in if ci_lastPublished inst = Some hc then (s(i \<mapsto> inst), None)
                              else (s(i \<mapsto> inst\<lparr>ci_lastPublished := Some hc\<rparr>), Some \<lparr>ce_InstanceID = i, ce_Status = hc, ce_Message = ci_hcMsg inst\<rparr>)))"

section \<open>Runs\<close>

datatype cluster_notice = Observed resource_type cluster_object | Removed resource_type "cluster_object option"

fun notice_step :: "cluster_notice \<Rightarrow> reconcile_state \<Rightarrow> reconcile_state \<times> cluster_event option" where
  "notice_step (Observed rt obj) s = reconcileResource obj rt s"
| "notice_step (Removed HostedCluster obj) s = handleDeleteHostedCluster obj s"
| "notice_step (Removed NodePool obj) s = handleDeleteNodePool obj s"

definition watch :: "cluster_notice \<Rightarrow> reconcile_state \<times> cluster_event list \<Rightarrow> reconcile_state \<times> cluster_event list" where
  "watch n x = (case notice_step n (fst x) of (s, e) \<Rightarrow> (s, snd x @ (case e of None \<Rightarrow> [] | Some e \<Rightarrow> [e])))"

definition watch_all :: "cluster_notice list \<Rightarrow> reconcile_state \<times> cluster_event list" where
  "watch_all ns = fold watch ns (Map.empty, [])"

definition statuses :: "cluster_event list \<Rightarrow> string \<Rightarrow> cluster_status list" where
  "statuses es i = map ce_Status (filter (\<lambda>e. ce_InstanceID e = i) es)"

section \<open>What the published statuses should say\<close>

text \<open>The latest known status of the HostedCluster and of the NodePool of an instance.\<close>

fun observe :: "string \<Rightarrow> cluster_notice \<Rightarrow> cluster_status option \<times> cluster_status option \<Rightarrow> cluster_status option \<times> cluster_status option" where
  "observe i (Observed HostedCluster obj) v =
     (if extractInstanceID obj = i then (Some (MapConditionsToStatus (extractConditions obj) (co_deleting obj)), snd v) else v)"
| "observe i (Observed NodePool obj) v =
     (if extractInstanceID obj = i
      then (fst v, case MapNodePoolConditionsToStatus (extractConditions obj) of None \<Rightarrow> snd v | Some st \<Rightarrow> Some st) else v)"
| "observe i (Removed rt None) v = v"
| "observe i (Removed HostedCluster (Some obj)) v = (if extractInstanceID obj = i then (None, None) else v)"
| "observe i (Removed NodePool (Some obj)) v = (if extractInstanceID obj = i then (fst v, None) else v)"

definition cluster_view :: "string \<Rightarrow> cluster_notice list \<Rightarrow> cluster_status option \<times> cluster_status option" where
  "cluster_view i ns = fold (observe i) ns (None, None)"






lemma composite_None [simp]: "ComputeCompositeStatus hc None = hc"
  by (simp add: ComputeCompositeStatus_def)



lemma statuses_snoc [simp]: "statuses (es @ [e]) i = statuses es i @ (if ce_InstanceID e = i then [ce_Status e] else [])"
  by (simp add: statuses_def)



lemma note_name_fields [simp]:
  "ci_hcStatus (note_name rt n c) = ci_hcStatus c" "ci_npStatus (note_name rt n c) = ci_npStatus c" "ci_lastPublished (note_name rt n c) = ci_lastPublished c"
  by (simp_all add: note_name_def split: resource_type.splits)











section \<open>Properties\<close>


section \<open>Sample runs\<close>

definition sample_object :: "string \<Rightarrow> string \<Rightarrow> cluster_object" where
  "sample_object type value = \<lparr>co_name = ''c1'', co_labels = [(clusterLabelInstanceID, ''i1'')], co_deleting = False,
     co_object = [(''status'', AnyMap [(''conditions'', AnyList [AnyMap [(''type'', AnyString type), (''status'', AnyString value)]])])]\<rparr>"

lemmas sample_watch_defs = watch_all_def watch_def reconcileResource_def publish_composite_def handleDeleteNodePool_def sample_object_def extractInstanceID_def
  extractConditions_def MapConditionsToStatus_def MapNodePoolConditionsToStatus_def ComputeCompositeStatus_def getOrCreate_def note_name_def any_string_def
  clusterLabelInstanceID_def statuses_def cluster_view_def Let_def List.map_filter_simps


text \<open>Without that proviso the status of a removed NodePool is kept: \<open>handleDeleteNodePool\<close> returns early while the HostedCluster is unknown.\<close>

lemma removed_node_pool_kept:
  "statuses (snd (watch_all [Observed NodePool (sample_object ''Ready'' ''False''), Removed NodePool (Some (sample_object ''Ready'' ''False'')),
     Observed HostedCluster (sample_object ''Available'' ''True'')])) ''i1'' = [ClusterStatusUNAVAILABLE]"
  by (simp add: sample_watch_defs)

end
