(* ===== verification/Cluster_Provider.thy ===== *)
theory Cluster_Provider
  imports Page_Token Cluster_Status "HOL-Library.List_Lexorder" "HOL-Library.Char_ord"
begin

text \<open>
  The embedded ACM cluster provider: versions and release images (\<open>openshift/acmcluster/version\<close>), the KubeVirt and bare metal builders and the
  shared operations (\<open>openshift/acmcluster/cluster\<close>), its domain errors (\<open>service/errors.go\<close>, \<open>app/errors.go\<close>), the health check (\<open>health/health.go\<close>)
  and the handler the router calls (\<open>embedded/cluster/handler.go\<close>).

  Every error of these operations is a \<open>DomainError\<close>.  \<open>resource.ParseQuantity\<close> is the parameter \<open>pq\<close>, and \<open>None\<close> an error of it; the compatibility
  matrix, a Go map, is an association list in the order in which a \<open>range\<close> over it runs.
\<close>

section \<open>API types\<close>

record acm_hints =
  ah_AgentLabels :: "labels option"
  ah_BaseDomain :: "string option"
  ah_InfraEnv :: "string option"
  ah_Platform :: "string option"
  ah_ReleaseImage :: "string option"

record control_plane_spec =
  cp_Cpu :: "int option"
  cp_Memory :: "string option"

record worker_spec =
  w_Count :: "int option"
  w_Cpu :: "int option"
  w_Memory :: "string option"
  w_Storage :: "string option"

text \<open>\<open>cls_Hints\<close> is \<open>ProviderHints.Acm\<close>, \<open>cls_ControlPlane\<close> and \<open>cls_Workers\<close> are the fields of \<open>Nodes\<close>; \<open>None\<close> if a pointer on the way is nil.\<close>

record cluster_spec =
  cls_Name :: string
  cls_Version :: string
  cls_ServiceType :: string
  cls_ControlPlane :: "control_plane_spec option"
  cls_Workers :: "worker_spec option"
  cls_Hints :: "acm_hints option"

record acm_cluster =
  cl_Id :: string
  cl_Path :: string
  cl_Status :: cluster_status
  cl_StatusMessage :: "string option"
  cl_CreateTime :: "time option"
  cl_UpdateTime :: "time option"
  cl_ApiEndpoint :: "string option"
  cl_ConsoleUri :: "string option"
  cl_Kubeconfig :: "string option"
  cl_Spec :: cluster_spec

record cluster_config =
  ccf_ClusterNamespace :: string
  ccf_BaseDomain :: string
  ccf_PullSecret :: string
  ccf_PullSecretName :: string
  ccf_ConsoleURIPattern :: string
  ccf_DefaultInfraEnv :: string
  ccf_AgentNamespace :: string
  ccf_InfraEnvLabelKey :: string
  ccf_VersionMatrix :: "(string \<times> string) list"

section \<open>Errors\<close>

datatype error_type =
    INVALID_ARGUMENT | NOT_FOUND | ALREADY_EXISTS | UNPROCESSABLE_ENTITY | INTERNAL_ERROR | UNAVAILABLE | PERMISSION_DENIED | UNAUTHENTICATED

record domain_error =
  de_Type :: error_type
  de_Message :: string
  de_Detail :: string
  de_Cause :: "string option"

definition domain_err :: "error_type \<Rightarrow> string \<Rightarrow> domain_error" where
  "domain_err t msg = \<lparr>de_Type = t, de_Message = msg, de_Detail = '''', de_Cause = None\<rparr>"

definition NewInternalError :: "string \<Rightarrow> string \<Rightarrow> domain_error" where
  "NewInternalError msg cause = \<lparr>de_Type = INTERNAL_ERROR, de_Message = msg, de_Detail = '''', de_Cause = Some cause\<rparr>"

fun httpStatusForErrorType :: "error_type \<Rightarrow> int" where
  "httpStatusForErrorType INVALID_ARGUMENT = 400"
| "httpStatusForErrorType NOT_FOUND = 404"
| "httpStatusForErrorType ALREADY_EXISTS = 409"
| "httpStatusForErrorType UNPROCESSABLE_ENTITY = 422"
| "httpStatusForErrorType UNAVAILABLE = 503"
| "httpStatusForErrorType PERMISSION_DENIED = 403"
| "httpStatusForErrorType UNAUTHENTICATED = 401"
| "httpStatusForErrorType INTERNAL_ERROR = 500"

definition MapOperationError :: "domain_error \<Rightarrow> int \<times> string" where
  "MapOperationError e =
     (httpStatusForErrorType (de_Type e),
      if de_Type e = INTERNAL_ERROR then ''an internal error occurred''
      else if de_Detail e \<noteq> '''' then de_Detail e else de_Message e)"

section \<open>Versions\<close>

definition DefaultCompatibilityMatrix :: "(string \<times> string) list" where
  "DefaultCompatibilityMatrix =
     [(''4.14'', ''1.27''), (''4.15'', ''1.28''), (''4.16'', ''1.29''), (''4.17'', ''1.30''), (''4.18'', ''1.31''), (''4.19'', ''1.32''),
      (''4.20'', ''1.33''), (''4.21'', ''1.34'')]"

text \<open>The part of a string before the first \<open>c\<close>, and the part after it if there is one.\<close>

definition cut_at :: "char \<Rightarrow> string \<Rightarrow> string \<times> string option" where
  "cut_at c s = (case dropWhile (\<lambda>x. x \<noteq> c) s of [] \<Rightarrow> (s, None) | _ # rest \<Rightarrow> (takeWhile (\<lambda>x. x \<noteq> c) s, Some rest))"

definition ExtractOCPVersion :: "string \<Rightarrow> string" where
  "ExtractOCPVersion releaseImage =
     (if CHR '':'' \<notin> set releaseImage then ''''
      else let tag = rev (takeWhile (\<lambda>c. c \<noteq> CHR '':'') (rev releaseImage))
           in case cut_at (CHR ''.'') tag of
                (_, None) \<Rightarrow> ''''
              | (major, Some rest) \<Rightarrow> major @ ''.'' @ fst (cut_at (CHR ''.'') rest))"

definition k8sToOCP :: "(string \<times> string) list \<Rightarrow> string \<Rightarrow> domain_error + string" where
  "k8sToOCP matrix k8sVersion =
     (case find (\<lambda>(_, k8sVer). k8sVer = k8sVersion) matrix of
        Some (ocpVersion, _) \<Rightarrow> Inr ocpVersion
      | None \<Rightarrow> Inl (domain_err UNPROCESSABLE_ENTITY (''unsupported Kubernetes version: '' @ k8sVersion)))"

definition version_Resolve :: "kube_env \<Rightarrow> (string \<times> string) list \<Rightarrow> kube_trace \<Rightarrow> string \<Rightarrow> kube_trace \<times> (domain_error + string)" where
  "version_Resolve env matrix tr k8sVersion =
     (case k8sToOCP matrix k8sVersion of
        Inl e \<Rightarrow> (tr, Inl e)
      | Inr ocpVersion \<Rightarrow>
          (case kube (k_list_image_sets env) tr ListClusterImageSets of
             (tr, Inl e) \<Rightarrow> (tr, Inl (NewInternalError ''failed to list cluster image sets'' (ke_Error e)))
           | (tr, Inr images) \<Rightarrow>
               (tr, case find (\<lambda>img. img \<noteq> '''' \<and> ExtractOCPVersion img = ocpVersion) images of
                      Some img \<Rightarrow> Inr img
                    | None \<Rightarrow> Inl (domain_err UNPROCESSABLE_ENTITY (''no ClusterImageSet found for version '' @ k8sVersion)))))"

definition ReleaseImageToK8sVersion :: "string \<Rightarrow> (string \<times> string) list \<Rightarrow> string" where
  "ReleaseImageToK8sVersion releaseImage matrix =
     (let ocpMinor = ExtractOCPVersion releaseImage
      in if ocpMinor = '''' then '''' else case map_of matrix ocpMinor of Some v \<Rightarrow> v | None \<Rightarrow> '''')"

definition hint :: "cluster_spec \<Rightarrow> (acm_hints \<Rightarrow> 'a option) \<Rightarrow> 'a option" where
  "hint req field = Option.bind (cls_Hints req) field"

definition ResolveBaseDomain :: "cluster_spec \<Rightarrow> string \<Rightarrow> string" where
  "ResolveBaseDomain req configDefault = (case hint req ah_BaseDomain of Some d \<Rightarrow> d | None \<Rightarrow> configDefault)"

definition ResolveReleaseImage :: "kube_env \<Rightarrow> cluster_config \<Rightarrow> kube_trace \<Rightarrow> cluster_spec \<Rightarrow> kube_trace \<times> (domain_error + string)" where
  "ResolveReleaseImage env cfg tr req =
     (case hint req ah_ReleaseImage of
        Some img \<Rightarrow> (tr, Inr img)
      | None \<Rightarrow>
          version_Resolve env (if ccf_VersionMatrix cfg = [] then DefaultCompatibilityMatrix else ccf_VersionMatrix cfg) tr (cls_Version req))"

section \<open>Builders\<close>

abbreviation cluster_type :: string where
  "cluster_type \<equiv> ''cluster''"

definition ParseDCMMemory :: "(string \<Rightarrow> quantity option) \<Rightarrow> string \<Rightarrow> quantity option" where
  "ParseDCMMemory pq s = (if s = '''' then None else case cut_suffix s ''B'' of None \<Rightarrow> None | Some k8sValue \<Rightarrow> pq k8sValue)"

definition zero_quantity :: quantity where
  "zero_quantity = \<lparr>q_nano = 0, q_MilliValue = 0, q_String = ''0''\<rparr>"

definition memory_or_zero :: "(string \<Rightarrow> quantity option) \<Rightarrow> string \<Rightarrow> quantity" where
  "memory_or_zero pq s = (case ParseDCMMemory pq s of Some q \<Rightarrow> q | None \<Rightarrow> zero_quantity)"

definition DefaultServicePublishingStrategies :: "(string \<times> string) list" where
  "DefaultServicePublishingStrategies =
     [(''OAuthServer'', ''Route''), (''Konnectivity'', ''Route''), (''Ignition'', ''Route''), (''APIServer'', ''LoadBalancer'')]"

text \<open>The platform builder: KubeVirt, or bare metal with the resolved infrastructure environment.\<close>

datatype platform_builder = KubevirtBuilder | BaremetalBuilder string

definition BuildHostedCluster :: "cluster_config \<Rightarrow> platform_builder \<Rightarrow> cluster_spec \<Rightarrow> string \<Rightarrow> string \<Rightarrow> labels \<Rightarrow> hosted_cluster" where
  "BuildHostedCluster cfg pb req baseDomain releaseImage ls =
     \<lparr>hc_Name = cls_Name req, hc_Namespace = ccf_ClusterNamespace cfg, hc_Labels = ls, hc_Annotations = [], hc_CreationTimestamp = 0, hc_Deleting = False,
      hc_Platform = (case pb of KubevirtBuilder \<Rightarrow> ''KubeVirt'' | BaremetalBuilder _ \<Rightarrow> ''Agent''),
      hc_AgentNamespace = (case pb of KubevirtBuilder \<Rightarrow> None | BaremetalBuilder _ \<Rightarrow> Some (ccf_AgentNamespace cfg)),
      hc_ReleaseImage = releaseImage, hc_BaseDomain = baseDomain, hc_Services = DefaultServicePublishingStrategies,
      hc_Etcd = (''Managed'', ''PersistentVolume''), hc_PullSecret = '''', hc_Conditions = [], hc_Endpoint = ('''', 0), hc_KubeConfig = None\<rparr>"

definition worker_platform :: "(string \<Rightarrow> quantity option) \<Rightarrow> quantity \<Rightarrow> worker_spec \<Rightarrow> kubevirt_platform option" where
  "worker_platform pq defaultSize w =
     (if w_Memory w = None \<and> w_Cpu w = None \<and> w_Storage w = None then None
      else Some \<lparr>kp_Compute = (if w_Memory w = None \<and> w_Cpu w = None then None
                               else Some (map_option (memory_or_zero pq) (w_Memory w), map_option of_int (w_Cpu w))),
                 kp_RootVolume = (case w_Storage w of Some s \<Rightarrow> memory_or_zero pq s | None \<Rightarrow> defaultSize)\<rparr>)"

definition worker_replicas :: "worker_spec \<Rightarrow> int" where
  "worker_replicas w = (case w_Count w of Some n \<Rightarrow> wrap32 n | None \<Rightarrow> 1)"

definition BuildNodePool ::
  "(string \<Rightarrow> quantity option) \<Rightarrow> quantity \<Rightarrow> cluster_config \<Rightarrow> platform_builder \<Rightarrow> cluster_spec \<Rightarrow> string \<Rightarrow> labels \<Rightarrow> node_pool" where
  "BuildNodePool pq defaultSize cfg pb req releaseImage ls =
     (let np = \<lparr>np_Name = cls_Name req, np_Namespace = ccf_ClusterNamespace cfg, np_Labels = ls, np_ClusterName = cls_Name req,
                np_ReleaseImage = releaseImage, np_UpgradeType = ''InPlace'', np_Platform = ''KubeVirt'', np_AgentSelector = None,
                np_Kubevirt = None, np_Replicas = None\<rparr>
      in case pb of
           KubevirtBuilder \<Rightarrow>
             (case cls_Workers req of
                None \<Rightarrow> np
              | Some w \<Rightarrow> np\<lparr>np_Replicas := Some (worker_replicas w), np_Kubevirt := worker_platform pq defaultSize w\<rparr>)
         | BaremetalBuilder infraEnv \<Rightarrow>
             np\<lparr>np_Platform := ''Agent'',
                np_AgentSelector := Some (AList.merge [(ccf_InfraEnvLabelKey cfg, infraEnv)] (case hint req ah_AgentLabels of Some m \<Rightarrow> m | None \<Rightarrow> [])),
                np_Replicas := Some (case cls_Workers req of Some w \<Rightarrow> worker_replicas w | None \<Rightarrow> 1)\<rparr>)"

fun str_join :: "string \<Rightarrow> string list \<Rightarrow> string" where
  "str_join sep [] = []"
| "str_join sep [p] = p"
| "str_join sep (p # ps) = p @ sep @ str_join sep ps"

definition override_value :: "control_plane_spec \<Rightarrow> string" where
  "override_value cp =
     str_join '','' ((case cp_Cpu cp of Some n \<Rightarrow> [''cpu='' @ show_int n] | None \<Rightarrow> []) @
        (case cp_Memory cp of Some m \<Rightarrow> [''memory='' @ (case cut_suffix m ''B'' of Some s \<Rightarrow> s | None \<Rightarrow> m)] | None \<Rightarrow> []))"

definition applyControlPlaneResourceOverrides :: "hosted_cluster \<Rightarrow> cluster_spec \<Rightarrow> hosted_cluster" where
  "applyControlPlaneResourceOverrides hc req =
     (case cls_ControlPlane req of
        None \<Rightarrow> hc
      | Some cp \<Rightarrow>
          if cp_Cpu cp = None \<and> cp_Memory cp = None then hc
          else hc\<lparr>hc_Annotations :=
                 AList.update ''resource-request-override.hypershift.openshift.io/etcd.etcd'' (override_value cp)
                   (AList.update ''resource-request-override.hypershift.openshift.io/kube-apiserver.kube-apiserver'' (override_value cp) (hc_Annotations hc))\<rparr>)"

section \<open>Operations\<close>

definition findByInstanceID :: "kube_env \<Rightarrow> string \<Rightarrow> kube_trace \<Rightarrow> string \<Rightarrow> kube_trace \<times> (domain_error + hosted_cluster)" where
  "findByInstanceID env namespace tr i =
     (case kube (k_list_hosted_clusters env) tr (ListHostedClusters namespace [(LabelInstanceID, i)]) of
        (tr, Inl e) \<Rightarrow> (tr, Inl (NewInternalError ''failed to list clusters'' (ke_Error e)))
      | (tr, Inr []) \<Rightarrow> (tr, Inl (domain_err NOT_FOUND (''cluster '' @ i @ '' not found'')))
      | (tr, Inr (hc # _)) \<Rightarrow> (tr, Inr hc))"

definition new_cluster :: "time \<Rightarrow> string \<Rightarrow> cluster_spec \<Rightarrow> acm_cluster" where
  "new_cluster now i req =
     \<lparr>cl_Id = i, cl_Path = ''clusters/'' @ i, cl_Status = ClusterStatusPENDING, cl_StatusMessage = None, cl_CreateTime = Some now, cl_UpdateTime = Some now,
      cl_ApiEndpoint = None, cl_ConsoleUri = None, cl_Kubeconfig = None, cl_Spec = req\<rparr>"

text \<open>The two creations of \<open>CreateCluster\<close> and the rollback of the first.\<close>

definition create_resources ::
  "kube_env \<Rightarrow> kube_trace \<Rightarrow> hosted_cluster \<Rightarrow> node_pool \<Rightarrow> kube_trace \<times> domain_error option" where
  "create_resources env tr hc np =
     (case kube (k_write env) tr (CreateHostedCluster hc) of
        (tr, Some e) \<Rightarrow>
          (tr, Some (if ke_Reason e = AlreadyExists
                     then domain_err ALREADY_EXISTS (''cluster with name '' @ go_quote (hc_Name hc) @ '' already exists'')
                     else NewInternalError ''failed to create cluster resources'' (ke_Error e)))
      | (tr, None) \<Rightarrow>
          (case kube (k_write env) tr (CreateNodePool np) of
             (tr, None) \<Rightarrow> (tr, None)
           | (tr, Some e) \<Rightarrow>
               (case kube (k_delete env) tr (DeleteHostedCluster (hc_Namespace hc) (hc_Name hc)) of
                  (tr, Some d) \<Rightarrow>
                    (tr, Some (NewInternalError ''failed to create node pool and rollback of hosted cluster failed''
                                 (''create: '' @ ke_Error e @ '', rollback: '' @ ke_Error d)))
                | (tr, None) \<Rightarrow> (tr, Some (NewInternalError ''failed to create cluster resources'' (ke_Error e))))))"

definition CreateCluster ::
  "(string \<Rightarrow> quantity option) \<Rightarrow> quantity \<Rightarrow> kube_env \<Rightarrow> cluster_config \<Rightarrow> time \<Rightarrow> kube_trace \<Rightarrow> string \<Rightarrow> cluster_spec \<Rightarrow> platform_builder \<Rightarrow>
   kube_trace \<times> (domain_error + acm_cluster)" where
  "CreateCluster pq defaultSize env cfg now tr i req pb =
     (let baseDomain = ResolveBaseDomain req (ccf_BaseDomain cfg)
      in if baseDomain = '''' then (tr, Inl (domain_err INVALID_ARGUMENT ''base_domain is required''))
         else case ResolveReleaseImage env cfg tr req of
           (tr, Inl e) \<Rightarrow> (tr, Inl e)
         | (tr, Inr releaseImage) \<Rightarrow>
             (case findByInstanceID env (ccf_ClusterNamespace cfg) tr i of
                (tr, Inr _) \<Rightarrow> (tr, Inl (domain_err ALREADY_EXISTS ''cluster with this ID already exists''))
              | (tr, Inl e) \<Rightarrow>
                  if de_Type e \<noteq> NOT_FOUND then (tr, Inl e)
                  else
                    let ls = dcm_Labels cluster_type i;
                        hc = (applyControlPlaneResourceOverrides (BuildHostedCluster cfg pb req baseDomain releaseImage ls) req)
                               \<lparr>hc_PullSecret := ccf_PullSecretName cfg\<rparr>
                    in case create_resources env tr hc (BuildNodePool pq defaultSize cfg pb req releaseImage ls) of
                         (tr, Some e) \<Rightarrow> (tr, Inl e)
                       | (tr, None) \<Rightarrow> (tr, Inr (new_cluster now i req))))"

definition resolveInfraEnv :: "cluster_config \<Rightarrow> cluster_spec \<Rightarrow> domain_error + string" where
  "resolveInfraEnv cfg req =
     (case hint req ah_InfraEnv of
        Some e \<Rightarrow> Inr e
      | None \<Rightarrow>
          if ccf_DefaultInfraEnv cfg \<noteq> '''' then Inr (ccf_DefaultInfraEnv cfg)
          else Inl (domain_err INVALID_ARGUMENT ''infra_env is required: set provider_hints.acm.infra_env or SP_DEFAULT_INFRA_ENV''))"

text \<open>The dispatcher's table after \<open>New\<close>, and the builder a platform's \<open>Create\<close> uses.\<close>

definition serviceForPlatform :: "string list \<Rightarrow> cluster_spec \<Rightarrow> string \<times> bool" where
  "serviceForPlatform enabledPlatforms req =
     (let platform = (case hint req ah_Platform of Some p \<Rightarrow> p | None \<Rightarrow> ''kubevirt'')
      in (platform, platform \<in> {''kubevirt'', ''baremetal''} \<and> platform \<in> set enabledPlatforms))"

definition platform_builder_for :: "cluster_config \<Rightarrow> string \<Rightarrow> cluster_spec \<Rightarrow> domain_error + platform_builder" where
  "platform_builder_for cfg platform req =
     (if platform = ''baremetal'' then (case resolveInfraEnv cfg req of Inl e \<Rightarrow> Inl e | Inr infraEnv \<Rightarrow> Inr (BaremetalBuilder infraEnv))
      else Inr KubevirtBuilder)"

definition dispatcher_Create ::
  "(string \<Rightarrow> quantity option) \<Rightarrow> quantity \<Rightarrow> kube_env \<Rightarrow> cluster_config \<Rightarrow> string list \<Rightarrow> time \<Rightarrow> kube_trace \<Rightarrow> string \<Rightarrow> cluster_spec \<Rightarrow>
   kube_trace \<times> (domain_error + acm_cluster)" where
  "dispatcher_Create pq defaultSize env cfg enabled now tr i req =
     (case serviceForPlatform enabled req of
        (platform, False) \<Rightarrow> (tr, Inl (domain_err UNPROCESSABLE_ENTITY (''unsupported platform '' @ go_quote platform)))
      | (platform, True) \<Rightarrow>
          (case platform_builder_for cfg platform req of
             Inl e \<Rightarrow> (tr, Inl e)
           | Inr pb \<Rightarrow> CreateCluster pq defaultSize env cfg now tr i req pb))"

fun delete_pools :: "kube_env \<Rightarrow> kube_trace \<Rightarrow> node_pool list \<Rightarrow> kube_trace \<times> domain_error option" where
  "delete_pools env tr [] = (tr, None)"
| "delete_pools env tr (np # nps) =
     (case kube (k_delete env) tr (DeleteNodePool (np_Namespace np) (np_Name np)) of
        (tr, Some e) \<Rightarrow>
          if ke_Reason e \<noteq> NotFound then (tr, Some (NewInternalError ''failed to delete node pool'' (ke_Error e))) else delete_pools env tr nps
      | (tr, None) \<Rightarrow> delete_pools env tr nps)"

definition deleteNodePools :: "kube_env \<Rightarrow> string \<Rightarrow> kube_trace \<Rightarrow> string \<Rightarrow> kube_trace \<times> domain_error option" where
  "deleteNodePools env namespace tr i =
     (case kube (k_list_node_pools env) tr (ListNodePools namespace [(LabelInstanceID, i)]) of
        (tr, Inl e) \<Rightarrow> (tr, Some (NewInternalError ''failed to list node pools for deletion'' (ke_Error e)))
      | (tr, Inr nps) \<Rightarrow> delete_pools env tr nps)"

definition DeleteCluster :: "kube_env \<Rightarrow> cluster_config \<Rightarrow> kube_trace \<Rightarrow> string \<Rightarrow> kube_trace \<times> domain_error option" where
  "DeleteCluster env cfg tr i =
     (case findByInstanceID env (ccf_ClusterNamespace cfg) tr i of
        (tr, Inl e) \<Rightarrow> (tr, Some e)
      | (tr, Inr hc) \<Rightarrow>
          (case deleteNodePools env (hc_Namespace hc) tr i of
             (tr, Some e) \<Rightarrow> (tr, Some e)
           | (tr, None) \<Rightarrow>
               (case kube (k_delete env) tr (DeleteHostedCluster (hc_Namespace hc) (hc_Name hc)) of
                  (tr, Some e) \<Rightarrow> (tr, Some (NewInternalError ''failed to delete cluster'' (ke_Error e)))
                | (tr, None) \<Rightarrow> (tr, None))))"

section \<open>Reading\<close>

definition ExtractKubeconfig :: "kube_env \<Rightarrow> kube_trace \<Rightarrow> hosted_cluster \<Rightarrow> kube_trace \<times> string option" where
  "ExtractKubeconfig env tr hc =
     (case hc_KubeConfig hc of
        None \<Rightarrow> (tr, None)
      | Some name \<Rightarrow>
          if name = '''' then (tr, None)
          else case kube (k_get_secret env) tr (GetSecret (hc_Namespace hc) name) of
                 (tr, Inl _) \<Rightarrow> (tr, None)
               | (tr, Inr s) \<Rightarrow>
                   (tr, case map_of (sec_Data s) ''kubeconfig'' of
                          Some (c # cs) \<Rightarrow> Some (EncodeToString (c # cs))
                        | _ \<Rightarrow> None))"

function replace_all :: "string \<Rightarrow> string \<Rightarrow> string \<Rightarrow> string" where
  "replace_all old new s =
     (if old \<noteq> [] \<and> prefix old s then new @ replace_all old new (drop (length old) s)
      else case s of [] \<Rightarrow> [] | c # cs \<Rightarrow> c # replace_all old new cs)"
  by pat_completeness auto
termination
  by (relation "measure (\<lambda>(old, new, s). length s)") (auto simp: prefix_def)

declare replace_all.simps [simp del]

definition BuildConsoleURI :: "string \<Rightarrow> hosted_cluster \<Rightarrow> string option" where
  "BuildConsoleURI pattern hc =
     (if hc_BaseDomain hc = '''' then None
      else Some (replace_all ''{base_domain}'' (hc_BaseDomain hc) (replace_all ''{name}'' (hc_Name hc) pattern)))"

definition BuildAPIEndpoint :: "hosted_cluster \<Rightarrow> string option" where
  "BuildAPIEndpoint hc =
     (case hc_Endpoint hc of (host, port) \<Rightarrow>
        if host = '''' then None
        else Some (''https://'' @ (if CHR '':'' \<in> set host then ''['' @ host @ '']'' else host) @ '':'' @ show_int port))"

definition conditionMessage :: "hc_condition list \<Rightarrow> string \<Rightarrow> string option" where
  "conditionMessage cs condType = map_option hcc_Message (find (\<lambda>c. hcc_Type c = condType \<and> hcc_Message c \<noteq> '''') cs)"

definition as_condition :: "hc_condition \<Rightarrow> condition" where
  "as_condition c = \<lparr>cond_Type = hcc_Type c, cond_Status = hcc_Status c, cond_Message = hcc_Message c\<rparr>"

definition HostedClusterToCluster :: "kube_env \<Rightarrow> cluster_config \<Rightarrow> kube_trace \<Rightarrow> hosted_cluster \<Rightarrow> kube_trace \<times> acm_cluster" where
  "HostedClusterToCluster env cfg tr hc =
     (let i = label_at (hc_Labels hc) LabelInstanceID;
          status = MapConditionsToStatus (map as_condition (hc_Conditions hc)) (hc_Deleting hc);
          msg = (case status of
                   ClusterStatusFAILED \<Rightarrow> conditionMessage (hc_Conditions hc) ''Degraded''
                 | ClusterStatusUNAVAILABLE \<Rightarrow> conditionMessage (hc_Conditions hc) ''Available''
                 | _ \<Rightarrow> None);
          created = (if hc_CreationTimestamp hc = 0 then None else Some (hc_CreationTimestamp hc));
          updated = (case map hcc_LastTransitionTime (hc_Conditions hc) of
                       [] \<Rightarrow> created
                     | t # ts \<Rightarrow> Some (foldl max t ts));
          live = (status = ClusterStatusREADY \<or> status = ClusterStatusUNAVAILABLE);
          (tr, kubeconfig) = (if live then ExtractKubeconfig env tr hc else (tr, None))
      in (tr, \<lparr>cl_Id = i, cl_Path = ''clusters/'' @ i, cl_Status = status, cl_StatusMessage = msg, cl_CreateTime = created, cl_UpdateTime = updated,
               cl_ApiEndpoint = (if live then BuildAPIEndpoint hc else None),
               cl_ConsoleUri = (if live then BuildConsoleURI (ccf_ConsoleURIPattern cfg) hc else None),
               cl_Kubeconfig = kubeconfig,
               cl_Spec = \<lparr>cls_Name = hc_Name hc, cls_Version = ReleaseImageToK8sVersion (hc_ReleaseImage hc) (ccf_VersionMatrix cfg),
                          cls_ServiceType = cluster_type, cls_ControlPlane = None, cls_Workers = None, cls_Hints = None\<rparr>\<rparr>))"

definition GetCluster :: "kube_env \<Rightarrow> cluster_config \<Rightarrow> kube_trace \<Rightarrow> string \<Rightarrow> kube_trace \<times> (domain_error + acm_cluster)" where
  "GetCluster env cfg tr i =
     (case findByInstanceID env (ccf_ClusterNamespace cfg) tr i of
        (tr, Inl e) \<Rightarrow> (tr, Inl e)
      | (tr, Inr hc) \<Rightarrow> (case HostedClusterToCluster env cfg tr hc of (tr, c) \<Rightarrow> (tr, Inr c)))"

fun to_clusters :: "kube_env \<Rightarrow> cluster_config \<Rightarrow> kube_trace \<Rightarrow> hosted_cluster list \<Rightarrow> kube_trace \<times> acm_cluster list" where
  "to_clusters env cfg tr [] = (tr, [])"
| "to_clusters env cfg tr (hc # hcs) =
     (case HostedClusterToCluster env cfg tr hc of (tr, c) \<Rightarrow> (case to_clusters env cfg tr hcs of (tr, cs) \<Rightarrow> (tr, c # cs)))"

text \<open>\<open>None\<close>: the slice expression panics.\<close>

definition ListClusters ::
  "kube_env \<Rightarrow> cluster_config \<Rightarrow> kube_trace \<Rightarrow> int \<Rightarrow> string \<Rightarrow> kube_trace \<times> (domain_error + acm_cluster list \<times> string option) option" where
  "ListClusters env cfg tr pageSize pageToken =
     (case kube (k_list_hosted_clusters env) tr (ListHostedClusters (ccf_ClusterNamespace cfg) (dcm_Selector cluster_type)) of
        (tr, Inl e) \<Rightarrow> (tr, Some (Inl (NewInternalError ''failed to list clusters'' (ke_Error e))))
      | (tr, Inr items) \<Rightarrow>
          (case decodePageToken pageToken of
             Inl _ \<Rightarrow> (tr, Some (Inl (domain_err INVALID_ARGUMENT ''invalid page_token'')))
           | Inr offset \<Rightarrow>
               let items = sort_key hc_Name items;
                   total = length items;
                   offset = min offset total;
                   stop = min (wrap64 (int offset + pageSize)) (int total)
               in if stop < int offset then (tr, None)
                  else case to_clusters env cfg tr (take (nat stop - offset) (drop offset items)) of
                         (tr, cs) \<Rightarrow> (tr, Some (Inr (cs, if stop < int total then Some (page_token (nat stop)) else None)))))"

section \<open>Pull secret and health\<close>

text \<open>\<open>auths\<close> decodes the \<open>auths\<close> entries of a Docker configuration: their number, or an error.\<close>

definition EnsurePullSecret :: "(string \<Rightarrow> string + nat) \<Rightarrow> kube_env \<Rightarrow> cluster_config \<Rightarrow> kube_trace \<Rightarrow> kube_trace \<times> string option" where
  "EnsurePullSecret auths env cfg tr =
     (case DecodeString (ccf_PullSecret cfg) of
        None \<Rightarrow> (tr, Some ''decoding SP_PULL_SECRET'')
      | Some decoded \<Rightarrow>
          (case auths decoded of
             Inl e \<Rightarrow> (tr, Some (''parsing SP_PULL_SECRET as .dockerconfigjson: '' @ e))
           | Inr n \<Rightarrow>
               if n = 0 then (tr, Some ''SP_PULL_SECRET .dockerconfigjson is missing required 'auths' entries'')
               else
                 let ls = dcm_Selector cluster_type;
                     s = \<lparr>sec_Name = ccf_PullSecretName cfg, sec_Namespace = ccf_ClusterNamespace cfg, sec_Labels = ls,
                          sec_Type = ''kubernetes.io/dockerconfigjson'', sec_Data = [(''.dockerconfigjson'', decoded)]\<rparr>
                 in case kube (k_write env) tr (CreateSecret s) of
                      (tr, None) \<Rightarrow> (tr, None)
                    | (tr, Some e) \<Rightarrow>
                        if ke_Reason e \<noteq> AlreadyExists then (tr, Some (''creating pull secret: '' @ ke_Error e))
                        else case kube (k_get_secret env) tr (GetSecret (ccf_ClusterNamespace cfg) (ccf_PullSecretName cfg)) of
                               (tr, Inl e) \<Rightarrow> (tr, Some (''getting existing pull secret: '' @ ke_Error e))
                             | (tr, Inr old) \<Rightarrow>
                                 (case kube (k_write env) tr (UpdateSecret (old\<lparr>sec_Data := sec_Data s, sec_Labels := AList.merge (sec_Labels old) ls\<rparr>)) of
                                    (tr, Some e) \<Rightarrow> (tr, Some (''updating pull secret: '' @ ke_Error e))
                                  | (tr, None) \<Rightarrow> (tr, None))))"

text \<open>\<open>available\<close> tells whether the kind is in the scheme and can be listed.\<close>

definition cluster_Check :: "(string \<Rightarrow> bool) \<Rightarrow> string list \<Rightarrow> string" where
  "cluster_Check available platforms =
     (if \<not> available ''HostedClusterList'' then ''unhealthy''
      else if list_all (\<lambda>p. if p = ''kubevirt'' then available ''VirtualMachineInstanceList''
                           else if p = ''baremetal'' then available ''AgentList'' else True) platforms
      then ''healthy'' else ''unhealthy'')"

section \<open>The embedded handler\<close>

definition parseCreateCluster :: "(json \<Rightarrow> string + cluster_spec) \<Rightarrow> json option \<Rightarrow> string + cluster_spec" where
  "parseCreateCluster decode raw =
     (case raw of
        None \<Rightarrow> Inl ''spec is required''
      | Some raw \<Rightarrow> (case decode raw of Inl e \<Rightarrow> Inl (''invalid cluster spec: '' @ e) | Inr c \<Rightarrow> Inr c))"

definition mapServiceError :: "domain_error \<Rightarrow> fwd_error" where
  "mapServiceError e = (case MapOperationError e of (status, msg) \<Rightarrow> SPResponseError status msg)"

definition cluster_CreateResource ::
  "(json \<Rightarrow> string + cluster_spec) \<Rightarrow> (string \<Rightarrow> quantity option) \<Rightarrow> quantity \<Rightarrow> kube_env \<Rightarrow> cluster_config \<Rightarrow> string list \<Rightarrow> time \<Rightarrow>
   kube_trace \<Rightarrow> string \<Rightarrow> json option \<Rightarrow> kube_trace \<times> fwd_error option" where
  "cluster_CreateResource decode pq defaultSize env cfg enabled now tr resourceID raw =
     (case parseCreateCluster decode raw of
        Inl e \<Rightarrow> (tr, Some (SPResponseError 400 e))
      | Inr req \<Rightarrow>
          (case dispatcher_Create pq defaultSize env cfg enabled now tr resourceID req of
             (tr, Inl e) \<Rightarrow> (tr, Some (mapServiceError e))
           | (tr, Inr _) \<Rightarrow> (tr, None)))"

definition cluster_DeleteResource :: "kube_env \<Rightarrow> cluster_config \<Rightarrow> kube_trace \<Rightarrow> string \<Rightarrow> kube_trace \<times> fwd_error option" where
  "cluster_DeleteResource env cfg tr resourceID =
     (case DeleteCluster env cfg tr resourceID of (tr, r) \<Rightarrow> (tr, map_option mapServiceError r))"

section \<open>Requests\<close>

text \<open>The requests that reach the cluster, or fail for their platform: their specification decodes, and its base domain and its infrastructure
  environment are known.\<close>

definition cluster_accepts :: "(json \<Rightarrow> string + cluster_spec) \<Rightarrow> cluster_config \<Rightarrow> string list \<Rightarrow> string \<Rightarrow> json option \<Rightarrow> bool" where
  "cluster_accepts decode cfg enabled i raw \<longleftrightarrow>
     (case parseCreateCluster decode raw of
        Inl _ \<Rightarrow> False
      | Inr req \<Rightarrow>
          (case serviceForPlatform enabled req of
             (_, False) \<Rightarrow> True
           | (platform, True) \<Rightarrow> \<not> isl (platform_builder_for cfg platform req) \<and> ResolveBaseDomain req (ccf_BaseDomain cfg) \<noteq> ''''))"

lemma builder_error: "platform_builder_for cfg platform req = Inl e \<Longrightarrow> de_Type e = INVALID_ARGUMENT"
  by (auto simp: platform_builder_for_def resolveInfraEnv_def domain_err_def split: if_splits option.splits sum.splits)

lemma invalid_argument_400: "de_Type e = INVALID_ARGUMENT \<Longrightarrow> \<exists>m. mapServiceError e = SPResponseError 400 m"
  by (simp add: mapServiceError_def MapOperationError_def)

lemma cluster_refused:
  assumes "\<not> cluster_accepts decode cfg enabled i raw"
  shows "\<exists>m. cluster_CreateResource decode pq dq env cfg enabled now tr i raw = (tr, Some (SPResponseError 400 m))"
proof (cases "parseCreateCluster decode raw")
  case (Inr req)
  with assms obtain platform where p: "serviceForPlatform enabled req = (platform, True)"
    and bad: "isl (platform_builder_for cfg platform req) \<or> ResolveBaseDomain req (ccf_BaseDomain cfg) = ''''"
    by (auto simp: cluster_accepts_def split: prod.splits bool.splits)
  show ?thesis
  proof (cases "platform_builder_for cfg platform req")
    case (Inl e)
    with Inr p show ?thesis using invalid_argument_400 [OF builder_error [OF Inl]]
      by (simp add: cluster_CreateResource_def dispatcher_Create_def)
  next
    case (Inr pb)
    with bad have "ResolveBaseDomain req (ccf_BaseDomain cfg) = ''''" by simp
    with Inr p \<open>parseCreateCluster decode raw = Inr req\<close> show ?thesis
      by (simp add: cluster_CreateResource_def dispatcher_Create_def CreateCluster_def invalid_argument_400 domain_err_def)
  qed
qed (simp add: cluster_CreateResource_def)

section \<open>Creation\<close>

text \<open>The HostedCluster and the NodePool of one cluster.\<close>

definition cluster_pair :: "cluster_config \<Rightarrow> string \<Rightarrow> hosted_cluster \<Rightarrow> node_pool \<Rightarrow> bool" where
  "cluster_pair cfg i hc np \<longleftrightarrow>
     hc_Labels hc = dcm_Labels cluster_type i \<and> np_Labels np = hc_Labels hc \<and>
     hc_Namespace hc = ccf_ClusterNamespace cfg \<and> np_Namespace np = hc_Namespace hc \<and> np_Name np = hc_Name hc \<and> np_ClusterName np = hc_Name hc \<and>
     np_ReleaseImage np = hc_ReleaseImage hc \<and> np_Platform np = hc_Platform hc \<and> (hc_Platform hc = ''Agent'') = (np_AgentSelector np \<noteq> None) \<and>
     hc_BaseDomain hc \<noteq> '''' \<and> hc_PullSecret hc = ccf_PullSecretName cfg"

text \<open>The outcomes of creating the two resources after the trace \<open>t\<close>.\<close>

definition create_outcome :: "kube_env \<Rightarrow> kube_trace \<Rightarrow> hosted_cluster \<Rightarrow> node_pool \<Rightarrow> kube_trace \<Rightarrow> bool \<Rightarrow> bool" where
  "create_outcome env t hc np seg ok \<longleftrightarrow>
     (let a = CreateHostedCluster hc; b = CreateNodePool np
      in seg = [a] \<and> k_write env (t @ [a]) \<noteq> None \<and> \<not> ok \<or>
         seg = [a, b] \<and> k_write env (t @ [a]) = None \<and> k_write env (t @ [a, b]) = None \<and> ok \<or>
         seg = [a, b, DeleteHostedCluster (hc_Namespace hc) (hc_Name hc)] \<and> k_write env (t @ [a]) = None \<and> k_write env (t @ [a, b]) \<noteq> None \<and> \<not> ok)"

lemma create_resources_outcome:
  "\<exists>seg. fst (create_resources env t hc np) = t @ seg \<and> create_outcome env t hc np seg (snd (create_resources env t hc np) = None)"
proof (cases "k_write env (t @ [CreateHostedCluster hc])")
  case None
  show ?thesis
  proof (cases "k_write env (t @ [CreateHostedCluster hc, CreateNodePool np])")
    case (Some e)
    with None show ?thesis
      by (intro exI [of _ "[CreateHostedCluster hc, CreateNodePool np, DeleteHostedCluster (hc_Namespace hc) (hc_Name hc)]"])
        (simp add: create_resources_def create_outcome_def kube_def split: option.split)
  qed (use None in \<open>simp add: create_resources_def create_outcome_def kube_def\<close>)
qed (simp add: create_resources_def create_outcome_def kube_def)

lemma overrides_keep [simp]:
  "hc_Name (applyControlPlaneResourceOverrides hc req) = hc_Name hc" "hc_Namespace (applyControlPlaneResourceOverrides hc req) = hc_Namespace hc"
  "hc_Labels (applyControlPlaneResourceOverrides hc req) = hc_Labels hc" "hc_Platform (applyControlPlaneResourceOverrides hc req) = hc_Platform hc"
  "hc_ReleaseImage (applyControlPlaneResourceOverrides hc req) = hc_ReleaseImage hc"
  "hc_BaseDomain (applyControlPlaneResourceOverrides hc req) = hc_BaseDomain hc"
  by (simp_all add: applyControlPlaneResourceOverrides_def split: option.split)

lemma built_pair:
  "baseDomain \<noteq> '''' \<Longrightarrow>
   cluster_pair cfg i ((applyControlPlaneResourceOverrides (BuildHostedCluster cfg pb req baseDomain img (dcm_Labels cluster_type i)) req)\<lparr>hc_PullSecret := ccf_PullSecretName cfg\<rparr>)
     (BuildNodePool pq dq cfg pb req img (dcm_Labels cluster_type i))"
  by (simp add: cluster_pair_def BuildHostedCluster_def BuildNodePool_def Let_def split: platform_builder.split option.split)

lemma release_image_lookups:
  "\<exists>seg. fst (ResolveReleaseImage env cfg tr req) = tr @ seg \<and> set seg \<subseteq> {ListClusterImageSets}"
  by (auto simp: ResolveReleaseImage_def version_Resolve_def kube_def split: option.split sum.split)

lemma findByInstanceID_cases:
  obtains (listed) e where "findByInstanceID env ns t i = (t @ [ListHostedClusters ns [(LabelInstanceID, i)]], Inl e)" "de_Type e = INTERNAL_ERROR"
      "isl (k_list_hosted_clusters env (t @ [ListHostedClusters ns [(LabelInstanceID, i)]]))"
  | (absent) e where "findByInstanceID env ns t i = (t @ [ListHostedClusters ns [(LabelInstanceID, i)]], Inl e)" "de_Type e = NOT_FOUND"
      "k_list_hosted_clusters env (t @ [ListHostedClusters ns [(LabelInstanceID, i)]]) = Inr []"
  | (found) hc hcs where "findByInstanceID env ns t i = (t @ [ListHostedClusters ns [(LabelInstanceID, i)]], Inr hc)"
      "k_list_hosted_clusters env (t @ [ListHostedClusters ns [(LabelInstanceID, i)]]) = Inr (hc # hcs)"
  by (cases "k_list_hosted_clusters env (t @ [ListHostedClusters ns [(LabelInstanceID, i)]])" rule: sum.exhaust;
      cases "projr (k_list_hosted_clusters env (t @ [ListHostedClusters ns [(LabelInstanceID, i)]]))")
    (auto simp: findByInstanceID_def kube_def NewInternalError_def domain_err_def)

text \<open>What a create operation does: it looks up, and either gives up or, right after a lookup of the instance that found none, creates the pair.\<close>

definition create_run :: "kube_env \<Rightarrow> cluster_config \<Rightarrow> kube_trace \<Rightarrow> string \<Rightarrow> kube_trace \<Rightarrow> bool \<Rightarrow> bool" where
  "create_run env cfg tr i tr' ok \<longleftrightarrow>
     (let l = ListHostedClusters (ccf_ClusterNamespace cfg) [(LabelInstanceID, i)]
      in \<exists>pre. set pre \<subseteq> {ListClusterImageSets, l} \<and>
           (tr' = tr @ pre \<and> \<not> ok \<or>
            (\<exists>hc np seg. cluster_pair cfg i hc np \<and> pre \<noteq> [] \<and> last pre = l \<and> k_list_hosted_clusters env (tr @ pre) = Inr [] \<and>
               tr' = tr @ pre @ seg \<and> create_outcome env (tr @ pre) hc np seg ok)))"

lemma create_run_stop:
  "set pre \<subseteq> {ListClusterImageSets, ListHostedClusters (ccf_ClusterNamespace cfg) [(LabelInstanceID, i)]} \<Longrightarrow> create_run env cfg tr i (tr @ pre) False"
  by (auto simp: create_run_def Let_def)

lemma CreateCluster_run:
  "create_run env cfg tr i (fst (CreateCluster pq dq env cfg now tr i req pb)) (\<not> isl (snd (CreateCluster pq dq env cfg now tr i req pb)))"
proof (cases "ResolveBaseDomain req (ccf_BaseDomain cfg) = ''''")
  case True
  then show ?thesis using create_run_stop [of "[]" cfg i env tr] by (simp add: CreateCluster_def)
next
  case base: False
  let ?l = "ListHostedClusters (ccf_ClusterNamespace cfg) [(LabelInstanceID, i)]"
  obtain pre res where r: "ResolveReleaseImage env cfg tr req = (tr @ pre, res)" and pre: "set pre \<subseteq> {ListClusterImageSets}"
    using release_image_lookups [of env cfg tr req] by (cases "ResolveReleaseImage env cfg tr req") auto
  show ?thesis
  proof (cases res)
    case (Inl e)
    then show ?thesis using create_run_stop [of pre cfg i env tr] pre base r by (auto simp: CreateCluster_def Let_def)
  next
    case (Inr img)
    have stop: "create_run env cfg tr i (tr @ pre @ [?l]) False" using create_run_stop [of "pre @ [?l]" cfg i env tr] pre by auto
    show ?thesis
    proof (cases rule: findByInstanceID_cases [of env "ccf_ClusterNamespace cfg" "tr @ pre" i])
      case (absent e)
      define hc where "hc = (applyControlPlaneResourceOverrides (BuildHostedCluster cfg pb req (ResolveBaseDomain req (ccf_BaseDomain cfg)) img (dcm_Labels cluster_type i)) req)
        \<lparr>hc_PullSecret := ccf_PullSecretName cfg\<rparr>"
      define np where "np = BuildNodePool pq dq cfg pb req img (dcm_Labels cluster_type i)"
      let ?t = "tr @ pre @ [?l]"
      obtain seg where seg: "fst (create_resources env ?t hc np) = ?t @ seg" "create_outcome env ?t hc np seg (snd (create_resources env ?t hc np) = None)"
        using create_resources_outcome by blast
      have "cluster_pair cfg i hc np" unfolding hc_def np_def by (rule built_pair [OF base])
      moreover have "fst (CreateCluster pq dq env cfg now tr i req pb) = ?t @ seg"
        "\<not> isl (snd (CreateCluster pq dq env cfg now tr i req pb)) \<longleftrightarrow> snd (create_resources env ?t hc np) = None"
        using base r Inr absent seg(1) by (auto simp: CreateCluster_def Let_def hc_def np_def split: prod.splits option.splits)
      ultimately show ?thesis
        using seg(2) absent(3) pre unfolding create_run_def Let_def
        by (intro exI [of _ "pre @ [?l]"] conjI disjI2 exI [of _ hc] exI [of _ np] exI [of _ seg]) auto
    qed (use base r Inr stop in \<open>auto simp: CreateCluster_def Let_def domain_err_def\<close>)
  qed
qed

lemma cluster_create_run:
  "create_run env cfg tr i (fst (cluster_CreateResource decode pq dq env cfg enabled now tr i raw))
     (snd (cluster_CreateResource decode pq dq env cfg enabled now tr i raw) = None)"
proof -
  have none: "create_run env cfg tr i tr False" using create_run_stop [of "[]" cfg i env tr] by simp
  have run: "create_run env cfg tr i (fst (CreateCluster pq dq env cfg now tr i req pb)) (\<not> isl (snd (CreateCluster pq dq env cfg now tr i req pb)))" for req pb
    by (rule CreateCluster_run)
  show ?thesis
    by (auto simp: cluster_CreateResource_def dispatcher_Create_def none split: sum.splits prod.splits bool.splits)
      (use run in \<open>metis fst_conv snd_conv sum.disc\<close>)+
qed

text \<open>C0: creating a cluster is all or nothing.  Whatever the API server answers, a create request only looks up and fails, or creates, right after a
  lookup of the instance that found none, a HostedCluster and a NodePool that belong together; it succeeds exactly when both were accepted, and when the
  NodePool is refused the HostedCluster is deleted again.\<close>

theorem cluster_create_atomic:
  "create_run env cfg tr i (fst (cluster_CreateResource decode pq dq env cfg enabled now tr i raw))
     (snd (cluster_CreateResource decode pq dq env cfg enabled now tr i raw) = None)"
  by (rule cluster_create_run)

section \<open>Deletion\<close>

definition delete_pool :: "node_pool \<Rightarrow> kube_call" where
  "delete_pool np = DeleteNodePool (np_Namespace np) (np_Name np)"

text \<open>The deletion of the \<open>j\<close>-th pool after \<open>t\<close> succeeded, or found it gone.\<close>

definition pool_gone :: "kube_env \<Rightarrow> kube_trace \<Rightarrow> node_pool list \<Rightarrow> nat \<Rightarrow> bool" where
  "pool_gone env t nps j \<longleftrightarrow> (case k_delete env (t @ map delete_pool (take (Suc j) nps)) of None \<Rightarrow> True | Some e \<Rightarrow> ke_Reason e = NotFound)"

lemma pool_gone_Cons: "pool_gone env t (np # nps) (Suc j) = pool_gone env (t @ [delete_pool np]) nps j"
  by (simp add: pool_gone_def)

lemma delete_pools_run:
  "\<exists>k \<le> length nps. fst (delete_pools env t nps) = t @ map delete_pool (take k nps) \<and>
     (snd (delete_pools env t nps) = None \<longleftrightarrow> (\<forall>j < length nps. pool_gone env t nps j)) \<and> (snd (delete_pools env t nps) = None \<longrightarrow> k = length nps)"
proof (induction nps arbitrary: t)
  case (Cons np nps)
  let ?t = "t @ [delete_pool np]"
  show ?case
  proof (cases "pool_gone env t (np # nps) 0")
    case True
    then have d: "delete_pools env t (np # nps) = delete_pools env ?t nps"
      by (auto simp: pool_gone_def kube_def delete_pool_def split: option.splits)
    obtain k where k: "k \<le> length nps \<and> fst (delete_pools env ?t nps) = ?t @ map delete_pool (take k nps) \<and>
      (snd (delete_pools env ?t nps) = None \<longleftrightarrow> (\<forall>j < length nps. pool_gone env ?t nps j)) \<and> (snd (delete_pools env ?t nps) = None \<longrightarrow> k = length nps)"
      using Cons [of ?t] by (rule exE)
    show ?thesis unfolding d length_Cons All_less_Suc2 pool_gone_Cons
      by (intro exI [of _ "Suc k"] conjI) (use k True in \<open>simp_all only: Suc_le_mono simp_thms, simp_all\<close>)
  next
    case False
    then have "delete_pools env t (np # nps) = (?t, snd (delete_pools env t (np # nps)))" "snd (delete_pools env t (np # nps)) \<noteq> None"
      by (auto simp: pool_gone_def kube_def delete_pool_def split: option.splits)
    then have "fst (delete_pools env t (np # nps)) = ?t" "snd (delete_pools env t (np # nps)) \<noteq> None" by (metis fst_conv)+
    with False show ?thesis unfolding length_Cons All_less_Suc2 by (intro exI [of _ 1] conjI) (simp_all del: delete_pools.simps, metis option.distinct(1))
  qed
qed simp

text \<open>Deleting a cluster deletes its NodePools in order, and its HostedCluster only after the deletion of every one of them succeeded or found it
  gone; it succeeds exactly when the deletion of the HostedCluster does.\<close>

lemma cluster_delete_order:
  assumes "k_list_hosted_clusters env (tr @ [ListHostedClusters (ccf_ClusterNamespace cfg) [(LabelInstanceID, i)]]) = Inr (hc # hcs)"
    and "k_list_node_pools env (tr @ [ListHostedClusters (ccf_ClusterNamespace cfg) [(LabelInstanceID, i)], ListNodePools (hc_Namespace hc) [(LabelInstanceID, i)]]) = Inr nps"
  shows "let t = tr @ [ListHostedClusters (ccf_ClusterNamespace cfg) [(LabelInstanceID, i)], ListNodePools (hc_Namespace hc) [(LabelInstanceID, i)]];
             d = DeleteHostedCluster (hc_Namespace hc) (hc_Name hc); r = cluster_DeleteResource env cfg tr i
         in if \<forall>j < length nps. pool_gone env t nps j
            then fst r = t @ map delete_pool nps @ [d] \<and> (snd r = None \<longleftrightarrow> k_delete env (fst r) = None)
            else snd r \<noteq> None \<and> (\<exists>k \<le> length nps. fst r = t @ map delete_pool (take k nps))"
proof -
  let ?t = "tr @ [ListHostedClusters (ccf_ClusterNamespace cfg) [(LabelInstanceID, i)], ListNodePools (hc_Namespace hc) [(LabelInstanceID, i)]]"
  obtain k where k: "k \<le> length nps" "fst (delete_pools env ?t nps) = ?t @ map delete_pool (take k nps)"
    "snd (delete_pools env ?t nps) = None \<longleftrightarrow> (\<forall>j < length nps. pool_gone env ?t nps j)" "snd (delete_pools env ?t nps) = None \<longrightarrow> k = length nps"
    using delete_pools_run by blast
  have f: "findByInstanceID env (ccf_ClusterNamespace cfg) tr i = (tr @ [ListHostedClusters (ccf_ClusterNamespace cfg) [(LabelInstanceID, i)]], Inr hc)"
    using assms(1) by (simp add: findByInstanceID_def kube_def)
  obtain t' x where x: "delete_pools env ?t nps = (t', x)" by fastforce
  have d: "deleteNodePools env (hc_Namespace hc) (tr @ [ListHostedClusters (ccf_ClusterNamespace cfg) [(LabelInstanceID, i)]]) i = (t', x)"
    using assms(2) x by (simp add: deleteNodePools_def kube_def)
  let ?all = "\<forall>j < length nps. pool_gone env ?t nps j"
  show ?thesis
  proof (cases x)
    case None
    have all: "?all" using k(3) None unfolding x by simp
    have "t' = ?t @ map delete_pool nps" using k(2,4) None unfolding x by simp
    then show ?thesis unfolding Let_def if_P [OF all]
      by (simp add: cluster_DeleteResource_def DeleteCluster_def f d None kube_def split: option.split)
  next
    case (Some e)
    have not_all: "\<not> ?all" using k(3) Some unfolding x snd_conv by blast
    have "t' = ?t @ map delete_pool (take k nps)" using k(2) unfolding x by simp
    moreover have "cluster_DeleteResource env cfg tr i = (t', Some (mapServiceError e))" by (simp add: cluster_DeleteResource_def DeleteCluster_def f d Some)
    ultimately show ?thesis using k(1) unfolding Let_def if_not_P [OF not_all] by auto
  qed
qed

section \<open>The contract\<close>

definition domain_sp :: "domain_error \<Rightarrow> bool" where
  "domain_sp e \<longleftrightarrow> de_Type e \<in> {INVALID_ARGUMENT, NOT_FOUND, ALREADY_EXISTS, UNPROCESSABLE_ENTITY, INTERNAL_ERROR}"

lemma domain_sp_error: "domain_sp e \<Longrightarrow> sp_error (Some (mapServiceError e))"
  by (auto simp: domain_sp_def mapServiceError_def MapOperationError_def sp_error_def)

lemma domain_sp_simps [simp]:
  "domain_sp (NewInternalError m c)" "domain_sp (domain_err INVALID_ARGUMENT m)" "domain_sp (domain_err NOT_FOUND m)"
  "domain_sp (domain_err ALREADY_EXISTS m)" "domain_sp (domain_err UNPROCESSABLE_ENTITY m)"
  by (simp_all add: domain_sp_def NewInternalError_def domain_err_def)

definition sp_result :: "domain_error + 'a \<Rightarrow> bool" where
  "sp_result r = (case r of Inl e \<Rightarrow> domain_sp e | Inr _ \<Rightarrow> True)"

lemma findByInstanceID_sp: "sp_result (snd (findByInstanceID env ns t i))"
  by (simp add: findByInstanceID_def kube_def sp_result_def split: sum.split list.split)

lemma ResolveReleaseImage_sp: "sp_result (snd (ResolveReleaseImage env cfg t req))"
  by (simp add: ResolveReleaseImage_def version_Resolve_def k8sToOCP_def kube_def sp_result_def split: sum.split list.split option.split prod.split)

lemma create_resources_sp: "snd (create_resources env t hc np) = Some e \<Longrightarrow> domain_sp e"
  by (auto simp: create_resources_def kube_def split: option.splits if_splits)

lemma CreateCluster_sp: "sp_result (snd (CreateCluster pq dq env cfg now t i req pb))"
proof -
  have "ResolveReleaseImage env cfg t req = (t1, Inl e) \<Longrightarrow> domain_sp e" for t1 e
    using ResolveReleaseImage_sp [of env cfg t req] by (simp add: sp_result_def)
  moreover have "findByInstanceID env ns t1 i = (t2, Inl e) \<Longrightarrow> domain_sp e" for ns t1 t2 e
    using findByInstanceID_sp [of env ns t1 i] by (simp add: sp_result_def)
  moreover have "create_resources env t1 hc np = (t2, Some e) \<Longrightarrow> domain_sp e" for t1 t2 hc np e
    using create_resources_sp [of env t1 hc np e] by simp
  ultimately show ?thesis
    by (auto simp: CreateCluster_def sp_result_def Let_def split: prod.splits sum.splits option.splits)
qed

lemma DeleteCluster_sp: "snd (DeleteCluster env cfg t i) = Some e \<Longrightarrow> domain_sp e"
proof -
  have "snd (delete_pools env t1 nps) = Some e \<Longrightarrow> domain_sp e" for t1 nps e
    by (induction env t1 nps rule: delete_pools.induct) (auto simp: kube_def split: option.splits if_splits)
  then have "deleteNodePools env ns t1 i = (t2, Some e) \<Longrightarrow> domain_sp e" for ns t1 t2 e
    by (auto simp: deleteNodePools_def kube_def split: sum.splits) (metis snd_conv)
  moreover have "findByInstanceID env ns t1 i = (t2, Inl e) \<Longrightarrow> domain_sp e" for ns t1 t2 e
    using findByInstanceID_sp [of env ns t1 i] by (simp add: sp_result_def)
  ultimately show "snd (DeleteCluster env cfg t i) = Some e \<Longrightarrow> domain_sp e"
    by (auto simp: DeleteCluster_def kube_def split: prod.splits sum.splits option.splits)
qed

lemma DeleteCluster_calls: "\<exists>seg. fst (DeleteCluster env cfg t i) = t @ seg \<and> (\<forall>c \<in> set seg. \<not> creates c)"
proof -
  have pools: "\<exists>seg. fst (deleteNodePools env ns t1 i) = t1 @ seg \<and> (\<forall>c \<in> set seg. \<not> creates c)" for ns t1
  proof (cases "k_list_node_pools env (t1 @ [ListNodePools ns [(LabelInstanceID, i)]])")
    case (Inr nps)
    obtain k where "fst (delete_pools env (t1 @ [ListNodePools ns [(LabelInstanceID, i)]]) nps) =
        (t1 @ [ListNodePools ns [(LabelInstanceID, i)]]) @ map delete_pool (take k nps)"
      using delete_pools_run [of nps env "t1 @ [ListNodePools ns [(LabelInstanceID, i)]]"] by (elim exE conjE)
    then show ?thesis
      by (intro exI [of _ "ListNodePools ns [(LabelInstanceID, i)] # map delete_pool (take k nps)"])
        (auto simp: deleteNodePools_def kube_def Inr delete_pool_def)
  qed (simp add: deleteNodePools_def kube_def)
  show ?thesis
  proof (cases rule: findByInstanceID_cases [of env "ccf_ClusterNamespace cfg" t i])
    case (found hc hcs)
    let ?t = "t @ [ListHostedClusters (ccf_ClusterNamespace cfg) [(LabelInstanceID, i)]]"
    obtain seg x where d: "deleteNodePools env (hc_Namespace hc) ?t i = (?t @ seg, x)" "\<forall>c \<in> set seg. \<not> creates c"
      using pools [of "hc_Namespace hc" ?t] by (cases "deleteNodePools env (hc_Namespace hc) ?t i") auto
    then show ?thesis by (cases x) (auto simp: DeleteCluster_def found(1) kube_def split: option.split)
  qed (simp_all add: DeleteCluster_def)
qed

interpretation clu_h: embedded_handler "cluster_accepts decode cfg enabled" "cluster_CreateResource decode pq dq env cfg enabled now"
  "cluster_DeleteResource env cfg"
  for decode pq dq env cfg enabled now
proof
  fix i raw tr
  let ?r = "cluster_CreateResource decode pq dq env cfg enabled now tr i raw"
  show refuse: "\<not> cluster_accepts decode cfg enabled i raw \<Longrightarrow> \<exists>m. ?r = (tr, Some (SPResponseError 400 m))" by (rule cluster_refused)
  have "CreateCluster pq dq env cfg now tr i req pb = (t, Inl e) \<Longrightarrow> domain_sp e" for req pb t e
    using CreateCluster_sp [of pq dq env cfg now tr i req pb] by (simp add: sp_result_def)
  moreover have "platform_builder_for cfg platform req = Inl e \<Longrightarrow> domain_sp e" for platform req e using builder_error by (simp add: domain_sp_def)
  ultimately show "sp_error (snd ?r)"
    by (auto simp: cluster_CreateResource_def dispatcher_Create_def intro!: domain_sp_error split: sum.splits prod.splits bool.splits)
  show "sp_error (snd (cluster_DeleteResource env cfg tr i))"
    using DeleteCluster_sp [of env cfg tr i] by (auto simp: cluster_DeleteResource_def map_option_case intro: domain_sp_error split: prod.split option.split)
  show "\<exists>seg. fst ?r = tr @ seg \<and> list_all (\<lambda>c. creates c \<longrightarrow> cluster_accepts decode cfg enabled i raw) seg"
  proof (cases "cluster_accepts decode cfg enabled i raw")
    case True
    then show ?thesis using cluster_create_run [of env cfg tr i decode pq dq enabled now raw] by (auto simp: create_run_def Let_def list_all_iff)
  qed (use refuse in auto)
  show "\<exists>seg. fst (cluster_DeleteResource env cfg tr i) = tr @ seg \<and> (\<forall>c \<in> set seg. \<not> creates c)"
    using DeleteCluster_calls [of env cfg tr i] by (cases "DeleteCluster env cfg tr i") (simp add: cluster_DeleteResource_def)
qed

section \<open>Versions and pages\<close>

text \<open>A release image found for a Kubernetes version reads back as that version, under the matrix it was found with.\<close>

lemma version_read_back:
  assumes "version_Resolve env matrix tr v = (tr', Inr img)" "distinct (map fst matrix)" "'''' \<notin> fst ` set matrix"
  shows "ReleaseImageToK8sVersion img matrix = v"
proof -
  obtain ocp where o: "(ocp, v) \<in> set matrix" "ExtractOCPVersion img = ocp"
    using assms(1) by (auto simp: version_Resolve_def k8sToOCP_def kube_def find_Some_iff split: sum.splits option.splits) (metis nth_mem)
  then have "ocp \<noteq> ''''" using assms(3) by force
  with o show ?thesis using assms(2) by (simp add: ReleaseImageToK8sVersion_def map_of_is_SomeI)
qed

lemma default_matrix_reads_back: "distinct (map fst DefaultCompatibilityMatrix)" "'''' \<notin> fst ` set DefaultCompatibilityMatrix"
  by (simp_all add: DefaultCompatibilityMatrix_def)

text \<open>With an empty configured matrix the creation uses the default one and the reading does not: every version reads back empty.\<close>

lemma empty_matrix_version: "ccf_VersionMatrix cfg = [] \<Longrightarrow> cls_Version (cl_Spec (snd (HostedClusterToCluster env cfg tr hc))) = ''''"
  by (simp add: HostedClusterToCluster_def ReleaseImageToK8sVersion_def Let_def split: prod.split)

text \<open>A page size of zero gives an empty page and the token of the same offset; a negative one panics.\<close>

lemma empty_page_repeats:
  assumes "k_list_hosted_clusters env (tr @ [ListHostedClusters (ccf_ClusterNamespace cfg) (dcm_Selector cluster_type)]) = Inr items"
    and "offset < length items" "int (length items) < 2 ^ 63"
  shows "snd (ListClusters env cfg tr 0 (page_token offset)) = Some (Inr ([], Some (page_token offset)))"
    and "- int offset \<le> n \<Longrightarrow> n < 0 \<Longrightarrow> snd (ListClusters env cfg tr n (page_token offset)) = None"
proof -
  have d: "decodePageToken (page_token offset) = Inr offset" using assms by (intro decode_page_token) simp
  show "snd (ListClusters env cfg tr 0 (page_token offset)) = Some (Inr ([], Some (page_token offset)))"
    using assms by (simp add: ListClusters_def kube_def d Let_def wrap64_id int64_def)
  show "- int offset \<le> n \<Longrightarrow> n < 0 \<Longrightarrow> snd (ListClusters env cfg tr n (page_token offset)) = None"
    using assms by (simp add: ListClusters_def kube_def d Let_def wrap64_id int64_def)
qed

text \<open>A worker memory that is not a DCM size is not refused: the pool is built with a memory of zero.\<close>

lemma bad_memory_zero: "memory_or_zero pq ''16Gi'' = zero_quantity"
proof -
  have "cut_suffix ''16Gi'' ''B'' = None" by code_simp
  then show ?thesis by (simp add: memory_or_zero_def ParseDCMMemory_def)
qed

end
