(* ===== verification/Spec2Isabelle.thy ===== *)
theory Spec2Isabelle
  imports Backoff Resource_Sets Provider_Service Routing_Runs Messaging_Handlers Messaging_Client Router_Interleaving Dcm_Registrar Agent_Config Http_Api Agent_Events Status_Monitors Vm_Provider Cluster_Provider
begin

text \<open>
  The environment agent runs beside a set of service providers and takes resource requests for them from the DCM control plane over
  NATS JetStream.  A provider registers over HTTP or is embedded in the process; provider records are kept in a JSON file, provider
  health is checked periodically, a request is routed to the provider that holds its service type, held back on a retry topic while
  that provider is unhealthy, and answered with CloudEvents.  A registrar announces the agent and the service types of its healthy
  providers to DCM.  Embedded providers keep their resources in a Kubernetes cluster, watch them and publish status events.

  \<^bold>\<open>How the code is modelled.\<close>  A Go struct is a \<open>record\<close>, an operation one definition with a branch per early return, an
  error a value.  \<open>int64\<close> and \<open>time.Duration\<close> are integers with \<open>wrap64\<close> where the code can overflow, \<open>int32\<close> conversions use \<open>wrap32\<close>, a
  \<open>uint64\<close> counter is a \<open>64 word\<close>.  Effects are entries of a trace that the state carries; what the outside (HTTP servers, JetStream, the
  file system, the Kubernetes API server, the clock) answers is a function of that trace, so that an answer can depend on everything done
  before.  Code that runs in several goroutines is an inductive step relation whose steps are the sections between two lock operations or
  blocking calls; the theorems then hold for every reachable state.  JSON is represented by its decoded values.  Log records are omitted.

  \<^bold>\<open>Theories and the code they model\<close> (paths under \<open>src/internal\<close> unless said otherwise).
  \<^item> \<open>Agent_Prelude\<close>, \<open>Agent_Regex\<close>: integers, \<open>strings\<close>, results; the regular expressions of the validators with their language and a matcher.
  \<^item> \<open>Backoff\<close>: \<open>backoff/backoff.go\<close>, \<open>dcm/backoff.go\<close>; the exact delay of every attempt, jitter bounds, \<open>Retry-After\<close>.
  \<^item> \<open>Resource_Sets\<close>: \<open>routing/resourceset.go\<close>, \<open>routing/keylock.go\<close>; the LRU set with its list pointers refines a bounded list.  Locale
    \<open>keyed_lock\<close>, interpretation \<open>kl\<close>.
  \<^item> \<open>Registry\<close>: \<open>provider/provider.go\<close>, \<open>provider/health_state.go\<close>; locales \<open>slot_registry\<close> (\<open>reg\<close>) and \<open>health_tracker\<close> (\<open>ht\<close>).
  \<^item> \<open>File_Store\<close>: \<open>provider/store\<close>; reads, atomic replacement, every fault of a system call and every crash image.  Locale
    \<open>provider_store\<close> (\<open>fs\<close>).
  \<^item> \<open>Health_Monitor\<close>: \<open>health/monitor\<close>; the status state machine against its counting specification, and the monitor's
    goroutines: the tracker always shows the status of the entry that is registered now.
  \<^item> \<open>Provider_Service\<close>: \<open>provider/service\<close>; registration of external and embedded providers, startup, listing.  Records,
    slots, health states and monitor entries stay consistent on every path, errors included, and a restart restores them.
  \<^item> \<open>Agent_Events\<close>: \<open>health/cepublisher.go\<close> and the callbacks of \<open>src/cmd/environment-agent/main.go\<close>.
  \<^item> \<open>Forwarding\<close>, \<open>Router\<close>, \<open>Retry_Processor\<close>, \<open>Routing_Runs\<close>: \<open>routing\<close>, \<open>routing/retry\<close>, \<open>cloudevent\<close>; dispatch, forwarding with retries, the
    answer of every request, draining of the retry topic, runs over several requests and a restart.  Locale \<open>retry_topic\<close> (\<open>rp\<close>) is what the router
    needs of the processor.
  \<^item> \<open>Router_Interleaving\<close>: the router and the processor as concurrent goroutines; exclusive forwards, honoured cancels.
  \<^item> \<open>Messaging_Topics\<close>, \<open>Messaging_Handlers\<close>, \<open>Messaging_Client\<close>: \<open>messaging\<close>; names, how deliveries are settled, and the client's
    setup, retry, consumption and shutdown under all interleavings.
  \<^item> \<open>Dcm_Client\<close>, \<open>Dcm_Registrar\<close>: \<open>dcm\<close>; requests and their classification, tokens, and the registrar goroutine.
  \<^item> \<open>Agent_Config\<close>: \<open>config\<close> and the set-up part of \<open>main.go\<close>; a configuration that loads gives parameters in range.
  \<^item> \<open>Http_Server\<close>, \<open>Http_Api\<close>: \<open>httperror\<close>, \<open>auth\<close>, \<open>requestctx\<close>, \<open>apiserver\<close>, \<open>handler\<close> and the response writing of
    \<open>api/server/server.gen.go\<close>; the middleware chain, authentication, audit records, opaque errors, the meaning of each status.
  \<^item> \<open>Kube_Api\<close>: the Kubernetes objects and calls that the embedded providers use, what they share (labels, ids, page sizes), and the
    locale \<open>embedded_handler\<close>, the contract of \<open>routing.EmbeddedHandler\<close>.
  \<^item> \<open>Network_Provider\<close>, \<open>Storage_Provider\<close>, \<open>Container_Provider\<close> with \<open>Page_Token\<close>: \<open>openshift/{network,storage,container}\<close> (validate,
    kubernetes, dcm, units, store) and \<open>embedded/{network,storage,container}/handler.go\<close>; create, get, list and delete with the calls they make.
    Interpretations \<open>net_h\<close>, \<open>sto_h\<close>, \<open>con_h\<close> of \<open>embedded_handler\<close>.
  \<^item> \<open>Cluster_Status\<close>: the status computation of \<open>openshift/acmcluster\<close>.
  \<^item> \<open>Status_Debouncer\<close>: \<open>openshift/{network,storage}/monitoring/debouncer.go\<close> under all interleavings of timers, publishes and \<open>Stop\<close>.
  \<^item> \<open>Workload_Status\<close>, \<open>Status_Monitors\<close>: \<open>openshift/{network,storage,container}/monitoring\<close>; the event of every notice, and the network and
    storage monitors composed with the debouncer.  Locale \<open>submit_check\<close> (\<open>net_c\<close>, \<open>sto_c\<close>) is the contract of \<open>submitIfChanged\<close>.

  \<^bold>\<open>What the lemma groups show.\<close>  Invariants of the shared state kept by every operation (providers, health, registrar, client,
  router); crash safety of the file; functional behaviour per branch (dispatch, answers, settling, HTTP statuses); refinement and
  equivalence (LRU set, state machine, regular expressions); round trips (startup, page tokens, network read back); termination and
  liveness (draining, redelivery, client setup, paging); bounds (delays, configuration ranges).  Lemmas that exhibit a run
  (\<open>cancel_race\<close>, \<open>failure_overtaken\<close>, \<open>flapping_status_stale\<close>, \<open>Stop_returns_before_flush\<close> and others) show behaviours the code has and its
  comments or requirements do not mention.

  \<^bold>\<open>Bounds and fuel.\<close>  Loops are structural or have a termination proof on what is left (attempts, messages, list positions).  A
  loop over what the outside delivers takes the deliveries from the trace function and is bounded as in the code: a drain of the retry topic by the
  number of messages pending when it starts, a forward by its attempts, paging by the number of containers; that these bounds are enough is
  proved.  The debouncer's version counter is a \<open>64 word\<close>; the
  predicate \<open>bounded\<close> asks for fewer than \<open>2 ^ 64\<close> submissions of one instance.

  \<^bold>\<open>Not modelled.\<close>
  \<^item> Third-party code: NATS and JetStream, the Kubernetes clients and informers, the OIDC and OAuth2 libraries, \<open>net/http\<close>, \<open>envconfig\<close>.  Their
    answers are arguments; \<open>url.Parse\<close>, \<open>http.ParseTime\<close> and \<open>resource.ParseQuantity\<close> too.
  \<^item> Generated code (\<open>*.gen.go\<close>) other than the response writing and the types the handlers use: it is routing tables, embedded
    documents and JSON tags.
  \<^item> Set-up that only builds clients and registers callbacks: \<open>openshift/*/app\<close>, \<open>openshift/*/config\<close>, \<open>openshift/kubeconfig\<close>,
    \<open>*/kubernetes/client.go\<close>, the informer construction in \<open>Start\<close>, listening and shutdown of the HTTP server, process start.
  \<^item> The NATS publishers of status events (\<open>monitoring/publisher.go\<close>, \<open>monitoring/event.go\<close>): encoding and one library call.
  \<^item> The virtual machine provider (\<open>openshift/kubevirtvm\<close>, \<open>embedded/vm\<close>) and the creation of ACM clusters (\<open>openshift/acmcluster/cluster\<close>): they
    build unstructured objects of KubeVirt and HyperShift whose types are not in the repository.  The database provider
    (\<open>openshift/database\<close>) is not wired into the agent.
  \<^item> Test helpers (\<open>routing/routingtest\<close>, \<open>acmcluster/cluster/clustertest\<close>).
\<close>

end
